(* ===== verification/EF_Domain.thy ===== *)
theory EF_Domain
  imports EF_Prelude
begin

text \<open>
  The data types of \<open>internal/domain\<close>.  A Go struct is a \<open>record\<close> whose
  fields carry the struct's name as a prefix (record fields share one name
  space); a pointer field is an \<open>option\<close>; \<open>json.RawMessage\<close> is its text.
  A Go string enumeration is a datatype with the source's constants as
  constructors; \<open>...Other s\<close> stands for every value \<open>s\<close> that is none of them,
  the empty string included, because a Go value of such a type can be any
  string.
\<close>

section \<open>Identifiers\<close>

definition ZeroID :: ID where "ZeroID = 0"

text \<open>The controller's peer has the UUID \<open>00000000-0000-0000-0000-000000000001\<close>.\<close>

definition ControllerPeerID :: ID where "ControllerPeerID = 1"

section \<open>Nodes, node groups, gateways\<close>

datatype NodeStatus =
    NodeStatusPending | NodeStatusEnrolling | NodeStatusOnline | NodeStatusOffline
  | NodeStatusError | NodeStatusDecommissioned | NodeStatusOther string

datatype NodeCapability =
    CapabilityBGP | CapabilityDNS | CapabilityCDN | CapabilityRoute | CapabilityOther string

record Node =
  nodeID :: ID
  nodeTenantID :: "ID option"
  nodeName :: string
  nodeHostname :: string
  nodePublicIP :: string
  nodeWireGuardIP :: string
  nodeWireGuardIPv6 :: string
  nodeStatus :: NodeStatus
  nodeRegion :: string
  nodeProvider :: string
  nodeSSHPort :: int
  nodeSSHUser :: string
  nodeSSHKeyID :: "ID option"
  nodeBinaryVersion :: string
  nodeLastHeartbeat :: "Time option"
  nodeLastConfigSync :: "Time option"
  nodeCapabilities :: "NodeCapability list"
  nodeMetadata :: string
  nodeCreatedAt :: Time
  nodeUpdatedAt :: Time

record NodeGroup =
  groupID :: ID
  groupTenantID :: ID
  groupName :: string
  groupDescription :: string
  groupCreatedAt :: Time
  groupUpdatedAt :: Time

datatype GatewayStatus =
    GatewayStatusPending | GatewayStatusEnrolling | GatewayStatusOnline
  | GatewayStatusOffline | GatewayStatusError | GatewayStatusOther string

record Gateway =
  gwID :: ID
  gwTenantID :: ID
  gwName :: string
  gwPublicIP :: string
  gwWireGuardIP :: string
  gwStatus :: GatewayStatus
  gwEnrollmentToken :: string
  gwLastHeartbeat :: "Time option"
  gwLastConfigSync :: "Time option"
  gwMetadata :: string
  gwCreatedAt :: Time
  gwUpdatedAt :: Time

section \<open>Provisioning\<close>

datatype ProvisioningAction =
    ProvisionActionEnroll | ProvisionActionReprovision | ProvisionActionUpgrade
  | ProvisionActionStart | ProvisionActionStop | ProvisionActionRestart
  | ProvisionActionDecommission | ProvisionActionOther string

datatype ProvisioningStatus =
    ProvisionStatusPending | ProvisionStatusRunning | ProvisionStatusCompleted
  | ProvisionStatusFailed | ProvisionStatusOther string

datatype ProvisioningStep =
    StepValidateSSH | StepUploadBinary | StepWriteConfig | StepInstallSystemd
  | StepStartService | StepGenerateWGKeys | StepConfigureWireGuard | StepWaitEnrollment
  | StepVerifyOnline | StepStopService | StepCleanup | StepSendCommand
  | StepBackupBinary | StepAtomicSwap | StepRollback | StepOther string

record StepResult =
  srStep :: ProvisioningStep
  srStatus :: string
  srOutput :: string
  srError :: string
  srStartedAt :: Time
  srDurationMs :: int

text \<open>
  \<open>Steps\<close> is stored as the JSON array of the step results; the model keeps the
  list that array encodes.
\<close>

record ProvisioningJob =
  jobID :: ID
  jobNodeID :: ID
  jobTenantID :: "ID option"
  jobAction :: ProvisioningAction
  jobStatus :: ProvisioningStatus
  jobCurrentStep :: ProvisioningStep
  jobSteps :: "StepResult list"
  jobError :: string
  jobInitiatedBy :: ID
  jobStartedAt :: "Time option"
  jobCompletedAt :: "Time option"
  jobCreatedAt :: Time
  jobUpdatedAt :: Time

definition ValidActionStates :: "ProvisioningAction \<Rightarrow> NodeStatus list option" where
  "ValidActionStates a = (case a of
     ProvisionActionEnroll \<Rightarrow> Some [NodeStatusPending]
   | ProvisionActionStart \<Rightarrow> Some [NodeStatusOffline, NodeStatusError]
   | ProvisionActionStop \<Rightarrow> Some [NodeStatusOnline]
   | ProvisionActionRestart \<Rightarrow> Some [NodeStatusOnline]
   | ProvisionActionUpgrade \<Rightarrow> Some [NodeStatusOnline, NodeStatusOffline]
   | ProvisionActionReprovision \<Rightarrow> Some [NodeStatusOnline, NodeStatusOffline, NodeStatusError]
   | ProvisionActionDecommission \<Rightarrow>
       Some [NodeStatusPending, NodeStatusOnline, NodeStatusOffline, NodeStatusError]
   | ProvisionActionOther _ \<Rightarrow> None)"

definition IsValidTransition :: "ProvisioningAction \<Rightarrow> NodeStatus \<Rightarrow> bool" where
  "IsValidTransition action currentStatus =
     (case ValidActionStates action of
        None \<Rightarrow> False
      | Some validStates \<Rightarrow> list_ex (\<lambda>s. s = currentStatus) validStates)"

section \<open>WireGuard peers, enrollment tokens, SSH keys\<close>

datatype PeerOwnerType =
    PeerOwnerNode | PeerOwnerGateway | PeerOwnerController | PeerOwnerOther string

record WireGuardPeer =
  peerID :: ID
  peerOwnerType :: PeerOwnerType
  peerOwnerID :: ID
  peerPublicKey :: string
  peerPrivateKey :: string
  peerPresharedKey :: string
  peerAllowedIPs :: "string list"
  peerEndpoint :: string
  peerLastRotatedAt :: Time
  peerCreatedAt :: Time
  peerUpdatedAt :: Time

datatype EnrollmentTargetType =
    EnrollmentTargetNode | EnrollmentTargetGateway | EnrollmentTargetOther string

record EnrollmentToken =
  tokID :: ID
  tokTenantID :: ID
  tokTargetType :: EnrollmentTargetType
  tokTargetID :: ID
  tokToken :: string
  tokExpiresAt :: Time
  tokUsedAt :: "Time option"
  tokCreatedAt :: Time

record SSHKey =
  sshID :: ID
  sshName :: string
  sshPublicKey :: string
  sshPrivateKey :: string
  sshFingerprint :: string
  sshCreatedAt :: Time
  sshLastRotatedAt :: Time

section \<open>DNS\<close>

datatype DNSRecordType =
    DNSRecordTypeA | DNSRecordTypeAAAA | DNSRecordTypeCNAME | DNSRecordTypeMX
  | DNSRecordTypeTXT | DNSRecordTypeNS | DNSRecordTypeSRV | DNSRecordTypeCAA
  | DNSRecordTypePTR | DNSRecordTypeOther string

datatype DNSZoneStatus = DNSZoneActive | DNSZoneDisabled | DNSZoneStatusOther string

record DNSZone =
  zoneID :: ID
  zoneTenantID :: ID
  zoneName :: string
  zoneStatus :: DNSZoneStatus
  zoneSerial :: "32 word"
  zoneTTL :: int
  zoneNodeGroupID :: "ID option"
  zoneTransferAllowedIPs :: "string list"
  zoneCreatedAt :: Time
  zoneUpdatedAt :: Time

record DNSRecord =
  recID :: ID
  recZoneID :: ID
  recName :: string
  recType :: DNSRecordType
  recValue :: string
  recTTL :: "int option"
  recPriority :: "int option"
  recWeight :: "int option"
  recPort :: "int option"
  recCreatedAt :: Time
  recUpdatedAt :: Time

section \<open>CDN\<close>

datatype CDNSiteStatus = CDNSiteActive | CDNSiteDisabled | CDNSiteStatusOther string
datatype TLSMode = TLSModeAuto | TLSModeManual | TLSModeDisabled | TLSModeOther string
datatype CDNOriginStatus =
  CDNOriginHealthy | CDNOriginUnhealthy | CDNOriginUnknown | CDNOriginStatusOther string
datatype CDNOriginScheme = CDNOriginHTTP | CDNOriginHTTPS | CDNOriginSchemeOther string

record CDNSite =
  siteID :: ID
  siteTenantID :: ID
  siteName :: string
  siteDomains :: "string list"
  siteTLSMode :: TLSMode
  siteTLSCertID :: "ID option"
  siteCacheEnabled :: bool
  siteCacheTTL :: int
  siteCompressionEnabled :: bool
  siteRateLimitRPS :: "int option"
  siteNodeGroupID :: "ID option"
  siteHeaderRules :: string
  siteWAFEnabled :: bool
  siteWAFMode :: string
  siteStatus :: CDNSiteStatus
  siteCreatedAt :: Time
  siteUpdatedAt :: Time

record CDNOrigin =
  originID :: ID
  originSiteID :: ID
  originAddress :: string
  originScheme :: CDNOriginScheme
  originWeight :: int
  originHealthCheckPath :: string
  originHealthCheckInterval :: "int option"
  originStatus :: CDNOriginStatus
  originCreatedAt :: Time
  originUpdatedAt :: Time

section \<open>Routes\<close>

datatype RouteProtocol =
  RouteProtocolTCP | RouteProtocolUDP | RouteProtocolICMP | RouteProtocolAll
  | RouteProtocolOther string
datatype RouteStatus = RouteStatusActive | RouteStatusDisabled | RouteStatusOther string

record Route =
  routeID :: ID
  routeTenantID :: ID
  routeName :: string
  routeProtocol :: RouteProtocol
  routeEntryIP :: string
  routeEntryPort :: "int option"
  routeGatewayID :: ID
  routeDestinationIP :: string
  routeDestinationPort :: "int option"
  routeNodeGroupID :: "ID option"
  routeStatus :: RouteStatus
  routeCreatedAt :: Time
  routeUpdatedAt :: Time

section \<open>Tenants, users, API keys\<close>

datatype TenantStatus =
  TenantStatusActive | TenantStatusSuspended | TenantStatusDeleted | TenantStatusOther string

record Tenant =
  tenantID :: ID
  tenantName :: string
  tenantSlug :: string
  tenantStatus :: TenantStatus
  tenantSettings :: string
  tenantCreatedAt :: Time
  tenantUpdatedAt :: Time

datatype Role = RoleSuperUser | RoleAdmin | RoleReadOnly | RoleOther string
datatype UserStatus = UserStatusActive | UserStatusDisabled | UserStatusOther string

record User =
  userID :: ID
  userTenantID :: "ID option"
  userEmail :: string
  userName :: string
  userPasswordHash :: string
  userTOTPSecret :: string
  userTOTPEnabled :: bool
  userRole :: Role
  userStatus :: UserStatus
  userLastLoginAt :: "Time option"
  userCreatedAt :: Time
  userUpdatedAt :: Time

record APIKey =
  keyID :: ID
  keyTenantID :: ID
  keyUserID :: ID
  keyName :: string
  keyKeyHash :: string
  keyKeyPrefix :: string
  keyRole :: Role
  keyExpiresAt :: "Time option"
  keyLastUsedAt :: "Time option"
  keyCreatedAt :: Time

section \<open>BGP sessions and IP allocations\<close>

datatype BGPSessionStatus =
  BGPSessionConfigured | BGPSessionEstablished | BGPSessionIdle | BGPSessionError
  | BGPSessionStatusOther string

record BGPSession =
  bgpID :: ID
  bgpNodeID :: ID
  bgpPeerASN :: "32 word"
  bgpPeerAddress :: string
  bgpLocalASN :: "32 word"
  bgpStatus :: BGPSessionStatus
  bgpAnnouncedPrefixes :: "string list"
  bgpImportPolicy :: string
  bgpExportPolicy :: string
  bgpMetadata :: string
  bgpCreatedAt :: Time
  bgpUpdatedAt :: Time

datatype IPAllocationType = IPAllocationAnycast | IPAllocationUnicast | IPAllocationTypeOther string
datatype IPAllocationPurpose =
  IPPurposeDNS | IPPurposeCDN | IPPurposeRoute | IPAllocationPurposeOther string
datatype IPAllocationStatus =
  IPAllocationActive | IPAllocationWithdrawn | IPAllocationPending | IPAllocationStatusOther string

record IPAllocation =
  ipID :: ID
  ipTenantID :: ID
  ipPrefix :: string
  ipType :: IPAllocationType
  ipPurpose :: IPAllocationPurpose
  ipStatus :: IPAllocationStatus
  ipCreatedAt :: Time
  ipUpdatedAt :: Time

section \<open>Lifecycle transitions\<close>

lemma IsValidTransition_simps [simp]:
  "IsValidTransition ProvisionActionEnroll s \<longleftrightarrow> s = NodeStatusPending"
  "IsValidTransition ProvisionActionStart s \<longleftrightarrow> s = NodeStatusOffline \<or> s = NodeStatusError"
  "IsValidTransition ProvisionActionStop s \<longleftrightarrow> s = NodeStatusOnline"
  "IsValidTransition ProvisionActionRestart s \<longleftrightarrow> s = NodeStatusOnline"
  "IsValidTransition ProvisionActionUpgrade s \<longleftrightarrow> s = NodeStatusOnline \<or> s = NodeStatusOffline"
  "IsValidTransition ProvisionActionReprovision s \<longleftrightarrow>
     s = NodeStatusOnline \<or> s = NodeStatusOffline \<or> s = NodeStatusError"
  "IsValidTransition ProvisionActionDecommission s \<longleftrightarrow>
     s = NodeStatusPending \<or> s = NodeStatusOnline \<or> s = NodeStatusOffline \<or> s = NodeStatusError"
  "\<not> IsValidTransition (ProvisionActionOther u) s"
  by (auto simp: IsValidTransition_def ValidActionStates_def)

lemma no_transition_when_busy_or_gone:
  "IsValidTransition a s \<Longrightarrow> s \<noteq> NodeStatusEnrolling \<and> s \<noteq> NodeStatusDecommissioned"
  by (cases a) auto

section \<open>Audit events\<close>

text \<open>The details are the map that the stored JSON object encodes.\<close>

record AuditEvent =
  auditID :: ID
  auditTenantID :: "ID option"
  auditUserID :: "ID option"
  auditAPIKeyID :: "ID option"
  auditAction :: string
  auditResource :: string
  auditDetails :: "(string \<times> string) list"
  auditSourceIP :: string
  auditTimestamp :: Time

end
