(* ===== verification/EF_Events.thy ===== *)
theory EF_Events
  imports EF_Domain
begin

text \<open>
  The event types of \<open>internal/events\<close> and the in-process bus.  An event's
  \<open>Timestamp\<close> is the clock reading of the publisher and no code reads it back,
  so the record leaves it out.  A handler is a name: what it does
  (webhook, e-mail, Slack) is I/O.
\<close>

datatype EventType =
    EvNodeStatusChanged | EvGatewayStatusChanged | EvProvisioningFailed
  | EvCertificateExpiring | EvHealthCheckFailed
  | EvOverlayPeerUnreachable | EvOverlayPeerRecovered
  | EvBGPSessionDown | EvBGPSessionEstablished
  | EvRouteHealthCheckFailed | EvRouteHealthCheckRecovered
  | EvLeaderElected | EvLeaderLost | EvOther string

datatype Severity = SeverityInfo | SeverityWarning | SeverityCritical

record Event =
  evType :: EventType
  evSeverity :: Severity
  evResource :: string
  evDetails :: "(string \<times> string) list"

section \<open>The bus\<close>

type_synonym Handler = nat

record Bus =
  busHandlers :: "EventType \<Rightarrow> Handler list"
  busLog :: "Event list"

definition NewBus :: Bus where
  "NewBus = \<lparr>busHandlers = (\<lambda>_. []), busLog = []\<rparr>"

definition Subscribe :: "Bus \<Rightarrow> EventType \<Rightarrow> Handler \<Rightarrow> Bus" where
  "Subscribe b et h =
     b\<lparr>busHandlers := (busHandlers b)(et := busHandlers b et @ [h])\<rparr>"

text \<open>
  \<open>Publish\<close> logs the event and starts one goroutine per handler of its type:
  the result lists the handler calls in the order they are started.
\<close>

definition Publish :: "Bus \<Rightarrow> Event \<Rightarrow> (Handler \<times> Event) list \<times> Bus" where
  "Publish b ev =
     (let handlers = busHandlers b (evType ev)
      in (map (\<lambda>h. (h, ev)) handlers, b\<lparr>busLog := busLog b @ [ev]\<rparr>))"

definition subscribeAll :: "(EventType \<times> Handler) list \<Rightarrow> Bus \<Rightarrow> Bus" where
  "subscribeAll subs b = fold (\<lambda>(et, h) b. Subscribe b et h) subs b"

lemma subscribeAll_handlers:
  "busHandlers (subscribeAll subs b) et =
     busHandlers b et @ map snd (filter (\<lambda>s. fst s = et) subs)"
  unfolding subscribeAll_def
  by (induction subs arbitrary: b) (auto simp: Subscribe_def)

end
