(* ===== verification/EF_Health.thy ===== *)
theory EF_Health
  imports EF_Events
begin

text \<open>
  The three health checkers: CDN origins (\<open>cdnserver/healthcheck.go\<close>), overlay
  peers (\<open>networking/health.go\<close>) and route destinations
  (\<open>routeserver/health.go\<close>).  Each keeps two consecutive counters and a flag
  per target.  The locale \<open>health_machine\<close> states what their
  \<open>markResult\<close> methods have in common; its lemmas describe the flag after any
  probe history, and each checker interprets it.

  The network is a parameter: a probe round is a function from the address to
  the outcome of the dial or request.  Counters are Go \<open>int\<close>s; one increment
  per 30 seconds cannot reach \<open>2^63\<close>, so they are \<^typ>\<open>int\<close>.  Prometheus
  metrics are third-party and never read back.
\<close>

section \<open>CDN origin checker\<close>

abbreviation healthyThreshold :: int where "healthyThreshold \<equiv> 1"
abbreviation unhealthyThreshold :: int where "unhealthyThreshold \<equiv> 3"

record originHealth =
  ohOrigin :: CDNOrigin
  ohHealthy :: bool
  ohConsecutiveFail :: int
  ohConsecutiveOK :: int

text \<open>\<open>NewHealthChecker\<close>: every origin is assumed healthy.\<close>

definition NewHealthChecker :: "CDNOrigin list \<Rightarrow> originHealth list" where
  "NewHealthChecker origins =
     map (\<lambda>o'. \<lparr>ohOrigin = o', ohHealthy = True, ohConsecutiveFail = 0, ohConsecutiveOK = 0\<rparr>)
       origins"

definition origin_markResult :: "originHealth \<Rightarrow> bool \<Rightarrow> originHealth" where
  "origin_markResult oh success =
     (if success then
        let oh = oh\<lparr>ohConsecutiveOK := ohConsecutiveOK oh + 1, ohConsecutiveFail := 0\<rparr>
        in if ohConsecutiveOK oh \<ge> healthyThreshold then oh\<lparr>ohHealthy := True\<rparr> else oh
      else
        let oh = oh\<lparr>ohConsecutiveFail := ohConsecutiveFail oh + 1, ohConsecutiveOK := 0\<rparr>
        in if ohConsecutiveFail oh \<ge> unhealthyThreshold then oh\<lparr>ohHealthy := False\<rparr> else oh)"

fun scheme_string :: "CDNOriginScheme \<Rightarrow> string" where
  "scheme_string CDNOriginHTTP = ''http''"
| "scheme_string CDNOriginHTTPS = ''https''"
| "scheme_string (CDNOriginSchemeOther s) = s"

definition origin_check_url :: "CDNOrigin \<Rightarrow> string" where
  "origin_check_url o' =
     (let path = (if originHealthCheckPath o' = '''' then ''/'' else originHealthCheckPath o');
          scheme = (if scheme_string (originScheme o') = '''' then ''https''
                    else scheme_string (originScheme o'))
      in scheme @ ''://'' @ originAddress o' @ path)"

text \<open>
  One probe.  \<open>newRequest url\<close> says whether the request can be built,
  \<open>httpDo url\<close> is the status code of the response or \<open>None\<close> on an error.
\<close>

definition checkOrigin ::
  "(string \<Rightarrow> bool) \<Rightarrow> (string \<Rightarrow> int option) \<Rightarrow> originHealth \<Rightarrow> originHealth" where
  "checkOrigin newRequest httpDo oh =
     (let url = origin_check_url (ohOrigin oh)
      in if \<not> newRequest url then origin_markResult oh False
         else (case httpDo url of
                 None \<Rightarrow> origin_markResult oh False
               | Some code \<Rightarrow> origin_markResult oh (code \<ge> 200 \<and> code < 400)))"

definition origin_checkAll ::
  "(string \<Rightarrow> bool) \<Rightarrow> (string \<Rightarrow> int option) \<Rightarrow> originHealth list \<Rightarrow> originHealth list" where
  "origin_checkAll newRequest httpDo hc = map (checkOrigin newRequest httpDo) hc"

definition HealthyOrigins :: "originHealth list \<Rightarrow> CDNOrigin list" where
  "HealthyOrigins hc = map ohOrigin (filter ohHealthy hc)"

section \<open>Overlay peer checker\<close>

record OverlayHealthConfig =
  ovInterval :: Duration
  ovTimeout :: Duration
  ovUnhealthyThreshold :: int
  ovHealthyThreshold :: int
  ovProbePort :: int

definition DefaultOverlayHealthConfig :: OverlayHealthConfig where
  "DefaultOverlayHealthConfig =
     \<lparr>ovInterval = 30 * Second, ovTimeout = 5 * Second,
      ovUnhealthyThreshold = 3, ovHealthyThreshold = 1, ovProbePort = 9090\<rparr>"

record OverlayTarget =
  otName :: string
  otIP :: string

record overlayPeerState =
  opTarget :: OverlayTarget
  opHealthy :: bool
  opConsecutiveFail :: int
  opConsecutiveOK :: int

text \<open>The checker; \<open>ocHasBus\<close> is \<open>eventBus != nil\<close>.\<close>

record OverlayHealthChecker =
  ocPeers :: "overlayPeerState list"
  ocConfig :: OverlayHealthConfig
  ocHasBus :: bool

definition NewOverlayHealthChecker ::
  "OverlayTarget list \<Rightarrow> OverlayHealthConfig \<Rightarrow> bool \<Rightarrow> OverlayHealthChecker" where
  "NewOverlayHealthChecker targets config eventBus =
     \<lparr>ocPeers = map (\<lambda>t. \<lparr>opTarget = t, opHealthy = True,
                          opConsecutiveFail = 0, opConsecutiveOK = 0\<rparr>) targets,
      ocConfig = config, ocHasBus = eventBus\<rparr>"

definition IsHealthy :: "OverlayHealthChecker \<Rightarrow> string \<Rightarrow> bool" where
  "IsHealthy c peerIP =
     (case find (\<lambda>p. otIP (opTarget p) = peerIP) (ocPeers c) of
        Some p \<Rightarrow> opHealthy p
      | None \<Rightarrow> False)"

text \<open>\<open>publishEvent\<close>: nothing without a bus.\<close>

definition publishEvent :: "bool \<Rightarrow> Event \<Rightarrow> Event list" where
  "publishEvent hasBus ev = (if hasBus then [ev] else [])"

text \<open>\<open>markResult\<close> of a peer: its new state and the events it publishes.\<close>

definition overlay_update :: "OverlayHealthConfig \<Rightarrow> overlayPeerState \<Rightarrow> bool \<Rightarrow> overlayPeerState" where
  "overlay_update cfg peer success =
     (if success then
        let peer = peer\<lparr>opConsecutiveOK := opConsecutiveOK peer + 1, opConsecutiveFail := 0\<rparr>
        in if opConsecutiveOK peer \<ge> ovHealthyThreshold cfg then peer\<lparr>opHealthy := True\<rparr> else peer
      else
        let peer = peer\<lparr>opConsecutiveFail := opConsecutiveFail peer + 1, opConsecutiveOK := 0\<rparr>
        in if opConsecutiveFail peer \<ge> ovUnhealthyThreshold cfg then peer\<lparr>opHealthy := False\<rparr>
           else peer)"

definition overlay_markResult ::
  "OverlayHealthConfig \<Rightarrow> bool \<Rightarrow> overlayPeerState \<Rightarrow> bool \<Rightarrow> overlayPeerState \<times> Event list" where
  "overlay_markResult cfg hasBus peer success =
     (let wasHealthy = opHealthy peer;
          peer' = overlay_update cfg peer success;
          t = opTarget peer
      in if wasHealthy \<and> \<not> opHealthy peer' then
           (peer', publishEvent hasBus
              \<lparr>evType = EvOverlayPeerUnreachable, evSeverity = SeverityCritical,
               evResource = ''overlay/'' @ otIP t,
               evDetails = [(''peer_name'', otName t), (''peer_ip'', otIP t),
                            (''consecutive_failures'', itoa (opConsecutiveFail peer'))]\<rparr>)
         else if \<not> wasHealthy \<and> opHealthy peer' then
           (peer', publishEvent hasBus
              \<lparr>evType = EvOverlayPeerRecovered, evSeverity = SeverityInfo,
               evResource = ''overlay/'' @ otIP t,
               evDetails = [(''peer_name'', otName t), (''peer_ip'', otIP t)]\<rparr>)
         else (peer', []))"

text \<open>\<open>dial addr\<close> is whether the TCP dial of this round succeeds.\<close>

definition checkPeer ::
  "OverlayHealthConfig \<Rightarrow> bool \<Rightarrow> (string \<Rightarrow> bool) \<Rightarrow> overlayPeerState \<Rightarrow> overlayPeerState \<times> Event list"
where
  "checkPeer cfg hasBus dial peer =
     overlay_markResult cfg hasBus peer
       (dial (JoinHostPort (otIP (opTarget peer)) (itoa (ovProbePort cfg))))"

definition overlay_checkAll ::
  "(string \<Rightarrow> bool) \<Rightarrow> OverlayHealthChecker \<Rightarrow> OverlayHealthChecker \<times> Event list" where
  "overlay_checkAll dial c =
     (let rs = map (checkPeer (ocConfig c) (ocHasBus c) dial) (ocPeers c)
      in (c\<lparr>ocPeers := map fst rs\<rparr>, concat (map snd rs)))"

section \<open>Route destination checker\<close>

record RouteHealthConfig =
  rhcInterval :: Duration
  rhcTimeout :: Duration
  rhcUnhealthyThreshold :: int
  rhcHealthyThreshold :: int

definition DefaultRouteHealthConfig :: RouteHealthConfig where
  "DefaultRouteHealthConfig =
     \<lparr>rhcInterval = 30 * Second, rhcTimeout = 5 * Second,
      rhcUnhealthyThreshold = 3, rhcHealthyThreshold = 1\<rparr>"

record RouteTarget =
  rtRouteID :: ID
  rtRouteName :: string
  rtProtocol :: RouteProtocol
  rtGatewayWGIP :: string
  rtEntryPort :: int

record routeHealthState =
  rhTarget :: RouteTarget
  rhHealthy :: bool
  rhConsecutiveFail :: int
  rhConsecutiveOK :: int

record RouteHealthChecker =
  rcRoutes :: "ID \<rightharpoonup> routeHealthState"
  rcConfig :: RouteHealthConfig
  rcHasBus :: bool

definition NewRouteHealthChecker :: "RouteHealthConfig \<Rightarrow> bool \<Rightarrow> RouteHealthChecker" where
  "NewRouteHealthChecker config eventBus =
     \<lparr>rcRoutes = Map.empty, rcConfig = config, rcHasBus = eventBus\<rparr>"

text \<open>
  The loop of \<open>UpdateTargets\<close>: a known route keeps its state object, whose
  target is overwritten through the pointer; the old map and the new one share
  that object, so a later target of the same route sees the overwritten one.
\<close>

fun updateTargets_loop ::
  "(ID \<rightharpoonup> routeHealthState) \<Rightarrow> (ID \<rightharpoonup> routeHealthState) \<Rightarrow> RouteTarget list
   \<Rightarrow> (ID \<rightharpoonup> routeHealthState)" where
  "updateTargets_loop old new [] = new"
| "updateTargets_loop old new (t # ts) =
     (case old (rtRouteID t) of
        Some existing \<Rightarrow>
          let existing' = existing\<lparr>rhTarget := t\<rparr>
          in updateTargets_loop (old(rtRouteID t \<mapsto> existing')) (new(rtRouteID t \<mapsto> existing')) ts
      | None \<Rightarrow>
          updateTargets_loop old
            (new(rtRouteID t \<mapsto> \<lparr>rhTarget = t, rhHealthy = True,
                               rhConsecutiveFail = 0, rhConsecutiveOK = 0\<rparr>)) ts)"

definition UpdateTargets :: "RouteTarget list \<Rightarrow> RouteHealthChecker \<Rightarrow> RouteHealthChecker" where
  "UpdateTargets targets c =
     c\<lparr>rcRoutes := updateTargets_loop (rcRoutes c) Map.empty targets\<rparr>"

definition IsRouteHealthy :: "RouteHealthChecker \<Rightarrow> ID \<Rightarrow> bool" where
  "IsRouteHealthy c i = (case rcRoutes c i of Some st \<Rightarrow> rhHealthy st | None \<Rightarrow> False)"

definition route_update :: "RouteHealthConfig \<Rightarrow> routeHealthState \<Rightarrow> bool \<Rightarrow> routeHealthState" where
  "route_update cfg st success =
     (if success then
        let st = st\<lparr>rhConsecutiveOK := rhConsecutiveOK st + 1, rhConsecutiveFail := 0\<rparr>
        in if rhConsecutiveOK st \<ge> rhcHealthyThreshold cfg then st\<lparr>rhHealthy := True\<rparr> else st
      else
        let st = st\<lparr>rhConsecutiveFail := rhConsecutiveFail st + 1, rhConsecutiveOK := 0\<rparr>
        in if rhConsecutiveFail st \<ge> rhcUnhealthyThreshold cfg then st\<lparr>rhHealthy := False\<rparr> else st)"

text \<open>\<open>idString\<close> is the UUID package's rendering of an identifier.\<close>

definition route_markResult ::
  "(ID \<Rightarrow> string) \<Rightarrow> RouteHealthConfig \<Rightarrow> bool \<Rightarrow> routeHealthState \<Rightarrow> bool
   \<Rightarrow> routeHealthState \<times> Event list" where
  "route_markResult idString cfg hasBus st success =
     (let t = rhTarget st;
          wasHealthy = rhHealthy st;
          st' = route_update cfg st success
      in if wasHealthy \<and> \<not> rhHealthy st' then
           (st', publishEvent hasBus
              \<lparr>evType = EvRouteHealthCheckFailed, evSeverity = SeverityCritical,
               evResource = ''route/'' @ idString (rtRouteID t),
               evDetails = [(''route_name'', rtRouteName t), (''gateway_ip'', rtGatewayWGIP t),
                            (''entry_port'', itoa (rtEntryPort t)),
                            (''consecutive_failures'', itoa (rhConsecutiveFail st'))]\<rparr>)
         else if \<not> wasHealthy \<and> rhHealthy st' then
           (st', publishEvent hasBus
              \<lparr>evType = EvRouteHealthCheckRecovered, evSeverity = SeverityInfo,
               evResource = ''route/'' @ idString (rtRouteID t),
               evDetails = [(''route_name'', rtRouteName t), (''gateway_ip'', rtGatewayWGIP t),
                            (''entry_port'', itoa (rtEntryPort t))]\<rparr>)
         else (st', []))"

text \<open>Only TCP routes with a port and a gateway address are probed.\<close>

definition checkRoute ::
  "(ID \<Rightarrow> string) \<Rightarrow> RouteHealthConfig \<Rightarrow> bool \<Rightarrow> (string \<Rightarrow> bool) \<Rightarrow> routeHealthState
   \<Rightarrow> routeHealthState \<times> Event list" where
  "checkRoute idString cfg hasBus dial st =
     (let t = rhTarget st
      in if rtProtocol t \<noteq> RouteProtocolTCP \<or> rtEntryPort t = 0 \<or> rtGatewayWGIP t = '''' then (st, [])
         else route_markResult idString cfg hasBus st
                (dial (JoinHostPort (rtGatewayWGIP t) (itoa (rtEntryPort t)))))"

text \<open>
  \<open>checkAll\<close> snapshots the map and probes each state once, in the order Go
  iterates the map: \<open>order\<close> lists the keys in that order.
\<close>

fun route_checkAll ::
  "(ID \<Rightarrow> string) \<Rightarrow> (string \<Rightarrow> bool) \<Rightarrow> ID list \<Rightarrow> RouteHealthChecker
   \<Rightarrow> RouteHealthChecker \<times> Event list" where
  "route_checkAll idString dial [] c = (c, [])"
| "route_checkAll idString dial (i # order) c =
     (case rcRoutes c i of
        None \<Rightarrow> route_checkAll idString dial order c
      | Some st \<Rightarrow>
          let (st', evs) = checkRoute idString (rcConfig c) (rcHasBus c) dial st;
              (c', evs') = route_checkAll idString dial order
                             (c\<lparr>rcRoutes := (rcRoutes c)(i \<mapsto> st')\<rparr>)
          in (c', evs @ evs'))"

section \<open>Probe histories\<close>

definition trailing :: "bool \<Rightarrow> bool list \<Rightarrow> nat" where
  "trailing b h = length (takeWhile (\<lambda>x. x = b) (rev h))"

text \<open>
  What hysteresis promises of a probe history: the target is down when it
  failed \<open>down\<close> times in a row and has not since then succeeded \<open>up\<close> times in
  a row.
\<close>

definition went_down :: "nat \<Rightarrow> nat \<Rightarrow> bool list \<Rightarrow> bool" where
  "went_down up down h \<longleftrightarrow>
     (\<exists>p q. h = p @ replicate down False @ q \<and> \<not> sublist (replicate up True) q)"

fun alternating :: "'a \<Rightarrow> 'a \<Rightarrow> nat \<Rightarrow> 'a list" where
  "alternating a b 0 = []"
| "alternating a b (Suc n) = a # alternating b a n"

lemma trailing_Nil [simp]: "trailing b [] = 0"
  by (simp add: trailing_def)

lemma trailing_snoc [simp]: "trailing b (h @ [x]) = (if x = b then Suc (trailing b h) else 0)"
  by (simp add: trailing_def)

lemma suffix_replicate_trailing: "suffix (replicate n b) h \<longleftrightarrow> n \<le> trailing b h"
proof (induction h arbitrary: n rule: rev_induct)
  case Nil
  then show ?case by (simp add: suffix_def)
next
  case (snoc x h)
  show ?case
  proof (cases n)
    case (Suc m)
    have "suffix (replicate n b) (h @ [x]) \<longleftrightarrow> suffix (replicate m b @ [b]) (h @ [x])"
      by (simp only: Suc replicate_append_same replicate_Suc)
    also have "\<dots> \<longleftrightarrow> b = x \<and> suffix (replicate m b) h"
      by simp
    finally have "suffix (replicate n b) (h @ [x]) \<longleftrightarrow> b = x \<and> suffix (replicate m b) h" .
    then show ?thesis using snoc Suc by auto
  qed simp
qed

lemma sublist_snoc_iff: "sublist xs (ys @ [y]) \<longleftrightarrow> sublist xs ys \<or> suffix xs (ys @ [y])"
proof -
  have "sublist xs (ys @ [y]) \<longleftrightarrow> sublist (rev xs) (y # rev ys)"
    by (metis rev_append rev_singleton_conv singleton_rev_conv append_Cons append_Nil sublist_rev)
  also have "\<dots> \<longleftrightarrow> prefix (rev xs) (y # rev ys) \<or> sublist (rev xs) (rev ys)"
    by (rule sublist_Cons_right)
  finally show ?thesis by (auto simp: suffix_to_prefix)
qed

lemma alternating_snoc:
  "alternating a b (Suc n) = alternating a b n @ [if even n then a else b]"
  by (induction n arbitrary: a b) auto

lemma length_alternating [simp]: "length (alternating a b n) = n"
  by (induction n arbitrary: a b) auto

text \<open>The flips of a flag along a history, as the new values it takes.\<close>

fun flips :: "('s \<Rightarrow> bool \<Rightarrow> 's) \<Rightarrow> ('s \<Rightarrow> bool) \<Rightarrow> 's \<Rightarrow> bool list \<Rightarrow> bool list" where
  "flips mark flag s [] = []"
| "flips mark flag s (b # bs) =
     (if flag (mark s b) = flag s then [] else [flag (mark s b)]) @ flips mark flag (mark s b) bs"

lemma went_down_Nil: "0 < down \<Longrightarrow> \<not> went_down up down []"
  by (simp add: went_down_def)

lemma went_down_snoc_True:
  assumes "0 < down"
  shows "went_down up down (h @ [True]) \<longleftrightarrow> went_down up down h \<and> Suc (trailing True h) < up"
proof -
  have split: "h @ [True] = p @ replicate down False @ q \<longleftrightarrow>
      (\<exists>q'. q = q' @ [True] \<and> h = p @ replicate down False @ q')" for p q
  proof (cases q rule: rev_exhaust)
    case Nil
    have "last (p @ replicate down False) = False"
      using assms by (simp add: last_append)
    then have "h @ [True] \<noteq> p @ replicate down False"
      by (metis (full_types) last_snoc)
    then show ?thesis using Nil by simp
  qed auto
  have local: "suffix (replicate up True) (q' @ [True]) \<longleftrightarrow> up \<le> Suc (trailing True h)"
    if "h = p @ replicate down False @ q'" for p q'
  proof -
    have "trailing True h = trailing True q'"
      unfolding trailing_def that using assms
      by (simp add: takeWhile_append) (metis length_rev set_rev takeWhile_eq_all_conv)
    then show ?thesis unfolding suffix_replicate_trailing trailing_snoc by simp
  qed
  have snoc: "sublist (replicate up True) (q' @ [True]) \<longleftrightarrow>
      sublist (replicate up True) q' \<or> up \<le> Suc (trailing True h)"
    if "h = p @ replicate down False @ q'" for p q'
    unfolding sublist_snoc_iff local [OF that] ..
  have "went_down up down (h @ [True]) \<longleftrightarrow>
      (\<exists>p q'. h = p @ replicate down False @ q' \<and> \<not> sublist (replicate up True) (q' @ [True]))"
    unfolding went_down_def split by blast
  also have "\<dots> \<longleftrightarrow> (\<exists>p q'. h = p @ replicate down False @ q' \<and>
      \<not> sublist (replicate up True) q' \<and> Suc (trailing True h) < up)"
    using snoc not_le by blast
  finally show ?thesis unfolding went_down_def by blast
qed

lemma went_down_snoc_False:
  assumes "0 < up" "0 < down"
  shows "went_down up down (h @ [False]) \<longleftrightarrow> went_down up down h \<or> down \<le> Suc (trailing False h)"
proof -
  have no_True: "sublist (replicate up True) (q @ [False]) \<longleftrightarrow> sublist (replicate up True) q" for q
    unfolding sublist_snoc_iff suffix_replicate_trailing trailing_snoc using assms(1) by simp
  have "went_down up down (h @ [False]) \<longleftrightarrow>
      (\<exists>p. h @ [False] = p @ replicate down False) \<or> went_down up down h" (is "?l \<longleftrightarrow> ?r")
  proof
    assume ?l
    then obtain p q where pq: "h @ [False] = p @ replicate down False @ q"
      "\<not> sublist (replicate up True) q" unfolding went_down_def by blast
    show ?r
    proof (cases q rule: rev_exhaust)
      case (snoc q' x)
      then show ?thesis using pq no_True unfolding went_down_def by auto
    qed (use pq in auto)
  next
    assume ?r
    then show ?l
    proof
      assume "\<exists>p. h @ [False] = p @ replicate down False"
      then obtain p where "h @ [False] = p @ replicate down False @ []" by auto
      moreover have "\<not> sublist (replicate up True) []" using assms(1) by simp
      ultimately show ?l unfolding went_down_def by blast
    next
      assume "went_down up down h"
      then obtain p q where "h = p @ replicate down False @ q"
        "\<not> sublist (replicate up True) (q @ [False])"
        unfolding went_down_def using no_True by blast
      then have "h @ [False] = p @ replicate down False @ q @ [False] \<and>
          \<not> sublist (replicate up True) (q @ [False])" by simp
      then show ?l unfolding went_down_def by blast
    qed
  qed
  also have "(\<exists>p. h @ [False] = p @ replicate down False) \<longleftrightarrow> down \<le> Suc (trailing False h)"
    using suffix_replicate_trailing [of down False "h @ [False]"]
    unfolding suffix_def trailing_snoc by simp
  finally show ?thesis by blast
qed

section \<open>The contract of the checkers\<close>

locale health_machine =
  fixes mark :: "'s \<Rightarrow> bool \<Rightarrow> 's"
    and flag :: "'s \<Rightarrow> bool"
    and fails :: "'s \<Rightarrow> int"
    and oks :: "'s \<Rightarrow> int"
    and up :: int
    and down :: int
  assumes oks_ok: "oks (mark s True) = oks s + 1"
    and fails_ok: "fails (mark s True) = 0"
    and oks_fail: "oks (mark s False) = 0"
    and fails_fail: "fails (mark s False) = fails s + 1"
    and flag_ok: "flag (mark s True) \<longleftrightarrow> flag s \<or> up \<le> oks s + 1"
    and flag_fail: "flag (mark s False) \<longleftrightarrow> flag s \<and> fails s + 1 < down"
begin

definition fresh :: "'s \<Rightarrow> bool" where
  "fresh s \<longleftrightarrow> flag s \<and> fails s = 0 \<and> oks s = 0"

lemma counters:
  assumes "fresh s"
  shows "oks (foldl mark s h) = int (trailing True h) \<and>
         fails (foldl mark s h) = int (trailing False h)"
proof (induction h rule: rev_induct)
  case Nil
  then show ?case using assms by (simp add: fresh_def)
next
  case (snoc b h)
  then show ?case by (cases b) (simp_all add: oks_ok fails_ok oks_fail fails_fail)
qed

lemma flag_run:
  assumes "fresh s" "1 \<le> up" "1 \<le> down"
  shows "flag (foldl mark s h) \<longleftrightarrow> \<not> went_down (nat up) (nat down) h"
proof (induction h rule: rev_induct)
  case Nil
  then show ?case using assms by (simp add: fresh_def went_down_Nil)
next
  case (snoc b h)
  have up: "up \<le> int (trailing True h) + 1 \<longleftrightarrow> \<not> Suc (trailing True h) < nat up"
    and down: "int (trailing False h) + 1 < down \<longleftrightarrow> \<not> nat down \<le> Suc (trailing False h)"
    using assms by linarith+
  have pos: "0 < nat up" "0 < nat down" using assms by auto
  note c = counters [OF assms(1), of h]
  show ?case
  proof (cases b)
    case True
    then show ?thesis using snoc c up by (simp add: flag_ok went_down_snoc_True [OF pos(2)])
  next
    case False
    then show ?thesis using snoc c down by (simp add: flag_fail went_down_snoc_False [OF pos])
  qed
qed

lemma flag_run_up1:
  assumes "fresh s" "up = 1" "1 \<le> down"
  shows "flag (foldl mark s h) \<longleftrightarrow> int (trailing False h) < down"
proof (induction h rule: rev_induct)
  case Nil
  then show ?case using assms by (simp add: fresh_def)
next
  case (snoc b h)
  then show ?case using assms counters [OF assms(1), of h]
    by (cases b) (auto simp: flag_ok flag_fail)
qed

lemma flips_alternate:
  "\<exists>n. flips mark flag s h = alternating (\<not> flag s) (flag s) n \<and>
       flag (foldl mark s h) = (even n = flag s)"
proof (induction h arbitrary: s)
  case Nil
  show ?case by (rule exI [of _ 0]) simp
next
  case (Cons b h)
  obtain n where n: "flips mark flag (mark s b) h =
      alternating (\<not> flag (mark s b)) (flag (mark s b)) n"
    "flag (foldl mark (mark s b) h) = (even n = flag (mark s b))"
    using Cons by blast
  show ?case
  proof (cases "flag (mark s b) = flag s")
    case True
    then show ?thesis using n by (intro exI [of _ n]) simp
  next
    case False
    then have "flag (mark s b) = (\<not> flag s)" by blast
    then show ?thesis using n by (intro exI [of _ "Suc n"]) auto
  qed
qed

end

section \<open>CDN origins\<close>

text \<open>
  The loop of \<open>Start\<close>: one \<open>checkAll\<close> at once and one per tick until the stop
  channel closes, each against the network of its own moment.
\<close>

fun origin_run ::
  "((string \<Rightarrow> bool) \<times> (string \<Rightarrow> int option)) list \<Rightarrow> originHealth list \<Rightarrow> originHealth list" where
  "origin_run [] hc = hc"
| "origin_run ((newRequest, httpDo) # rounds) hc =
     origin_run rounds (origin_checkAll newRequest httpDo hc)"

definition origin_probe_ok :: "CDNOrigin \<Rightarrow> (string \<Rightarrow> bool) \<times> (string \<Rightarrow> int option) \<Rightarrow> bool" where
  "origin_probe_ok o' net =
     (fst net (origin_check_url o') \<and>
      (case snd net (origin_check_url o') of None \<Rightarrow> False | Some code \<Rightarrow> 200 \<le> code \<and> code < 400))"

interpretation origin_hm: health_machine origin_markResult ohHealthy ohConsecutiveFail ohConsecutiveOK
  healthyThreshold unhealthyThreshold
  by unfold_locales (auto simp: origin_markResult_def Let_def)

lemma checkOrigin_mark:
  "checkOrigin (fst net) (snd net) oh = origin_markResult oh (origin_probe_ok (ohOrigin oh) net)"
  by (auto simp: checkOrigin_def origin_probe_ok_def Let_def split: option.splits)

lemma origin_markResult_origin [simp]: "ohOrigin (origin_markResult oh b) = ohOrigin oh"
  by (simp add: origin_markResult_def Let_def)

lemma origin_run_each:
  "origin_run rounds hc =
     map (\<lambda>oh. foldl origin_markResult oh (map (origin_probe_ok (ohOrigin oh)) rounds)) hc"
proof (induction rounds arbitrary: hc)
  case (Cons r rounds)
  then show ?case
    using checkOrigin_mark [of r] by (cases r) (simp add: origin_checkAll_def)
qed simp

lemma foldl_origin_mark_origin [simp]: "ohOrigin (foldl origin_markResult oh h) = ohOrigin oh"
  by (induction h arbitrary: oh) auto

text \<open>
  C13: after any sequence of probe rounds the origins that receive traffic are,
  in order, exactly the configured origins whose last three probes did not all
  fail.
\<close>

theorem HealthyOrigins_after_probes:
  "HealthyOrigins (origin_run rounds (NewHealthChecker origins)) =
     filter (\<lambda>o'. trailing False (map (origin_probe_ok o') rounds) < 3) origins"
proof -
  have flag: "ohHealthy (foldl origin_markResult oh (map (origin_probe_ok o') rounds)) \<longleftrightarrow>
      trailing False (map (origin_probe_ok o') rounds) < 3"
    if "oh = \<lparr>ohOrigin = o', ohHealthy = True, ohConsecutiveFail = 0, ohConsecutiveOK = 0\<rparr>" for oh o'
    using origin_hm.flag_run_up1 [of oh] that by (simp add: origin_hm.fresh_def)
  show ?thesis
    by (simp add: HealthyOrigins_def origin_run_each NewHealthChecker_def filter_map comp_def flag)
qed

section \<open>Overlay peers\<close>

fun overlay_run ::
  "(string \<Rightarrow> bool) list \<Rightarrow> OverlayHealthChecker \<Rightarrow> OverlayHealthChecker \<times> Event list" where
  "overlay_run [] c = (c, [])"
| "overlay_run (dial # dials) c =
     (let (c', evs) = overlay_checkAll dial c;
          (c'', evs') = overlay_run dials c'
      in (c'', evs @ evs'))"

definition overlay_probe_ok :: "OverlayHealthConfig \<Rightarrow> string \<Rightarrow> (string \<Rightarrow> bool) \<Rightarrow> bool" where
  "overlay_probe_ok cfg ip dial = dial (JoinHostPort ip (itoa (ovProbePort cfg)))"

interpretation overlay_hm: health_machine "overlay_update cfg" opHealthy opConsecutiveFail
  opConsecutiveOK "ovHealthyThreshold cfg" "ovUnhealthyThreshold cfg"
  for cfg
  by unfold_locales (auto simp: overlay_update_def Let_def)

lemma overlay_update_target [simp]: "opTarget (overlay_update cfg p b) = opTarget p"
  by (simp add: overlay_update_def Let_def)

lemma foldl_overlay_update_target [simp]:
  "opTarget (foldl (overlay_update cfg) p h) = opTarget p"
  by (induction h arbitrary: p) auto

lemma fst_overlay_markResult [simp]:
  "fst (overlay_markResult cfg hasBus p b) = overlay_update cfg p b"
  by (simp add: overlay_markResult_def Let_def)

definition flip_events :: "EventType \<Rightarrow> EventType \<Rightarrow> bool list \<Rightarrow> EventType list" where
  "flip_events recovered lost = map (\<lambda>b. if b then recovered else lost)"

lemma snd_overlay_markResult:
  "map evType (snd (overlay_markResult cfg True p b)) =
     flip_events EvOverlayPeerRecovered EvOverlayPeerUnreachable
       (flips (overlay_update cfg) opHealthy p [b])"
  by (auto simp: overlay_markResult_def Let_def publishEvent_def flip_events_def)

lemma overlay_markResult_resource:
  "e \<in> set (snd (overlay_markResult cfg hasBus p b)) \<Longrightarrow> evResource e = ''overlay/'' @ otIP (opTarget p)"
  by (auto simp: overlay_markResult_def Let_def publishEvent_def split: if_splits)

lemma filter_events_of_peer:
  assumes "distinct (map (otIP \<circ> opTarget) ps)" "p \<in> set ps"
  shows "filter (\<lambda>e. evResource e = ''overlay/'' @ otIP (opTarget p))
           (concat (map (\<lambda>p. snd (checkPeer cfg hasBus dial p)) ps)) =
         snd (checkPeer cfg hasBus dial p)"
  using assms
proof (induction ps)
  case (Cons q ps)
  let ?P = "\<lambda>e. evResource e = ''overlay/'' @ otIP (opTarget p)"
  have res: "e \<in> set (snd (checkPeer cfg hasBus dial r)) \<Longrightarrow>
      evResource e = ''overlay/'' @ otIP (opTarget r)" for e r
    by (simp add: checkPeer_def overlay_markResult_resource)
  show ?case
  proof (cases "q = p")
    case True
    have "filter ?P (concat (map (\<lambda>p. snd (checkPeer cfg hasBus dial p)) ps)) = []"
      using Cons.prems(1) True res by (fastforce simp: filter_empty_conv image_iff)
    moreover have "filter ?P (snd (checkPeer cfg hasBus dial p)) = snd (checkPeer cfg hasBus dial p)"
      using res by (simp add: filter_id_conv)
    ultimately show ?thesis using True by simp
  next
    case False
    then have "otIP (opTarget q) \<noteq> otIP (opTarget p)" using Cons.prems by (auto simp: image_iff)
    then have "filter ?P (snd (checkPeer cfg hasBus dial q)) = []"
      using res by (auto simp: filter_empty_conv)
    then show ?thesis using Cons False by simp
  qed
qed simp

lemma flips_append:
  "flips mark flag s (xs @ ys) = flips mark flag s xs @ flips mark flag (foldl mark s xs) ys"
  by (induction xs arbitrary: s) auto

lemma overlay_run_peer:
  assumes "distinct (map (otIP \<circ> opTarget) (ocPeers c))" "p \<in> set (ocPeers c)" "ocHasBus c"
  shows "foldl (overlay_update (ocConfig c)) p (map (overlay_probe_ok (ocConfig c) (otIP (opTarget p))) dials)
           \<in> set (ocPeers (fst (overlay_run dials c))) \<and>
         map (otIP \<circ> opTarget) (ocPeers (fst (overlay_run dials c))) =
           map (otIP \<circ> opTarget) (ocPeers c) \<and>
         map evType (filter (\<lambda>e. evResource e = ''overlay/'' @ otIP (opTarget p)) (snd (overlay_run dials c))) =
           flip_events EvOverlayPeerRecovered EvOverlayPeerUnreachable
             (flips (overlay_update (ocConfig c)) opHealthy p
               (map (overlay_probe_ok (ocConfig c) (otIP (opTarget p))) dials))"
  using assms
proof (induction dials arbitrary: c p)
  case Nil
  then show ?case by (simp add: flip_events_def)
next
  case (Cons dial dials)
  let ?cfg = "ocConfig c" and ?ip = "otIP (opTarget p)"
  define p' where "p' = overlay_update ?cfg p (overlay_probe_ok ?cfg ?ip dial)"
  define c' where "c' = fst (overlay_checkAll dial c)"
  have fst_check: "fst (checkPeer ?cfg h dial q) = overlay_update ?cfg q
      (overlay_probe_ok ?cfg (otIP (opTarget q)) dial)" for h q
    by (simp add: checkPeer_def overlay_probe_ok_def)
  have c': "ocPeers c' = map (\<lambda>q. overlay_update ?cfg q
      (overlay_probe_ok ?cfg (otIP (opTarget q)) dial)) (ocPeers c)"
      "ocConfig c' = ?cfg" "ocHasBus c'"
    using Cons.prems(3) by (simp_all add: c'_def overlay_checkAll_def Let_def comp_def fst_check)
  have evs: "map evType (filter (\<lambda>e. evResource e = ''overlay/'' @ ?ip) (snd (overlay_checkAll dial c)))
      = flip_events EvOverlayPeerRecovered EvOverlayPeerUnreachable
          (flips (overlay_update ?cfg) opHealthy p [overlay_probe_ok ?cfg ?ip dial])"
  proof -
    have "snd (overlay_checkAll dial c) =
        concat (map (\<lambda>q. snd (checkPeer ?cfg True dial q)) (ocPeers c))"
      using Cons.prems(3) by (simp add: overlay_checkAll_def Let_def comp_def)
    then show ?thesis
      by (simp only: filter_events_of_peer [OF Cons.prems(1,2)])
        (simp only: checkPeer_def overlay_probe_ok_def snd_overlay_markResult)
  qed
  have "distinct (map (otIP \<circ> opTarget) (ocPeers c'))" "p' \<in> set (ocPeers c')"
    using Cons.prems c' by (auto simp: p'_def comp_def)
  note IH = Cons.IH [OF this c'(3)]
  have run: "overlay_run (dial # dials) c = (fst (overlay_run dials c'),
      snd (overlay_checkAll dial c) @ snd (overlay_run dials c'))"
    by (simp add: c'_def split: prod.split)
  have flips: "flips (overlay_update ?cfg) opHealthy p
        (map (overlay_probe_ok ?cfg ?ip) (dial # dials)) =
      flips (overlay_update ?cfg) opHealthy p [overlay_probe_ok ?cfg ?ip dial] @
      flips (overlay_update ?cfg) opHealthy p' (map (overlay_probe_ok ?cfg ?ip) dials)"
    by (simp add: p'_def)
  show ?case
    using IH evs unfolding run flips
    by (simp add: c' p'_def comp_def flip_events_def)
qed

lemma find_distinct_key:
  "distinct (map k xs) \<Longrightarrow> x \<in> set xs \<Longrightarrow> find (\<lambda>y. k y = k x) xs = Some x"
  by (induction xs) (auto simp: image_iff)

text \<open>
  C20: a monitored overlay peer is reported healthy exactly when it has not
  failed \<open>UnhealthyThreshold\<close> probes in a row without \<open>HealthyThreshold\<close>
  successes in a row since; and the events published about it strictly
  alternate between \<open>OverlayPeerUnreachable\<close> and \<open>OverlayPeerRecovered\<close>,
  starting with the former, the last one agreeing with the reported state.
\<close>

theorem overlay_health_and_events:
  assumes "distinct (map otIP targets)" "t \<in> set targets"
    and "1 \<le> ovHealthyThreshold cfg" "1 \<le> ovUnhealthyThreshold cfg"
    and "overlay_run dials (NewOverlayHealthChecker targets cfg True) = (c, evs)"
  shows "(IsHealthy c (otIP t) \<longleftrightarrow>
            \<not> went_down (nat (ovHealthyThreshold cfg)) (nat (ovUnhealthyThreshold cfg))
                (map (overlay_probe_ok cfg (otIP t)) dials)) \<and>
         (\<exists>n. map evType (filter (\<lambda>e. evResource e = ''overlay/'' @ otIP t) evs) =
                alternating EvOverlayPeerUnreachable EvOverlayPeerRecovered n \<and>
              (IsHealthy c (otIP t) \<longleftrightarrow> even n))"
proof -
  define p where
    "p = \<lparr>opTarget = t, opHealthy = True, opConsecutiveFail = 0, opConsecutiveOK = 0\<rparr>"
  define c0 where "c0 = NewOverlayHealthChecker targets cfg True"
  let ?h = "map (overlay_probe_ok cfg (otIP t)) dials"
  let ?q = "foldl (overlay_update cfg) p ?h"
  have c0: "distinct (map (otIP \<circ> opTarget) (ocPeers c0))" "p \<in> set (ocPeers c0)" "ocHasBus c0"
    "ocConfig c0 = cfg" "opTarget p = t"
    using assms(1,2) by (auto simp: c0_def p_def NewOverlayHealthChecker_def comp_def)
  note run = overlay_run_peer [OF c0(1-3), of dials, unfolded c0(4,5), folded c0_def]
  have q: "?q \<in> set (ocPeers c)" "distinct (map (otIP \<circ> opTarget) (ocPeers c))"
    using run c0(1) assms(5) by (auto simp: c0_def)
  then have "find (\<lambda>p. otIP (opTarget p) = otIP t) (ocPeers c) = Some ?q"
    using find_distinct_key [OF q(2,1)] by (simp add: c0(5))
  then have healthy: "IsHealthy c (otIP t) = opHealthy ?q"
    by (simp add: IsHealthy_def)
  have fresh: "overlay_hm.fresh p" by (simp add: overlay_hm.fresh_def p_def)
  obtain n where n: "flips (overlay_update cfg) opHealthy p ?h = alternating False True n"
      "opHealthy ?q = even n"
    using overlay_hm.flips_alternate [of cfg p ?h] by (auto simp: p_def)
  have "flip_events EvOverlayPeerRecovered EvOverlayPeerUnreachable (alternating False True n) =
      alternating EvOverlayPeerUnreachable EvOverlayPeerRecovered n"
    and "flip_events EvOverlayPeerRecovered EvOverlayPeerUnreachable (alternating True False n) =
      alternating EvOverlayPeerRecovered EvOverlayPeerUnreachable n"
    by (induction n) (auto simp: flip_events_def)
  then show ?thesis
    using run n healthy overlay_hm.flag_run [OF fresh assms(3,4), of ?h] assms(5)
    by (auto simp: c0_def)
qed

theorem overlay_health_and_events_witness:
  "let run = overlay_run [\<lambda>_. False, \<lambda>_. False, \<lambda>_. False]
               (NewOverlayHealthChecker [\<lparr>otName = ''controller'', otIP = ''10.100.0.1''\<rparr>]
                  DefaultOverlayHealthConfig True)
   in \<not> IsHealthy (fst run) ''10.100.0.1'' \<and>
      (\<exists>n. map evType (filter (\<lambda>e. evResource e = ''overlay/'' @ ''10.100.0.1'') (snd run)) =
             alternating EvOverlayPeerUnreachable EvOverlayPeerRecovered n \<and> odd n)"
proof -
  let ?t = "\<lparr>otName = ''controller'', otIP = ''10.100.0.1''\<rparr>"
  let ?run = "overlay_run [\<lambda>_. False, \<lambda>_. False, \<lambda>_. False]
               (NewOverlayHealthChecker [?t] DefaultOverlayHealthConfig True)"
  have down: "\<not> IsHealthy (fst ?run) ''10.100.0.1''"
    by (simp add: NewOverlayHealthChecker_def DefaultOverlayHealthConfig_def overlay_checkAll_def
        checkPeer_def overlay_markResult_def overlay_update_def IsHealthy_def Let_def)
  show ?thesis
    using down overlay_health_and_events [of "[?t]" ?t DefaultOverlayHealthConfig
        "[\<lambda>_. False, \<lambda>_. False, \<lambda>_. False]" "fst ?run" "snd ?run"]
    unfolding Let_def by (simp add: DefaultOverlayHealthConfig_def)
qed

section \<open>Routes\<close>

interpretation route_hm: health_machine "route_update cfg" rhHealthy rhConsecutiveFail
  rhConsecutiveOK "rhcHealthyThreshold cfg" "rhcUnhealthyThreshold cfg"
  for cfg
  by unfold_locales (auto simp: route_update_def Let_def)

definition probed :: "RouteTarget \<Rightarrow> bool" where
  "probed t \<longleftrightarrow> rtProtocol t = RouteProtocolTCP \<and> rtEntryPort t \<noteq> 0 \<and> rtGatewayWGIP t \<noteq> ''''"

definition route_probe_ok :: "RouteTarget \<Rightarrow> (string \<Rightarrow> bool) \<Rightarrow> bool" where
  "route_probe_ok t dial = dial (JoinHostPort (rtGatewayWGIP t) (itoa (rtEntryPort t)))"

text \<open>The loop of \<open>Start\<close>; each round has its iteration order and its network.\<close>

fun route_run ::
  "(ID \<Rightarrow> string) \<Rightarrow> (ID list \<times> (string \<Rightarrow> bool)) list \<Rightarrow> RouteHealthChecker
   \<Rightarrow> RouteHealthChecker \<times> Event list" where
  "route_run idString [] c = (c, [])"
| "route_run idString ((order, dial) # rounds) c =
     (let (c', evs) = route_checkAll idString dial order c;
          (c'', evs') = route_run idString rounds c'
      in (c'', evs @ evs'))"

definition fresh_route :: "RouteTarget \<Rightarrow> routeHealthState" where
  "fresh_route t = \<lparr>rhTarget = t, rhHealthy = True, rhConsecutiveFail = 0, rhConsecutiveOK = 0\<rparr>"

lemma route_update_target [simp]: "rhTarget (route_update cfg st b) = rhTarget st"
  by (simp add: route_update_def Let_def)

lemma fst_checkRoute:
  "fst (checkRoute idString cfg hasBus dial st) =
     (if probed (rhTarget st) then route_update cfg st (route_probe_ok (rhTarget st) dial) else st)"
  by (auto simp: checkRoute_def probed_def route_probe_ok_def route_markResult_def Let_def)

lemma updateTargets_loop_lookup:
  assumes "distinct (map rtRouteID ts)"
  shows "updateTargets_loop old new ts i =
    (case find (\<lambda>t. rtRouteID t = i) ts of
       None \<Rightarrow> new i
     | Some t \<Rightarrow> Some (case old i of Some st \<Rightarrow> st\<lparr>rhTarget := t\<rparr> | None \<Rightarrow> fresh_route t))"
  using assms
proof (induction ts arbitrary: old new)
  case (Cons t ts)
  have none: "find (\<lambda>u. rtRouteID u = rtRouteID t) ts = None"
    using Cons.prems by (simp add: find_None_iff) (metis image_eqI)
  have IH: "updateTargets_loop old' new' ts i =
    (case find (\<lambda>t. rtRouteID t = i) ts of
       None \<Rightarrow> new' i
     | Some t \<Rightarrow> Some (case old' i of Some st \<Rightarrow> st\<lparr>rhTarget := t\<rparr> | None \<Rightarrow> fresh_route t))" for old' new'
    using Cons by simp
  show ?case
    by (cases "old (rtRouteID t)"; cases "rtRouteID t = i")
      (use none in \<open>simp_all add: IH Let_def fresh_route_def split: option.split\<close>)
qed simp

lemma fst_route_checkAll_Cons:
  "fst (route_checkAll idString dial (i # order) c) =
     fst (route_checkAll idString dial order
       (case rcRoutes c i of None \<Rightarrow> c
        | Some st \<Rightarrow> c\<lparr>rcRoutes := (rcRoutes c)
            (i \<mapsto> fst (checkRoute idString (rcConfig c) (rcHasBus c) dial st))\<rparr>))"
  by (simp add: Let_def split: option.split prod.split)

lemma route_checkAll_lookup:
  assumes "distinct order"
  shows "rcRoutes (fst (route_checkAll idString dial order c)) i =
    (if i \<in> set order
     then map_option (\<lambda>st. fst (checkRoute idString (rcConfig c) (rcHasBus c) dial st)) (rcRoutes c i)
     else rcRoutes c i) \<and>
    rcConfig (fst (route_checkAll idString dial order c)) = rcConfig c"
  using assms
  by (induction order arbitrary: c)
    (auto simp: fst_route_checkAll_Cons simp del: route_checkAll.simps(2) split: option.splits)

text \<open>
  Replacing the monitored routes keeps the health state of every route
  that stays, starts every new route as healthy with zero counters, and drops
  every other route.
\<close>

theorem UpdateTargets_keeps_health:
  assumes "distinct (map rtRouteID targets)"
  shows "rcRoutes (UpdateTargets targets c) i =
    (case find (\<lambda>t. rtRouteID t = i) targets of
       None \<Rightarrow> None
     | Some t \<Rightarrow> Some (case rcRoutes c i of
         Some st \<Rightarrow> st\<lparr>rhTarget := t\<rparr>
       | None \<Rightarrow> \<lparr>rhTarget = t, rhHealthy = True, rhConsecutiveFail = 0, rhConsecutiveOK = 0\<rparr>))"
  using updateTargets_loop_lookup [OF assms, of "rcRoutes c" Map.empty i]
  by (simp add: UpdateTargets_def fresh_route_def cong: option.case_cong)

theorem UpdateTargets_keeps_health_witness:
  "let t = \<lparr>rtRouteID = 7, rtRouteName = ''web'', rtProtocol = RouteProtocolTCP,
            rtGatewayWGIP = ''10.100.0.9'', rtEntryPort = 443\<rparr>;
       st = \<lparr>rhTarget = t\<lparr>rtEntryPort := 80\<rparr>, rhHealthy = False,
             rhConsecutiveFail = 4, rhConsecutiveOK = 0\<rparr>;
       c = (NewRouteHealthChecker DefaultRouteHealthConfig True)\<lparr>rcRoutes := [7 \<mapsto> st, 8 \<mapsto> st]\<rparr>
   in rcRoutes (UpdateTargets [t] c) 7 = Some (st\<lparr>rhTarget := t\<rparr>) \<and>
      rcRoutes (UpdateTargets [t] c) 8 = None"
  unfolding Let_def by (subst UpdateTargets_keeps_health, simp)+ simp

lemma route_run_lookup:
  assumes "\<forall>r \<in> set rounds. distinct (fst r) \<and> i \<in> set (fst r)"
    and "rcRoutes c i = Some st"
  shows "rcRoutes (fst (route_run idString rounds c)) i =
    Some (if probed (rhTarget st)
          then foldl (route_update (rcConfig c)) st (map (route_probe_ok (rhTarget st) \<circ> snd) rounds)
          else st)"
  using assms
proof (induction rounds arbitrary: c st)
  case (Cons r rounds)
  obtain order dial where r: "r = (order, dial)" by (cases r)
  let ?c = "fst (route_checkAll idString dial order c)"
  have step: "rcRoutes ?c i =
      Some (fst (checkRoute idString (rcConfig c) (rcHasBus c) dial st))" "rcConfig ?c = rcConfig c"
    using Cons.prems r route_checkAll_lookup [of order idString dial c i] by auto
  have "fst (route_run idString (r # rounds) c) = fst (route_run idString rounds ?c)"
    by (simp add: r Let_def split: prod.split)
  then show ?case
    using Cons.IH [OF _ step(1)] Cons.prems(1) step(2) r
    by (simp add: fst_checkRoute)
qed simp



end
