(* ===== verification/EF_Cache.thy ===== *)
theory EF_Cache
  imports EF_Prelude "HOL-Library.AList" "HOL-Library.List_Lexorder" "HOL-Library.Char_ord"
begin

text \<open>
  The in-memory response cache of \<open>cdnserver/cache.go\<close>: a map from keys to
  entries and a doubly linked list of the same entries in order of use.

  The entries live in an explicit heap (\<open>cHeap\<close>, addressed by natural numbers;
  \<open>None\<close> is \<open>nil\<close>), because the list is built by pointer updates and because
  \<open>Get\<close> returns a pointer into the cache.  The Go map is an association list
  with distinct keys.  The relation \<open>represents c xs\<close> says that the heap holds a
  well-formed doubly linked list of exactly the mapped entries and that \<open>xs\<close>
  are their contents in list order; the refinement theorems state that the
  pointer code implements the LRU operations \<open>lru_get\<close> and \<open>lru_put\<close> on \<open>xs\<close>.

  The callback \<open>OnEvict\<close> never touches the cache that calls it, so \<open>Put\<close>
  returns the evicted entries in order and the owner applies the callback.
\<close>

section \<open>Headers\<close>

text \<open>An \<open>http.Header\<close>, its keys in canonical form.\<close>

type_synonym Header = "(string \<times> string list) list"

definition Header_Get :: "Header \<Rightarrow> string \<Rightarrow> string" where
  "Header_Get h k = (case map_of h k of Some (v # vs) \<Rightarrow> v | _ \<Rightarrow> '''')"

definition shouldSkipCache :: "Header \<Rightarrow> bool" where
  "shouldSkipCache headers =
     (let cc = Header_Get headers ''Cache-Control''
      in if cc = '''' then False
         else let ccLower = ToLower cc
              in Contains ccLower ''no-store'' \<or> Contains ccLower ''no-cache'')"

section \<open>Entries and the cache\<close>

type_synonym ref = nat

record cacheEntry =
  ceBody :: string
  ceStatusCode :: int
  ceHeaders :: Header
  ceStoredAt :: Time
  ceTTL :: Duration
  cePrev :: "ref option"
  ceNext :: "ref option"
  ceKey :: string

definition expired :: "Time \<Rightarrow> cacheEntry \<Rightarrow> bool" where
  "expired now e = (if ceTTL e \<le> 0 then False else now - ceStoredAt e > ceTTL e)"

record Cache =
  cEntries :: "(string \<times> ref) list"
  cMaxEntries :: int
  cHead :: "ref option"
  cTail :: "ref option"
  cHits :: "64 word"
  cMisses :: "64 word"
  cHeap :: "ref \<rightharpoonup> cacheEntry"
  cFresh :: ref

definition NewCache :: "int \<Rightarrow> Cache" where
  "NewCache maxEntries =
     \<lparr>cEntries = [], cMaxEntries = (if maxEntries \<le> 0 then 10000 else maxEntries),
      cHead = None, cTail = None, cHits = 0, cMisses = 0, cHeap = Map.empty, cFresh = 0\<rparr>"

definition CacheKey :: "string \<Rightarrow> string \<Rightarrow> string \<Rightarrow> string \<Rightarrow> string" where
  "CacheKey method host path rawQuery =
     method @ ''|'' @ host @ ''|'' @ path @
     (if rawQuery \<noteq> '''' then ''?'' @ Join (sort (Split rawQuery CHR ''&'')) ''&'' else '''')"

section \<open>The linked list\<close>

text \<open>\<open>*r\<close> and a write through \<open>r\<close>.\<close>

definition deref :: "Cache \<Rightarrow> ref \<Rightarrow> cacheEntry" where
  "deref c r = the (cHeap c r)"

definition store :: "ref \<Rightarrow> (cacheEntry \<Rightarrow> cacheEntry) \<Rightarrow> Cache \<Rightarrow> Cache" where
  "store r f c = c\<lparr>cHeap := (cHeap c)(r := map_option f (cHeap c r))\<rparr>"

definition addToHead :: "ref \<Rightarrow> Cache \<Rightarrow> Cache" where
  "addToHead entry c =
     (let c = store entry (\<lambda>e. e\<lparr>cePrev := None\<rparr>) c;
          c = store entry (\<lambda>e. e\<lparr>ceNext := cHead c\<rparr>) c;
          c = (case cHead c of Some h \<Rightarrow> store h (\<lambda>e. e\<lparr>cePrev := Some entry\<rparr>) c | None \<Rightarrow> c);
          c = c\<lparr>cHead := Some entry\<rparr>
      in if cTail c = None then c\<lparr>cTail := Some entry\<rparr> else c)"

definition unlinkEntry :: "ref \<Rightarrow> Cache \<Rightarrow> Cache" where
  "unlinkEntry entry c =
     (let c = (case cePrev (deref c entry) of
                 Some p \<Rightarrow> store p (\<lambda>e. e\<lparr>ceNext := ceNext (deref c entry)\<rparr>) c
               | None \<Rightarrow> c\<lparr>cHead := ceNext (deref c entry)\<rparr>);
          c = (case ceNext (deref c entry) of
                 Some n \<Rightarrow> store n (\<lambda>e. e\<lparr>cePrev := cePrev (deref c entry)\<rparr>) c
               | None \<Rightarrow> c\<lparr>cTail := cePrev (deref c entry)\<rparr>);
          c = store entry (\<lambda>e. e\<lparr>cePrev := None\<rparr>) c
      in store entry (\<lambda>e. e\<lparr>ceNext := None\<rparr>) c)"

definition removeEntry :: "ref \<Rightarrow> Cache \<Rightarrow> Cache" where
  "removeEntry entry c =
     (let c = c\<lparr>cEntries := AList.delete (ceKey (deref c entry)) (cEntries c)\<rparr>
      in unlinkEntry entry c)"

definition moveToHead :: "ref \<Rightarrow> Cache \<Rightarrow> Cache" where
  "moveToHead entry c =
     (if cHead c = Some entry then c else addToHead entry (unlinkEntry entry c))"

text \<open>\<open>evictTail\<close> returns the evicted entry for the callback.\<close>

definition evictTail :: "Cache \<Rightarrow> cacheEntry list \<times> Cache" where
  "evictTail c =
     (case cTail c of
        None \<Rightarrow> ([], c)
      | Some evicted \<Rightarrow> (let c = removeEntry evicted c in ([deref c evicted], c)))"

text \<open>
  The loop \<open>for len(c.entries) >= c.maxEntries { c.evictTail() }\<close>.  It may run
  forever on an inconsistent cache; then the value is \<open>None\<close>.
\<close>

partial_function (option) evict_loop :: "cacheEntry list \<Rightarrow> Cache \<Rightarrow> (cacheEntry list \<times> Cache) option"
where
  "evict_loop acc c =
     (if int (length (cEntries c)) \<ge> cMaxEntries c
      then (let (ev, c') = evictTail c in evict_loop (acc @ ev) c')
      else Some (acc, c))"

section \<open>Operations\<close>

definition Cache_Get :: "Time \<Rightarrow> string \<Rightarrow> Cache \<Rightarrow> ref option \<times> Cache" where
  "Cache_Get now key c =
     (case map_of (cEntries c) key of
        None \<Rightarrow> (None, c\<lparr>cMisses := cMisses c + 1\<rparr>)
      | Some entry \<Rightarrow>
          if expired now (deref c entry) then
            (let c = removeEntry entry c in (None, c\<lparr>cMisses := cMisses c + 1\<rparr>))
          else
            (let c = moveToHead entry c in (Some entry, c\<lparr>cHits := cHits c + 1\<rparr>)))"

definition Cache_Put ::
  "Time \<Rightarrow> string \<Rightarrow> string \<Rightarrow> int \<Rightarrow> Header \<Rightarrow> Duration \<Rightarrow> Cache \<Rightarrow> (cacheEntry list \<times> Cache) option" where
  "Cache_Put now key body statusCode headers ttl c =
     (if shouldSkipCache headers then Some ([], c)
      else if statusCode < 200 \<or> statusCode \<ge> 300 then Some ([], c)
      else (case map_of (cEntries c) key of
        Some existing \<Rightarrow>
          (let c = store existing (\<lambda>e. e\<lparr>ceBody := body, ceStatusCode := statusCode,
                     ceHeaders := headers, ceStoredAt := now, ceTTL := ttl\<rparr>) c
           in Some ([], moveToHead existing c))
      | None \<Rightarrow>
          (case evict_loop [] c of
             None \<Rightarrow> None
           | Some (evicted, c) \<Rightarrow>
               (let entry = cFresh c;
                    c = c\<lparr>cFresh := Suc entry,
                          cHeap := (cHeap c)(entry \<mapsto>
                            \<lparr>ceBody = body, ceStatusCode = statusCode, ceHeaders = headers,
                             ceStoredAt = now, ceTTL = ttl, cePrev = None, ceNext = None,
                             ceKey = key\<rparr>)\<rparr>;
                    c = c\<lparr>cEntries := AList.update key entry (cEntries c)\<rparr>
                in Some (evicted, addToHead entry c)))))"

definition Cache_Purge :: "Cache \<Rightarrow> Cache" where
  "Cache_Purge c = c\<lparr>cEntries := [], cHead := None, cTail := None\<rparr>"

definition Cache_Len :: "Cache \<Rightarrow> int" where
  "Cache_Len c = int (length (cEntries c))"

definition Cache_Stats :: "Cache \<Rightarrow> 64 word \<times> 64 word" where
  "Cache_Stats c = (cHits c, cMisses c)"

section \<open>Well-formed lists in the heap\<close>

text \<open>
  \<open>dllseg h p s rs q e\<close>: starting at \<open>s\<close> whose predecessor is \<open>p\<close>, the heap
  links the references \<open>rs\<close>; the last one is \<open>q\<close> and its successor is \<open>e\<close>.
\<close>

fun dllseg ::
  "(ref \<rightharpoonup> cacheEntry) \<Rightarrow> ref option \<Rightarrow> ref option \<Rightarrow> ref list \<Rightarrow> ref option \<Rightarrow> ref option \<Rightarrow> bool"
where
  "dllseg h p s [] q e \<longleftrightarrow> p = q \<and> s = e"
| "dllseg h p s (r # rs) q e \<longleftrightarrow> s = Some r \<and>
     (case h r of None \<Rightarrow> False | Some c \<Rightarrow> cePrev c = p \<and> dllseg h (Some r) (ceNext c) rs q e)"

definition linked :: "Cache \<Rightarrow> ref list \<Rightarrow> bool" where
  "linked c ps \<longleftrightarrow> distinct ps \<and> dllseg (cHeap c) None (cHead c) ps (cTail c) None"

definition erase :: "cacheEntry \<Rightarrow> cacheEntry" where
  "erase e = e\<lparr>cePrev := None, ceNext := None\<rparr>"

lemma erase_simps [simp]:
  "ceKey (erase e) = ceKey e" "ceBody (erase e) = ceBody e" "ceTTL (erase e) = ceTTL e"
  "ceStoredAt (erase e) = ceStoredAt e" "ceHeaders (erase e) = ceHeaders e"
  "ceStatusCode (erase e) = ceStatusCode e" "erase (erase e) = erase e"
  "erase (e\<lparr>cePrev := a\<rparr>) = erase e" "erase (e\<lparr>ceNext := b\<rparr>) = erase e"
  by (simp_all add: erase_def)

lemma erase_id: "cePrev e = None \<Longrightarrow> ceNext e = None \<Longrightarrow> erase e = e"
  by (cases e) (simp add: erase_def)

lemma expired_erase [simp]: "expired now (erase e) = expired now e"
  by (simp add: expired_def)

lemma dllseg_append:
  "dllseg h p s (xs @ ys) q e \<longleftrightarrow> (\<exists>m n. dllseg h p s xs m n \<and> dllseg h m n ys q e)"
  by (induction xs arbitrary: p s) (auto split: option.splits)

lemma dllseg_frame [simp]:
  "r \<notin> set rs \<Longrightarrow> dllseg (h(r := x)) p s rs q e = dllseg h p s rs q e"
  by (induction rs arbitrary: p s) (auto split: option.splits)

lemma dllseg_dom: "dllseg h p s rs q e \<Longrightarrow> r \<in> set rs \<Longrightarrow> h r \<noteq> None"
  by (induction rs arbitrary: p s) (auto split: option.splits)

lemma dllseg_tail:
  "dllseg h p s rs q None \<Longrightarrow> rs \<noteq> [] \<Longrightarrow> q = Some (last rs)"
proof (induction rs arbitrary: p s)
  case (Cons r rs)
  then show ?case by (cases rs) (auto split: option.splits)
qed simp

lemma dllseg_Some_None [simp]: "\<not> dllseg h (Some p) s rs None e"
  by (induction rs arbitrary: p s) (auto split: option.splits)

lemma store_simps [simp]:
  "cEntries (store r f c) = cEntries c" "cMaxEntries (store r f c) = cMaxEntries c"
  "cHead (store r f c) = cHead c" "cTail (store r f c) = cTail c"
  "cHits (store r f c) = cHits c" "cMisses (store r f c) = cMisses c"
  "cFresh (store r f c) = cFresh c"
  "cHeap (store r f c) = (cHeap c)(r := map_option f (cHeap c r))"
  by (simp_all add: store_def)

lemma erase_deref_store [simp]:
  assumes "\<And>e. erase (f e) = erase e"
  shows "erase (deref (store r f c) r') = erase (deref c r')"
  using assms by (cases "cHeap c r") (auto simp: deref_def)

text \<open>What a list operation may change: links, never contents, map or counters.\<close>

definition same_contents :: "Cache \<Rightarrow> Cache \<Rightarrow> bool" where
  "same_contents c c' \<longleftrightarrow>
     cEntries c' = cEntries c \<and> cMaxEntries c' = cMaxEntries c \<and> cHits c' = cHits c \<and>
     cMisses c' = cMisses c \<and> cFresh c' = cFresh c \<and> dom (cHeap c') = dom (cHeap c) \<and>
     (\<forall>r. erase (deref c' r) = erase (deref c r))"

lemma same_contents_refl [simp]: "same_contents c c"
  by (simp add: same_contents_def)

lemma same_contents_trans: "same_contents a b \<Longrightarrow> same_contents b c \<Longrightarrow> same_contents a c"
  by (simp add: same_contents_def)

lemma dom_store_heap [simp]: "dom (h(r := map_option f (h r))) = dom h"
  by (auto simp: dom_def)

lemma same_contents_store [simp]:
  "(\<And>e. erase (f e) = erase e) \<Longrightarrow> same_contents c (store r f d) = same_contents c d"
  by (simp add: same_contents_def del: dom_fun_upd)

lemma same_contents_ends [simp]:
  "same_contents c (d\<lparr>cHead := a\<rparr>) = same_contents c d"
  "same_contents c (d\<lparr>cTail := b\<rparr>) = same_contents c d"
  by (simp_all add: same_contents_def deref_def)

lemma same_contents_addToHead: "same_contents c (addToHead r c)"
  by (simp add: addToHead_def Let_def split: option.split)

lemma same_contents_unlinkEntry: "same_contents c (unlinkEntry r c)"
  by (simp add: unlinkEntry_def Let_def split: option.split)

lemma same_contents_moveToHead: "same_contents c (moveToHead r c)"
  unfolding moveToHead_def
  using same_contents_trans [OF same_contents_unlinkEntry same_contents_addToHead] by simp

lemma linked_addToHead:
  assumes "linked c ps" "r \<notin> set ps" "cHeap c r \<noteq> None"
  shows "linked (addToHead r c) (r # ps)"
proof (cases ps)
  case Nil
  then show ?thesis using assms by (auto simp: linked_def addToHead_def Let_def)
next
  case (Cons q qs)
  then show ?thesis using assms
    by (auto simp: linked_def addToHead_def Let_def split: option.splits dest: dllseg_tail)
qed

lemma dllseg_snoc:
  "dllseg h p s (xs @ [x]) q e \<longleftrightarrow>
     (\<exists>m. dllseg h p s xs m (Some x) \<and> q = Some x \<and>
          (case h x of None \<Rightarrow> False | Some c \<Rightarrow> cePrev c = m \<and> ceNext c = e))"
  by (auto simp: dllseg_append split: option.splits)

lemma linked_unlinkEntry:
  assumes "linked c (as @ r # bs)"
  shows "linked (unlinkEntry r c) (as @ bs)"
proof -
  obtain m e where e: "cHeap c r = Some e" "dllseg (cHeap c) None (cHead c) as m (Some r)"
      "cePrev e = m" "dllseg (cHeap c) (Some r) (ceNext e) bs (cTail c) None"
    and d: "distinct (as @ r # bs)"
    using assms by (auto simp: linked_def dllseg_append split: option.splits)
  show ?thesis
  proof (cases as rule: rev_exhaust)
    case Nil
    show ?thesis
    proof (cases bs)
      case bs: (Cons n bs')
      then show ?thesis using e d Nil
        by (auto simp: linked_def unlinkEntry_def Let_def deref_def split: option.splits)
    qed (use e d Nil in \<open>auto simp: linked_def unlinkEntry_def Let_def deref_def\<close>)
  next
    case (snoc as' p)
    then obtain pe m' where p: "cHeap c p = Some pe" "m = Some p" "ceNext pe = Some r"
        "cePrev pe = m'" "dllseg (cHeap c) None (cHead c) as' m' (Some p)"
      using e(2) by (auto simp: dllseg_snoc split: option.splits)
    have ne: "p \<noteq> r" "p \<notin> set as'" "r \<notin> set as'" "p \<notin> set bs" "r \<notin> set bs"
      and das: "distinct (as' @ p # bs)"
      using d snoc by auto
    show ?thesis
    proof (cases bs)
      case Nil
      have "linked (unlinkEntry r c) (as' @ [p])"
        unfolding linked_def dllseg_snoc using e p ne das Nil
        by (simp add: unlinkEntry_def Let_def deref_def)
      then show ?thesis using snoc Nil by simp
    next
      case bs: (Cons n bs')
      then obtain ne' where n: "cHeap c n = Some ne'" "cePrev ne' = Some r" "ceNext e = Some n"
          "dllseg (cHeap c) (Some n) (ceNext ne') bs' (cTail c) None"
        using e(4) by (auto split: option.splits)
      have "linked (unlinkEntry r c) (as' @ p # n # bs')"
        unfolding linked_def dllseg_append using e p n ne das bs
        by (auto simp: unlinkEntry_def Let_def deref_def)
      then show ?thesis using snoc bs by simp
    qed
  qed
qed

section \<open>The abstract LRU cache\<close>

text \<open>
  The specification: the live entries, most recently used first.  A lookup
  drops an expired entry and moves a live one to the front; a store replaces
  the entry of its key or, when the cache is full, evicts from the back.
\<close>

definition lru_remove :: "string \<Rightarrow> cacheEntry list \<Rightarrow> cacheEntry list" where
  "lru_remove key xs = filter (\<lambda>e. ceKey e \<noteq> key) xs"

definition lru_get :: "Time \<Rightarrow> string \<Rightarrow> cacheEntry list \<Rightarrow> cacheEntry option \<times> cacheEntry list" where
  "lru_get now key xs =
     (case find (\<lambda>e. ceKey e = key) xs of
        None \<Rightarrow> (None, xs)
      | Some e \<Rightarrow> if expired now e then (None, lru_remove key xs) else (Some e, e # lru_remove key xs))"

definition cacheable :: "int \<Rightarrow> Header \<Rightarrow> bool" where
  "cacheable statusCode headers \<longleftrightarrow>
     200 \<le> statusCode \<and> statusCode < 300 \<and> \<not> shouldSkipCache headers"

definition mk_entry :: "Time \<Rightarrow> string \<Rightarrow> string \<Rightarrow> int \<Rightarrow> Header \<Rightarrow> Duration \<Rightarrow> cacheEntry" where
  "mk_entry now key body statusCode headers ttl =
     \<lparr>ceBody = body, ceStatusCode = statusCode, ceHeaders = headers, ceStoredAt = now,
      ceTTL = ttl, cePrev = None, ceNext = None, ceKey = key\<rparr>"

definition lru_put ::
  "nat \<Rightarrow> Time \<Rightarrow> string \<Rightarrow> string \<Rightarrow> int \<Rightarrow> Header \<Rightarrow> Duration \<Rightarrow> cacheEntry list
   \<Rightarrow> cacheEntry list \<times> cacheEntry list" where
  "lru_put cap now key body statusCode headers ttl xs =
     (if \<not> cacheable statusCode headers then ([], xs)
      else let e = mk_entry now key body statusCode headers ttl
           in if key \<in> ceKey ` set xs then ([], e # lru_remove key xs)
              else (rev (drop (cap - 1) xs), e # take (cap - 1) xs))"

text \<open>The representation relation: the map indexes exactly the linked entries.\<close>

definition index_ok :: "Cache \<Rightarrow> ref list \<Rightarrow> bool" where
  "index_ok c ps \<longleftrightarrow>
     distinct (map fst (cEntries c)) \<and>
     set (cEntries c) = (\<lambda>r. (ceKey (deref c r), r)) ` set ps \<and>
     distinct (map (\<lambda>r. ceKey (deref c r)) ps) \<and>
     dom (cHeap c) \<subseteq> {..<cFresh c}"

definition contents :: "Cache \<Rightarrow> ref list \<Rightarrow> cacheEntry list" where
  "contents c ps = map (\<lambda>r. erase (deref c r)) ps"

definition represents :: "Cache \<Rightarrow> cacheEntry list \<Rightarrow> bool" where
  "represents c xs \<longleftrightarrow>
     (\<exists>ps. linked c ps \<and> index_ok c ps \<and> xs = contents c ps) \<and>
     1 \<le> cMaxEntries c \<and> int (length xs) \<le> cMaxEntries c"

lemma same_contents_key:
  assumes "same_contents c c'"
  shows "ceKey (deref c' r) = ceKey (deref c r)"
proof -
  have "ceKey (erase (deref c' r)) = ceKey (erase (deref c r))"
    using assms by (simp only: same_contents_def)
  then show ?thesis by simp
qed

lemma index_ok_cong:
  assumes "same_contents c c'"
  shows "index_ok c' ps = index_ok c ps"
  using assms unfolding index_ok_def same_contents_key [OF assms]
  by (simp add: same_contents_def)

lemma contents_cong: "same_contents c c' \<Longrightarrow> contents c' ps = contents c ps"
  by (simp add: contents_def same_contents_def)

lemma index_ok_perm: "mset ps = mset qs \<Longrightarrow> index_ok c ps \<Longrightarrow> index_ok c qs"
proof -
  assume eq: "mset ps = mset qs" and ok: "index_ok c ps"
  have "mset (map (\<lambda>r. ceKey (deref c r)) ps) = mset (map (\<lambda>r. ceKey (deref c r)) qs)"
    using eq by (simp only: mset_map)
  from mset_eq_imp_distinct_iff [OF this] have "distinct (map (\<lambda>r. ceKey (deref c r)) qs)"
    using ok by (simp add: index_ok_def)
  then show "index_ok c qs" using ok mset_eq_setD [OF eq] by (simp add: index_ok_def)
qed

lemma index_lookup:
  assumes "index_ok c ps"
  shows "map_of (cEntries c) k = Some r \<longleftrightarrow> r \<in> set ps \<and> ceKey (deref c r) = k"
proof -
  have "map_of (cEntries c) k = Some r \<longleftrightarrow> (k, r) \<in> set (cEntries c)"
    using assms by (simp add: index_ok_def)
  then show ?thesis using assms by (auto simp: index_ok_def)
qed

lemma index_lookup_None:
  assumes "index_ok c ps"
  shows "map_of (cEntries c) k = None \<longleftrightarrow> k \<notin> ceKey ` set (contents c ps)"
proof -
  have "map_of (cEntries c) k = None \<longleftrightarrow> (\<forall>r. map_of (cEntries c) k \<noteq> Some r)" by auto
  also have "\<dots> \<longleftrightarrow> (\<forall>r \<in> set ps. ceKey (deref c r) \<noteq> k)"
    unfolding index_lookup [OF assms] by blast
  finally show ?thesis unfolding contents_def set_map image_image erase_simps image_iff by blast
qed

lemma index_length: "index_ok c ps \<Longrightarrow> length (cEntries c) = length ps"
proof -
  assume ok: "index_ok c ps"
  then have d: "distinct (cEntries c)" "distinct ps"
    by (auto simp: index_ok_def distinct_map)
  have "card (set (cEntries c)) = card (set ps)"
    using ok by (auto simp: index_ok_def intro!: card_image inj_onI)
  then show ?thesis using d by (simp add: distinct_card)
qed

lemma find_contents:
  assumes "index_ok c (as @ r # bs)"
  shows "find (\<lambda>e. ceKey e = ceKey (deref c r)) (contents c (as @ r # bs)) = Some (erase (deref c r))"
    and "lru_remove (ceKey (deref c r)) (contents c (as @ r # bs)) = contents c (as @ bs)"
proof -
  let ?k = "ceKey (deref c r)"
  have ne: "\<forall>x \<in> set as \<union> set bs. ceKey (deref c x) \<noteq> ?k"
    using assms distinct_map_split [of "\<lambda>r. ceKey (deref c r)" as r bs] by (simp add: index_ok_def)
  have "find (\<lambda>e. ceKey e = ?k) (contents c as @ ys) = find (\<lambda>e. ceKey e = ?k) ys" for ys
    using ne by (induction as) (auto simp: contents_def)
  then show "find (\<lambda>e. ceKey e = ?k) (contents c (as @ r # bs)) = Some (erase (deref c r))"
    by (simp add: contents_def)
  show "lru_remove ?k (contents c (as @ r # bs)) = contents c (as @ bs)"
    using ne by (auto simp: lru_remove_def contents_def filter_id_conv intro!: arg_cong2 [where f = append])
qed

section \<open>The pointer code implements the LRU list\<close>

text \<open>The working form of the relation, with the references made explicit.\<close>

definition rep :: "Cache \<Rightarrow> ref list \<Rightarrow> bool" where
  "rep c ps \<longleftrightarrow> linked c ps \<and> index_ok c ps"

lemma linked_head: "linked c (as @ r # bs) \<Longrightarrow> cHead c = Some r \<Longrightarrow> as = []"
  by (cases as) (auto simp: linked_def split: option.splits)

lemma linked_alloc: "linked c ps \<Longrightarrow> r \<in> set ps \<Longrightarrow> cHeap c r \<noteq> None"
  using dllseg_dom by (auto simp: linked_def)

lemma same_contents_dom: "same_contents c c' \<Longrightarrow> cHeap c r \<noteq> None \<Longrightarrow> cHeap c' r \<noteq> None"
  by (auto simp: same_contents_def dom_def set_eq_iff)

lemma rep_moveToHead:
  assumes "rep c (as @ r # bs)"
  shows "rep (moveToHead r c) (r # as @ bs)"
proof -
  have "linked (moveToHead r c) (r # as @ bs)"
  proof (cases "cHead c = Some r")
    case True
    then show ?thesis using assms linked_head [of c as r bs] by (simp add: rep_def moveToHead_def)
  next
    case False
    have l: "linked c (as @ r # bs)" using assms by (simp add: rep_def)
    then have "r \<notin> set (as @ bs)" by (auto simp: linked_def)
    moreover have "cHeap (unlinkEntry r c) r \<noteq> None"
      using same_contents_dom [OF same_contents_unlinkEntry] linked_alloc [OF l] by simp
    ultimately show ?thesis
      using linked_addToHead [OF linked_unlinkEntry [OF l]] False by (simp add: moveToHead_def)
  qed
  moreover have "index_ok c (r # as @ bs)"
    using index_ok_perm [of "as @ r # bs" "r # as @ bs"] assms by (simp add: rep_def)
  ultimately show ?thesis
    using index_ok_cong [OF same_contents_moveToHead] by (simp add: rep_def)
qed

lemma set_delete: "set (AList.delete k xs) = {p \<in> set xs. fst p \<noteq> k}"
  by (auto simp: AList.delete_eq)

lemma rep_removeEntry:
  assumes "rep c (as @ r # bs)"
  shows "rep (removeEntry r c) (as @ bs)" "contents (removeEntry r c) qs = contents c qs"
    "cMaxEntries (removeEntry r c) = cMaxEntries c" "cFresh (removeEntry r c) = cFresh c"
    "cHits (removeEntry r c) = cHits c" "cMisses (removeEntry r c) = cMisses c"
proof -
  let ?k = "ceKey (deref c r)"
  define c1 where "c1 = c\<lparr>cEntries := AList.delete ?k (cEntries c)\<rparr>"
  have d: "deref c1 x = deref c x" for x by (simp add: c1_def deref_def)
  have ne: "ceKey (deref c x) \<noteq> ?k" if "x \<in> set as \<union> set bs" for x
    using assms distinct_map_split [of "\<lambda>r. ceKey (deref c r)" as r bs x] that
    by (simp add: rep_def index_ok_def)
  have "set (cEntries c1) = (\<lambda>r. (ceKey (deref c r), r)) ` set (as @ bs)"
    using assms ne by (auto simp: rep_def index_ok_def c1_def set_delete)
  moreover have "distinct (map fst (cEntries c1))"
    using assms by (simp add: rep_def index_ok_def c1_def distinct_delete)
  ultimately have "index_ok c1 (as @ bs)"
    using assms by (simp add: rep_def index_ok_def d) (simp add: c1_def)
  moreover have "linked c1 (as @ r # bs)" using assms by (simp add: rep_def linked_def c1_def)
  moreover have eq: "removeEntry r c = unlinkEntry r c1" by (simp add: removeEntry_def c1_def)
  ultimately show "rep (removeEntry r c) (as @ bs)"
    using linked_unlinkEntry index_ok_cong [OF same_contents_unlinkEntry] by (simp add: rep_def)
  have s: "same_contents c1 (removeEntry r c)" unfolding eq by (rule same_contents_unlinkEntry)
  then show "contents (removeEntry r c) qs = contents c qs"
    using contents_cong [OF s] by (simp add: contents_def d)
  show "cMaxEntries (removeEntry r c) = cMaxEntries c" "cFresh (removeEntry r c) = cFresh c"
    "cHits (removeEntry r c) = cHits c" "cMisses (removeEntry r c) = cMisses c"
    using s by (simp_all add: same_contents_def c1_def)
qed

lemma deref_removeEntry:
  assumes "cHeap c r \<noteq> None"
  shows "deref (removeEntry r c) r = erase (deref c r)"
proof -
  define c1 where "c1 = c\<lparr>cEntries := AList.delete (ceKey (deref c r)) (cEntries c)\<rparr>"
  have eq: "removeEntry r c = unlinkEntry r c1" by (simp add: removeEntry_def c1_def)
  have s: "same_contents c1 (unlinkEntry r c1)" by (rule same_contents_unlinkEntry)
  have "erase (deref (unlinkEntry r c1) r) = erase (deref c r)"
    using s by (simp add: same_contents_def) (simp add: c1_def deref_def)
  moreover have "cHeap (unlinkEntry r c1) r \<noteq> None"
    using same_contents_dom [OF s] assms by (simp add: c1_def)
  then have "cePrev (deref (unlinkEntry r c1) r) = None \<and> ceNext (deref (unlinkEntry r c1) r) = None"
    unfolding unlinkEntry_def Let_def by (auto simp: deref_def)
  ultimately show ?thesis unfolding eq using erase_id by metis
qed

lemma rep_evict_loop:
  assumes "rep c ps" "1 \<le> cMaxEntries c" "int (length ps) \<le> cMaxEntries c"
  defines "m \<equiv> nat (cMaxEntries c) - 1"
  shows "\<exists>c'. evict_loop acc c = Some (acc @ rev (contents c (drop m ps)), c') \<and>
              rep c' (take m ps) \<and> (\<forall>qs. contents c' qs = contents c qs) \<and>
              cMaxEntries c' = cMaxEntries c \<and> cHits c' = cHits c \<and> cMisses c' = cMisses c"
proof (cases "int (length ps) < cMaxEntries c")
  case True
  then have "length ps \<le> m" using assms by (simp add: m_def)
  then show ?thesis
    using True assms index_length [of c ps]
    by (simp add: evict_loop.simps rep_def contents_def)
next
  case False
  then have len: "length ps = Suc m" using assms by (simp add: m_def)
  then obtain qs r where ps: "ps = qs @ [r]" by (cases ps rule: rev_exhaust) auto
  then have qs: "take m ps = qs" "drop m ps = [r]" using len by auto
  have tail: "cTail c = Some r"
    using assms(1) ps dllseg_tail by (force simp: rep_def linked_def)
  have r: "cHeap c r \<noteq> None" using assms(1) ps linked_alloc by (auto simp: rep_def)
  note rem = rep_removeEntry [of c qs r "[]", folded ps, OF assms(1)]
  have ev: "evictTail c = ([erase (deref c r)], removeEntry r c)"
    by (simp add: evictTail_def tail Let_def deref_removeEntry [OF r])
  have "evict_loop acc c = evict_loop (acc @ [erase (deref c r)]) (removeEntry r c)"
    using False assms(1) index_length [of c ps] by (subst evict_loop.simps) (simp add: ev rep_def)
  also have "\<dots> = Some (acc @ [erase (deref c r)], removeEntry r c)"
  proof -
    have "length (cEntries (removeEntry r c)) = length qs"
      using rem(1) index_length [of "removeEntry r c" qs] by (simp add: rep_def)
    then have "\<not> int (length (cEntries (removeEntry r c))) \<ge> cMaxEntries (removeEntry r c)"
      using len ps assms(2) unfolding rem(3) m_def by simp
    then show ?thesis by (subst evict_loop.simps) simp
  qed
  finally show ?thesis using rem qs by (simp add: contents_def)
qed

lemma update_absent: "map_of al k = None \<Longrightarrow> AList.update k v al = al @ [(k, v)]"
  by (induction al) (auto split: if_splits)

lemma rep_insert:
  assumes "rep c ps" "key \<notin> ceKey ` set (contents c ps)" "ceKey e = key" "r = cFresh c"
  defines "c' \<equiv> c\<lparr>cFresh := Suc r, cHeap := (cHeap c)(r \<mapsto> e), cEntries := AList.update key r (cEntries c)\<rparr>"
  shows "rep (addToHead r c') (r # ps)"
    and "contents (addToHead r c') (r # ps) = erase e # contents c ps"
proof -
  have fresh: "r \<notin> set ps"
    using assms(1,4) linked_alloc [of c ps r] by (auto simp: rep_def index_ok_def subset_iff)
  have d: "deref c' x = (if x = r then e else deref c x)" for x
    by (simp add: c'_def deref_def)
  have none: "map_of (cEntries c) key = None"
    using index_lookup_None [of c ps key] assms(1,2) unfolding rep_def by blast
  have keys: "key \<notin> (\<lambda>r. ceKey (deref c r)) ` set ps"
    using assms(2) by (simp add: contents_def image_image)
  have upd: "AList.update key r (cEntries c) = cEntries c @ [(key, r)]"
    using none by (rule update_absent)
  have same: "map (\<lambda>x. ceKey (deref c' x)) ps = map (\<lambda>x. ceKey (deref c x)) ps"
    using fresh by (auto simp: d)
  have "linked c' ps"
    using assms(1) fresh by (simp add: rep_def linked_def c'_def)
  then have "linked (addToHead r c') (r # ps)"
    by (rule linked_addToHead) (use fresh in \<open>simp_all add: c'_def\<close>)
  moreover have "index_ok c' (r # ps)"
    unfolding index_ok_def list.map same
  proof (intro conjI)
    show "distinct (map fst (cEntries c'))"
      using assms(1) by (simp add: c'_def distinct_update rep_def index_ok_def)
    show "set (cEntries c') = (\<lambda>r. (ceKey (deref c' r), r)) ` set (r # ps)"
      using assms(1,3) fresh by (auto simp: c'_def upd rep_def index_ok_def deref_def)
    show "distinct (ceKey (deref c' r) # map (\<lambda>x. ceKey (deref c x)) ps)"
      using assms(1,3) keys by (simp add: d rep_def index_ok_def)
    show "dom (cHeap c') \<subseteq> {..<cFresh c'}"
      using assms(1,4) by (auto simp: c'_def rep_def index_ok_def)
  qed
  ultimately show "rep (addToHead r c') (r # ps)"
    using index_ok_cong [OF same_contents_addToHead] by (simp add: rep_def)
  show "contents (addToHead r c') (r # ps) = erase e # contents c ps"
    using contents_cong [OF same_contents_addToHead [of c' r], of "r # ps"] fresh
    by (auto simp: contents_def d)
qed

lemma rep_moveToHead_contents:
  "contents (moveToHead r c) qs = contents c qs" "cMaxEntries (moveToHead r c) = cMaxEntries c"
  "erase (deref (moveToHead r c) x) = erase (deref c x)"
  using contents_cong [OF same_contents_moveToHead [of c r]] same_contents_moveToHead [of c r]
  by (auto simp: same_contents_def)

lemma linked_counters [simp]:
  "linked (c\<lparr>cHits := h\<rparr>) ps = linked c ps" "linked (c\<lparr>cMisses := n\<rparr>) ps = linked c ps"
  "index_ok (c\<lparr>cHits := h\<rparr>) ps = index_ok c ps" "index_ok (c\<lparr>cMisses := n\<rparr>) ps = index_ok c ps"
  "contents (c\<lparr>cHits := h\<rparr>) ps = contents c ps" "contents (c\<lparr>cMisses := n\<rparr>) ps = contents c ps"
  by (simp_all add: linked_def index_ok_def contents_def deref_def)

lemma representsI:
  "rep c ps \<Longrightarrow> xs = contents c ps \<Longrightarrow> 1 \<le> cMaxEntries c \<Longrightarrow> int (length ps) \<le> cMaxEntries c
   \<Longrightarrow> represents c xs"
  by (auto simp: represents_def rep_def contents_def)

lemma represents_counters [simp]:
  "represents (c\<lparr>cHits := h\<rparr>) xs = represents c xs" "represents (c\<lparr>cMisses := h\<rparr>) xs = represents c xs"
  by (simp_all add: represents_def)

lemma representsE:
  assumes "represents c xs"
  obtains ps where "rep c ps" "xs = contents c ps" "1 \<le> cMaxEntries c" "int (length ps) \<le> cMaxEntries c"
  using assms by (auto simp: represents_def rep_def contents_def)

lemma Cache_Get_sim:
  assumes "represents c xs"
  shows "represents (snd (Cache_Get now key c)) (snd (lru_get now key xs)) \<and>
         map_option (\<lambda>r. erase (deref (snd (Cache_Get now key c)) r)) (fst (Cache_Get now key c))
           = fst (lru_get now key xs) \<and>
         Cache_Stats (snd (Cache_Get now key c)) =
           (if fst (lru_get now key xs) = None then (cHits c, cMisses c + 1)
            else (cHits c + 1, cMisses c))"
proof -
  obtain ps where ps: "rep c ps" "xs = contents c ps" "1 \<le> cMaxEntries c" "int (length ps) \<le> cMaxEntries c"
    using assms by (rule representsE)
  have ok: "index_ok c ps" using ps(1) by (simp add: rep_def)
  show ?thesis
  proof (cases "map_of (cEntries c) key")
    case None
    then have "find (\<lambda>e. ceKey e = key) xs = None"
      using index_lookup_None [OF ok] ps(2) by (auto simp: find_None_iff)
    then show ?thesis
      using None assms by (simp add: Cache_Get_def lru_get_def Cache_Stats_def)
  next
    case (Some r)
    then obtain as bs where split: "ps = as @ r # bs" and key: "key = ceKey (deref c r)"
      using index_lookup [OF ok] by (metis in_set_conv_decomp)
    note fc = find_contents [of c as r bs, folded split, OF ok, folded ps(2) key]
    note mv = rep_moveToHead [of c as r bs, folded split, OF ps(1)]
    note rm = rep_removeEntry [of c as r bs, folded split, OF ps(1)]
    have len: "int (length (as @ bs)) \<le> cMaxEntries c" "int (length (r # as @ bs)) \<le> cMaxEntries c"
      using ps(4) split by simp_all
    have "represents (removeEntry r c) (lru_remove key xs)"
      using representsI [OF rm(1)] rm fc(2) ps(3) len by simp
    moreover have "represents (moveToHead r c) (erase (deref c r) # lru_remove key xs)"
      using representsI [OF mv] rep_moveToHead_contents fc(2) ps(3) len by (simp add: contents_def)
    moreover have "deref (c'\<lparr>cHits := h\<rparr>) x = deref c' x" for c' h x by (simp add: deref_def)
    moreover have "cHits (moveToHead r c) = cHits c" "cMisses (moveToHead r c) = cMisses c"
      using same_contents_moveToHead [of c r] by (simp_all add: same_contents_def)
    ultimately show ?thesis
      using Some fc(1) rm by (simp add: Cache_Get_def lru_get_def Let_def Cache_Stats_def
          rep_moveToHead_contents)
  qed
qed

text \<open>
  \<open>Get\<close> on the pointer structure implements the LRU lookup: it returns the
  live entry of the key or nothing, moves the entry to the front or drops it
  when its TTL has passed, counts a hit or a miss, and keeps the list and the
  map consistent.
\<close>

theorem Cache_Get_refines:
  assumes "represents c xs"
  shows "represents (snd (Cache_Get now key c)) (snd (lru_get now key xs)) \<and>
         map_option (\<lambda>r. erase (deref (snd (Cache_Get now key c)) r)) (fst (Cache_Get now key c))
           = fst (lru_get now key xs) \<and>
         Cache_Stats (snd (Cache_Get now key c)) =
           (if fst (lru_get now key xs) = None then (cHits c, cMisses c + 1)
            else (cHits c + 1, cMisses c))"
  using Cache_Get_sim [OF assms] .

theorem Cache_Get_refines_witness:
  "let c = snd (the (Cache_Put 5 ''k'' ''body'' 200 [] 0 (NewCache 2)))
   in \<exists>xs. represents c xs \<and>
        map_option (\<lambda>r. erase (deref (snd (Cache_Get 9 ''k'' c)) r)) (fst (Cache_Get 9 ''k'' c))
          = Some (mk_entry 5 ''k'' ''body'' 200 [] 0)"
proof -
  let ?e = "mk_entry 5 ''k'' ''body'' 200 [] 0"
  let ?c = "snd (the (Cache_Put 5 ''k'' ''body'' 200 [] 0 (NewCache 2)))"
  have c: "?c = \<lparr>cEntries = [(''k'', 0)], cMaxEntries = 2, cHead = Some 0, cTail = Some 0,
      cHits = 0, cMisses = 0, cHeap = [0 \<mapsto> ?e], cFresh = 1\<rparr>"
    by (simp add: Cache_Put_def NewCache_def shouldSkipCache_def Header_Get_def evict_loop.simps
        addToHead_def store_def mk_entry_def)
  have "represents ?c [?e]"
    unfolding c represents_def
    by (intro conjI exI [of _ "[0]"])
      (auto simp: linked_def index_ok_def contents_def deref_def erase_def mk_entry_def)
  then show ?thesis
    using Cache_Get_refines [of ?c "[?e]" 9 "''k''"] unfolding Let_def
    by (intro exI [of _ "[?e]"]) (simp add: lru_get_def expired_def mk_entry_def)
qed

lemma erase_mk_entry [simp]: "erase (mk_entry now key body sc hs ttl) = mk_entry now key body sc hs ttl"
  by (simp add: erase_def mk_entry_def)

lemma store_contents:
  assumes "rep c (as @ r # bs)" "\<And>e. ceKey (f e) = ceKey e"
    "\<And>e. cePrev (f e) = cePrev e" "\<And>e. ceNext (f e) = ceNext e"
  shows "rep (store r f c) (as @ r # bs)"
    and "x \<noteq> r \<Longrightarrow> deref (store r f c) x = deref c x"
    and "deref (store r f c) r = f (deref c r)"
proof -
  have r: "cHeap c r \<noteq> None" using assms(1) linked_alloc by (auto simp: rep_def)
  then show d: "x \<noteq> r \<Longrightarrow> deref (store r f c) x = deref c x" "deref (store r f c) r = f (deref c r)" for x
    by (auto simp: deref_def)
  have key: "ceKey (deref (store r f c) x) = ceKey (deref c x)" for x
    using d assms(2) by (cases "x = r") auto
  have seg: "dllseg ((cHeap c)(r := map_option f (cHeap c r))) p s ps q e = dllseg (cHeap c) p s ps q e"
    for p s ps q e
    using assms(3,4) by (induction ps arbitrary: p s) (auto split: option.splits)
  show "rep (store r f c) (as @ r # bs)"
    using assms(1) r unfolding rep_def linked_def index_ok_def key
    by (auto simp: seg)
qed

lemma cacheable_iff:
  "cacheable sc hs \<longleftrightarrow> \<not> shouldSkipCache hs \<and> \<not> (sc < 200 \<or> sc \<ge> 300)"
  by (auto simp: cacheable_def)

lemma Cache_Put_sim:
  assumes "represents c xs"
  shows "\<exists>c'. Cache_Put now key body sc hs ttl c =
                Some (fst (lru_put (nat (cMaxEntries c)) now key body sc hs ttl xs), c') \<and>
              represents c' (snd (lru_put (nat (cMaxEntries c)) now key body sc hs ttl xs)) \<and>
              cMaxEntries c' = cMaxEntries c"
proof (cases "cacheable sc hs")
  case False
  then show ?thesis using assms by (auto simp: Cache_Put_def lru_put_def cacheable_iff)
next
  case cable: True
  obtain ps where ps: "rep c ps" "xs = contents c ps" "1 \<le> cMaxEntries c" "int (length ps) \<le> cMaxEntries c"
    using assms by (rule representsE)
  have ok: "index_ok c ps" using ps(1) by (simp add: rep_def)
  let ?e = "mk_entry now key body sc hs ttl"
  show ?thesis
  proof (cases "map_of (cEntries c) key")
    case (Some r)
    then obtain as bs where split: "ps = as @ r # bs" and key: "key = ceKey (deref c r)"
      using index_lookup [OF ok] by (metis in_set_conv_decomp)
    define f :: "cacheEntry \<Rightarrow> cacheEntry" where "f = (\<lambda>e. e\<lparr>ceBody := body, ceStatusCode := sc, ceHeaders := hs,
      ceStoredAt := now, ceTTL := ttl\<rparr>)"
    have pres: "ceKey (f e) = ceKey e" "cePrev (f e) = cePrev e" "ceNext (f e) = ceNext e"
      "erase (f (deref c r)) = ?e" for e
      by (simp_all add: f_def erase_def mk_entry_def key)
    note st = store_contents [of c as r bs f, folded split, OF ps(1) pres(1-3)]
    note mv = rep_moveToHead [of "store r f c" as r bs, folded split, OF st(1)]
    have "r \<notin> set as \<union> set bs"
      using ps(1) split by (auto simp: rep_def linked_def)
    then have "deref (store r f c) x = deref c x" if "x \<in> set as \<union> set bs" for x
      using st(2) [of x] that by blast
    then have cont: "contents (store r f c) (r # as @ bs) = ?e # contents c (as @ bs)"
      using st(3) pres(4) by (simp add: contents_def)
    have "represents (moveToHead r (store r f c)) (?e # lru_remove key xs)"
      using representsI [OF mv] cont ps split find_contents(2) [of c as r bs] ok key
      by (simp add: rep_moveToHead_contents)
    moreover have "key \<in> ceKey ` set xs"
      using index_lookup_None [OF ok] Some ps(2) by (metis option.distinct(1))
    ultimately show ?thesis
      using Some cable by (auto simp: Cache_Put_def lru_put_def cacheable_iff Let_def f_def
          rep_moveToHead_contents)
  next
    case None
    then have new: "key \<notin> ceKey ` set xs" using index_lookup_None [OF ok] ps(2) by simp
    define m where "m = nat (cMaxEntries c) - 1"
    obtain c1 where c1: "evict_loop [] c = Some (rev (contents c (drop m ps)), c1)"
        "rep c1 (take m ps)" "\<And>qs. contents c1 qs = contents c qs" "cMaxEntries c1 = cMaxEntries c"
      using rep_evict_loop [OF ps(1,3,4), of "[]"] by (auto simp: m_def)
    have take: "contents c1 (take m ps) = take m xs"
      unfolding c1(3) ps(2) by (simp add: contents_def take_map)
    have "key \<notin> ceKey ` set (contents c1 (take m ps))"
      using new unfolding take by (auto dest: in_set_takeD)
    moreover have "ceKey ?e = key" by (simp add: mk_entry_def)
    ultimately have ins:
      "rep (addToHead (cFresh c1) (c1\<lparr>cFresh := Suc (cFresh c1), cHeap := (cHeap c1)(cFresh c1 \<mapsto> ?e),
         cEntries := AList.update key (cFresh c1) (cEntries c1)\<rparr>)) (cFresh c1 # take m ps)"
      "contents (addToHead (cFresh c1) (c1\<lparr>cFresh := Suc (cFresh c1), cHeap := (cHeap c1)(cFresh c1 \<mapsto> ?e),
         cEntries := AList.update key (cFresh c1) (cEntries c1)\<rparr>)) (cFresh c1 # take m ps) = ?e # take m xs"
      using rep_insert [OF c1(2), of key ?e "cFresh c1"] take by simp_all
    let ?c2 = "c1\<lparr>cFresh := Suc (cFresh c1), cHeap := (cHeap c1)(cFresh c1 \<mapsto> ?e),
      cEntries := AList.update key (cFresh c1) (cEntries c1)\<rparr>"
    have max: "cMaxEntries (addToHead (cFresh c1) ?c2) = cMaxEntries c"
      using same_contents_addToHead [of ?c2 "cFresh c1"] c1(4) by (simp add: same_contents_def)
    have "int (length (cFresh c1 # take m ps)) \<le> cMaxEntries c"
      using ps(3) by (simp add: m_def)
    then have "represents (addToHead (cFresh c1) ?c2) (?e # take m xs)"
      using representsI [OF ins(1)] ins(2) ps(3) max by simp
    then show ?thesis
      using None new c1(1) cable max ps(2)
      by (simp add: Cache_Put_def lru_put_def cacheable_iff Let_def m_def mk_entry_def contents_def drop_map rev_map)
  qed
qed

text \<open>
  \<open>Put\<close> always returns (its eviction loop terminates) and implements the LRU
  store: nothing for a response that must not be cached, a replacement in place
  moved to the front for a known key, and otherwise a new front entry after
  evicting from the least recently used end just as many entries as capacity
  requires, which are handed to the eviction callback.
\<close>

theorem Cache_Put_refines:
  assumes "represents c xs"
  shows "\<exists>c'. Cache_Put now key body sc hs ttl c =
                Some (fst (lru_put (nat (cMaxEntries c)) now key body sc hs ttl xs), c') \<and>
              represents c' (snd (lru_put (nat (cMaxEntries c)) now key body sc hs ttl xs)) \<and>
              cMaxEntries c' = cMaxEntries c"
  using Cache_Put_sim [OF assms] .

lemma represents_new: "represents (NewCache n) []"
  unfolding represents_def
  by (intro conjI exI [of _ "[]"]) (auto simp: NewCache_def linked_def index_ok_def contents_def)

theorem Cache_Put_refines_witness:
  "represents (NewCache 1) [] \<and>
   (\<exists>c'. Cache_Put 5 ''k'' ''body'' 200 [] 0 (NewCache 1) = Some ([], c') \<and>
         represents c' [mk_entry 5 ''k'' ''body'' 200 [] 0])"
proof -
  have "cacheable 200 []" by (simp add: cacheable_def shouldSkipCache_def Header_Get_def)
  moreover have new: "represents (NewCache 1) []" by (rule represents_new)
  ultimately show ?thesis
    using Cache_Put_refines [OF new, of 5 "''k''" "''body''" 200 "[]" 0]
    by (auto simp: lru_put_def NewCache_def Let_def)
qed

section \<open>Reachable caches\<close>

datatype cache_op =
    OpGet Time string
  | OpPut Time string string int Header Duration
  | OpPurge

fun cache_step :: "cache_op \<Rightarrow> Cache \<Rightarrow> Cache option" where
  "cache_step (OpGet now key) c = Some (snd (Cache_Get now key c))"
| "cache_step (OpPut now key body sc hs ttl) c = map_option snd (Cache_Put now key body sc hs ttl c)"
| "cache_step OpPurge c = Some (Cache_Purge c)"

fun cache_run :: "cache_op list \<Rightarrow> Cache \<Rightarrow> Cache option" where
  "cache_run [] c = Some c"
| "cache_run (op # ops) c = (case cache_step op c of None \<Rightarrow> None | Some c' \<Rightarrow> cache_run ops c')"

fun lru_step :: "nat \<Rightarrow> cache_op \<Rightarrow> cacheEntry list \<Rightarrow> cacheEntry list" where
  "lru_step cap (OpGet now key) xs = snd (lru_get now key xs)"
| "lru_step cap (OpPut now key body sc hs ttl) xs = snd (lru_put cap now key body sc hs ttl xs)"
| "lru_step cap OpPurge xs = []"

lemma represents_purge: "represents c xs \<Longrightarrow> represents (Cache_Purge c) []"
  unfolding represents_def
  by (intro conjI exI [of _ "[]"])
    (auto simp: Cache_Purge_def linked_def index_ok_def contents_def)

lemma represents_len: "represents c xs \<Longrightarrow> Cache_Len c = int (length xs)"
  using index_length by (auto simp: represents_def Cache_Len_def contents_def)

lemma Cache_Get_max:
  "cMaxEntries (snd (Cache_Get now key c)) = cMaxEntries c"
proof -
  have "cMaxEntries (removeEntry r c) = cMaxEntries c" for r
    using same_contents_unlinkEntry [of "c\<lparr>cEntries := AList.delete (ceKey (deref c r)) (cEntries c)\<rparr>" r]
    by (simp add: removeEntry_def same_contents_def)
  then show ?thesis
    using same_contents_moveToHead [of c]
    by (auto simp: Cache_Get_def Let_def same_contents_def split: option.splits)
qed

lemma cache_step_refines:
  assumes "represents c xs"
  shows "\<exists>c'. cache_step op c = Some c' \<and> represents c' (lru_step (nat (cMaxEntries c)) op xs) \<and>
              cMaxEntries c' = cMaxEntries c"
proof (cases op)
  case (OpGet now key)
  then show ?thesis using Cache_Get_sim [OF assms, of now key] Cache_Get_max by simp
next
  case (OpPut now key body sc hs ttl)
  then show ?thesis using Cache_Put_sim [OF assms, of now key body sc hs ttl] by auto
next
  case OpPurge
  then show ?thesis using represents_purge [OF assms] by (simp add: Cache_Purge_def)
qed

lemma cache_run_represents:
  assumes "represents c xs"
  shows "\<exists>c'. cache_run ops c = Some c' \<and> represents c' (fold (lru_step (nat (cMaxEntries c))) ops xs) \<and>
              cMaxEntries c' = cMaxEntries c"
  using assms
proof (induction ops arbitrary: c xs)
  case (Cons op ops)
  obtain c1 where c1: "cache_step op c = Some c1"
      "represents c1 (lru_step (nat (cMaxEntries c)) op xs)" "cMaxEntries c1 = cMaxEntries c"
    using cache_step_refines [OF Cons.prems] by blast
  then show ?case using Cons.IH [OF c1(2)] by auto
qed simp

text \<open>
  C5: from an empty cache every sequence of lookups, stores and purges runs to
  completion, the pointer structure stays the LRU list of the specification,
  and the number of entries never exceeds the configured capacity.
\<close>

theorem cache_run_refines:
  "\<exists>c. cache_run ops (NewCache n) = Some c \<and>
       represents c (fold (lru_step (if n \<le> 0 then 10000 else nat n)) ops []) \<and>
       Cache_Len c = int (length (fold (lru_step (if n \<le> 0 then 10000 else nat n)) ops [])) \<and>
       Cache_Len c \<le> (if n \<le> 0 then 10000 else n)"
proof -
  obtain c where c: "cache_run ops (NewCache n) = Some c"
      "represents c (fold (lru_step (nat (cMaxEntries (NewCache n)))) ops [])"
      "cMaxEntries c = cMaxEntries (NewCache n)"
    using cache_run_represents [OF represents_new] by blast
  have max: "nat (cMaxEntries (NewCache n)) = (if n \<le> 0 then 10000 else nat n)"
    by (simp add: NewCache_def)
  have "Cache_Len c \<le> cMaxEntries c"
    using c(2) represents_len [OF c(2)] by (simp add: represents_def)
  then show ?thesis using c represents_len [OF c(2)] unfolding max by (auto simp: NewCache_def)
qed

section \<open>Stored responses are served\<close>

lemma lru_get_after_put:
  assumes "cacheable sc hs" "ttl \<le> 0 \<or> now' - now \<le> ttl"
  shows "fst (lru_get now' key (snd (lru_put cap now key body sc hs ttl xs))) =
         Some (mk_entry now key body sc hs ttl)"
  using assms by (auto simp: lru_put_def lru_get_def Let_def expired_def mk_entry_def)

text \<open>
  A cacheable response that has just been stored is what the next lookup of
  its key returns, for as long as its TTL lasts (forever when the TTL is not
  positive), whatever the cache held before.
\<close>

theorem Cache_Get_after_Put:
  assumes "represents c xs" "cacheable sc hs" "ttl \<le> 0 \<or> now' - now \<le> ttl"
    and "Cache_Put now key body sc hs ttl c = Some (ev, c')"
  shows "\<exists>r. fst (Cache_Get now' key c') = Some r \<and>
             erase (deref (snd (Cache_Get now' key c')) r) = mk_entry now key body sc hs ttl"
proof -
  let ?xs = "snd (lru_put (nat (cMaxEntries c)) now key body sc hs ttl xs)"
  have "represents c' ?xs"
    using Cache_Put_sim [OF assms(1), of now key body sc hs ttl] assms(4) by auto
  from Cache_Get_sim [OF this, of now' key] lru_get_after_put [OF assms(2,3)]
  have "map_option (\<lambda>r. erase (deref (snd (Cache_Get now' key c')) r)) (fst (Cache_Get now' key c'))
      = Some (mk_entry now key body sc hs ttl)" by simp
  then show ?thesis by (cases "fst (Cache_Get now' key c')") auto
qed

theorem Cache_Get_after_Put_witness:
  "\<exists>ev c' r. Cache_Put 5 ''k'' ''body'' 200 [] 10 (NewCache 1) = Some (ev, c') \<and>
     fst (Cache_Get 15 ''k'' c') = Some r \<and>
     erase (deref (snd (Cache_Get 15 ''k'' c')) r) = mk_entry 5 ''k'' ''body'' 200 [] 10"
proof -
  have ok: "cacheable 200 []" by (simp add: cacheable_def shouldSkipCache_def Header_Get_def)
  obtain ev c' where put: "Cache_Put 5 ''k'' ''body'' 200 [] 10 (NewCache 1) = Some (ev, c')"
    using Cache_Put_sim [OF represents_new, of 5 "''k''" "''body''" 200 "[]" 10 1] by blast
  then show ?thesis
    using Cache_Get_after_Put [OF represents_new ok _ put, of 15] by auto
qed

section \<open>Cache keys\<close>

lemma sort_eq_iff_mset: "sort xs = sort ys \<longleftrightarrow> mset xs = mset ys" for xs :: "'a::linorder list"
proof
  assume "sort xs = sort ys"
  then have "mset (sort xs) = mset (sort ys)" by simp
  then show "mset xs = mset ys" by simp
next
  assume "mset xs = mset ys"
  then show "sort xs = sort ys" by (intro properties_for_sort) simp_all
qed

lemma Join_sort_Split_inj:
  assumes "Join (sort (Split a c)) [c] = Join (sort (Split b c)) [c]"
  shows "mset (Split a c) = mset (Split b c)"
proof -
  have "Split (Join (sort (Split x c)) [c]) c = sort (Split x c)" for x
  proof (rule Split_Join)
    show "sort (Split x c) \<noteq> []"
      using Split_not_Nil [of x c] by (metis length_0_conv length_sort)
    show "\<forall>y \<in> set (sort (Split x c)). c \<notin> set y" by (simp add: Split_parts_no_sep)
  qed
  then have "sort (Split a c) = sort (Split b c)" using assms by metis
  then show ?thesis by (simp only: sort_eq_iff_mset)
qed

lemma append_sep_inj:
  "c \<notin> set a \<Longrightarrow> c \<notin> set b \<Longrightarrow> a @ c # x = b @ c # y \<longleftrightarrow> a = b \<and> x = y"
proof (induction a arbitrary: b)
  case Nil
  then show ?case by (cases b) auto
next
  case (Cons z a)
  then show ?case by (cases b) auto
qed



text \<open>
  the path of a request is percent-decoded before the key is built, and a
  decoded path may hold a question mark: the request for the file \<open>/a?x=1\<close>
  (sent as \<open>/a%3Fx=1\<close>) and the request for \<open>/a\<close> with the query \<open>x=1\<close> are
  different requests with one cache key.
\<close>

theorem CacheKey_collision:
  "CacheKey ''GET'' ''a.example'' ''/a?x=1'' '''' = CacheKey ''GET'' ''a.example'' ''/a'' ''x=1''"
  by (simp add: CacheKey_def)

end
