(* ===== verification/EF_DiskCache.thy ===== *)
theory EF_DiskCache
  imports EF_Cache
begin

text \<open>
  The disk cache and the two-level cache of \<open>cdnserver/diskcache.go\<close>.

  The directory is a map from content hash to the \<open>.body\<close> and \<open>.meta\<close> files of
  that hash (the path of a file is an injective function of its hash).  A
  \<open>.meta\<close> file holds the metadata record its JSON text encodes, or text that
  does not parse.  \<open>sha\<close> is the hexadecimal SHA-256 of a key.  Each call is
  made in an environment \<open>disk_env\<close> that decides which file operations fail
  and in which order Go iterates the index map.
\<close>

section \<open>Disk cache\<close>

record diskCacheMetadata =
  mKey :: string
  mStatusCode :: int
  mHeaders :: Header
  mStoredAt :: Time
  mTTL :: Duration
  mBodySize :: int

record diskIndexEntry =
  ieHash :: string
  ieStoredAt :: Time
  ieSize :: int

datatype metafile = Meta diskCacheMetadata | Unparsable

record DiskCache =
  dMaxBytes :: int
  dUsedBytes :: int
  dIndex :: "(string \<times> diskIndexEntry) list"
  dHits :: "64 word"
  dMisses :: "64 word"
  dBody :: "string \<rightharpoonup> string"
  dMeta :: "string \<rightharpoonup> metafile"

record disk_env =
  deRemove :: bool
  deMkdir :: bool
  deMarshal :: bool
  deWriteBody :: bool
  deBodyLeft :: "string option"
  deWriteMeta :: bool
  deMetaLeft :: "metafile option"
  deReadMeta :: bool
  deReadBody :: bool
  deIter :: "(string \<times> diskIndexEntry) list \<Rightarrow> (string \<times> diskIndexEntry) list"

definition removeFilesLocked :: "disk_env \<Rightarrow> string \<Rightarrow> DiskCache \<Rightarrow> DiskCache" where
  "removeFilesLocked env hash d =
     (if deRemove env then d\<lparr>dBody := (dBody d)(hash := None), dMeta := (dMeta d)(hash := None)\<rparr>
      else d)"

definition removeEntryLocked :: "disk_env \<Rightarrow> string \<Rightarrow> diskIndexEntry \<Rightarrow> DiskCache \<Rightarrow> DiskCache" where
  "removeEntryLocked env key ie d =
     (let d = removeFilesLocked env (ieHash ie) d
      in d\<lparr>dUsedBytes := dUsedBytes d - ieSize ie, dIndex := AList.delete key (dIndex d)\<rparr>)"

text \<open>The scan of \<open>evictOldestLocked\<close>: the empty string means none found yet.\<close>

fun oldest :: "(string \<times> diskIndexEntry) list \<Rightarrow> string \<times> Time \<Rightarrow> string \<times> Time" where
  "oldest [] acc = acc"
| "oldest ((key, ie) # rest) (oldestKey, oldestTime) =
     (if oldestKey = '''' \<or> ieStoredAt ie < oldestTime then oldest rest (key, ieStoredAt ie)
      else oldest rest (oldestKey, oldestTime))"

definition evictOldestLocked :: "disk_env \<Rightarrow> DiskCache \<Rightarrow> DiskCache" where
  "evictOldestLocked env d =
     (let oldestKey = fst (oldest (deIter env (dIndex d)) ('''', 0))
      in if oldestKey \<noteq> '''' then
           (case map_of (dIndex d) oldestKey of
              Some ie \<Rightarrow> removeEntryLocked env oldestKey ie d
            | None \<Rightarrow> d)
         else d)"

text \<open>
  The loop \<open>for d.usedBytes+bodySize > d.maxBytes && len(d.index) > 0\<close>.
\<close>

partial_function (option) disk_evict_loop :: "disk_env \<Rightarrow> int \<Rightarrow> DiskCache \<Rightarrow> DiskCache option" where
  "disk_evict_loop env bodySize d =
     (if dUsedBytes d + bodySize > dMaxBytes d \<and> length (dIndex d) > 0
      then disk_evict_loop env bodySize (evictOldestLocked env d)
      else Some d)"

definition Disk_Get ::
  "disk_env \<Rightarrow> Time \<Rightarrow> string \<Rightarrow> DiskCache \<Rightarrow> cacheEntry option \<times> DiskCache" where
  "Disk_Get env now key d =
     (case map_of (dIndex d) key of
        None \<Rightarrow> (None, d\<lparr>dMisses := dMisses d + 1\<rparr>)
      | Some ie \<Rightarrow>
          (let miss = (let d = removeEntryLocked env key ie d in d\<lparr>dMisses := dMisses d + 1\<rparr>)
           in case (if deReadMeta env then dMeta d (ieHash ie) else None) of
                None \<Rightarrow> (None, miss)
              | Some Unparsable \<Rightarrow> (None, miss)
              | Some (Meta meta) \<Rightarrow>
                  if mTTL meta > 0 \<and> now - mStoredAt meta > mTTL meta then (None, miss)
                  else (case (if deReadBody env then dBody d (ieHash ie) else None) of
                          None \<Rightarrow> (None, miss)
                        | Some body \<Rightarrow>
                            (Some \<lparr>ceBody = body, ceStatusCode = mStatusCode meta,
                                   ceHeaders = mHeaders meta, ceStoredAt = mStoredAt meta,
                                   ceTTL = mTTL meta, cePrev = None, ceNext = None, ceKey = key\<rparr>,
                             d\<lparr>dHits := dHits d + 1\<rparr>))))"

definition Disk_Put ::
  "(string \<Rightarrow> string) \<Rightarrow> disk_env \<Rightarrow> Time \<Rightarrow> string \<Rightarrow> string \<Rightarrow> int \<Rightarrow> Header \<Rightarrow> Duration
   \<Rightarrow> DiskCache \<Rightarrow> DiskCache option" where
  "Disk_Put sha env now key body statusCode headers ttl d =
     (if shouldSkipCache headers then Some d
      else if statusCode < 200 \<or> statusCode \<ge> 300 then Some d
      else
        (let d = (case map_of (dIndex d) key of
                    Some ie \<Rightarrow> removeEntryLocked env key ie d | None \<Rightarrow> d);
             bodySize = int (length body)
         in case disk_evict_loop env bodySize d of
              None \<Rightarrow> None
            | Some d \<Rightarrow>
                (let hash = sha key;
                     meta = \<lparr>mKey = key, mStatusCode = statusCode, mHeaders = headers,
                             mStoredAt = now, mTTL = ttl, mBodySize = bodySize\<rparr>
                 in if \<not> deMkdir env then Some d
                    else if \<not> deMarshal env then Some d
                    else if \<not> deWriteBody env then Some (d\<lparr>dBody := (dBody d)(hash := deBodyLeft env)\<rparr>)
                    else (let d = d\<lparr>dBody := (dBody d)(hash \<mapsto> body)\<rparr>
                          in if \<not> deWriteMeta env then
                               (let d = d\<lparr>dMeta := (dMeta d)(hash := deMetaLeft env)\<rparr>
                                in Some (if deRemove env then d\<lparr>dBody := (dBody d)(hash := None)\<rparr> else d))
                             else Some (d\<lparr>dMeta := (dMeta d)(hash \<mapsto> Meta meta),
                                          dIndex := AList.update key
                                            \<lparr>ieHash = hash, ieStoredAt = now, ieSize = bodySize\<rparr> (dIndex d),
                                          dUsedBytes := dUsedBytes d + bodySize\<rparr>)))))"

definition Disk_Purge :: "disk_env \<Rightarrow> DiskCache \<Rightarrow> DiskCache" where
  "Disk_Purge env d =
     (let d = fold (\<lambda>(key, ie) d. removeFilesLocked env (ieHash ie) d) (deIter env (dIndex d)) d
      in d\<lparr>dIndex := [], dUsedBytes := 0\<rparr>)"

definition Disk_Len :: "DiskCache \<Rightarrow> int" where
  "Disk_Len d = int (length (dIndex d))"

text \<open>
  \<open>rebuildIndex\<close> on the listing of the cache directory: the name of each entry,
  whether it is a directory, and its files with what reading and parsing them
  gives (\<open>None\<close> for an unreadable directory or file).
\<close>

type_synonym listing = "(string \<times> bool \<times> (string \<times> metafile option) list option) list"

definition rebuild_file :: "string \<times> metafile option \<Rightarrow> DiskCache \<Rightarrow> DiskCache" where
  "rebuild_file f d =
     (let name = fst f
      in if length name < 6 \<or> drop (length name - 5) name \<noteq> ''.meta'' then d
         else (case snd f of
                 Some (Meta meta) \<Rightarrow>
                   d\<lparr>dIndex := AList.update (mKey meta)
                       \<lparr>ieHash = take (length name - 5) name, ieStoredAt = mStoredAt meta,
                        ieSize = mBodySize meta\<rparr> (dIndex d),
                     dUsedBytes := dUsedBytes d + mBodySize meta\<rparr>
               | _ \<Rightarrow> d))"

definition rebuild_dir :: "string \<times> bool \<times> (string \<times> metafile option) list option \<Rightarrow> DiskCache \<Rightarrow> DiskCache"
where
  "rebuild_dir dir d =
     (if \<not> fst (snd dir) \<or> length (fst dir) \<noteq> 2 then d
      else (case snd (snd dir) of None \<Rightarrow> d | Some files \<Rightarrow> fold rebuild_file files d))"

definition rebuildIndex :: "listing option \<Rightarrow> DiskCache \<Rightarrow> DiskCache" where
  "rebuildIndex entries d = (case entries of None \<Rightarrow> d | Some dirs \<Rightarrow> fold rebuild_dir dirs d)"

text \<open>\<open>NewDiskCache\<close> on a directory that holds the given files.\<close>

definition NewDiskCache ::
  "bool \<Rightarrow> int \<Rightarrow> listing option \<Rightarrow> (string \<rightharpoonup> string) \<Rightarrow> (string \<rightharpoonup> metafile) \<Rightarrow> DiskCache result" where
  "NewDiskCache mkdirOK maxBytes entries bodies metas =
     (if \<not> mkdirOK then Inl (Errorf ''create cache dir'')
      else Inr (rebuildIndex entries
             \<lparr>dMaxBytes = maxBytes, dUsedBytes = 0, dIndex = [], dHits = 0, dMisses = 0,
              dBody = bodies, dMeta = metas\<rparr>))"

section \<open>Hybrid cache\<close>

record HybridCache =
  hMemory :: Cache
  hDisk :: DiskCache
  hHits :: "64 word"
  hMisses :: "64 word"

definition NewHybridCache ::
  "int \<Rightarrow> bool \<Rightarrow> int \<Rightarrow> listing option \<Rightarrow> (string \<rightharpoonup> string) \<Rightarrow> (string \<rightharpoonup> metafile) \<Rightarrow> HybridCache result"
where
  "NewHybridCache memEntries mkdirOK diskMaxBytes entries bodies metas =
     (case NewDiskCache mkdirOK diskMaxBytes entries bodies metas of
        Inl e \<Rightarrow> Inl e
      | Inr disk \<Rightarrow> Inr \<lparr>hMemory = NewCache memEntries, hDisk = disk, hHits = 0, hMisses = 0\<rparr>)"

text \<open>The eviction callback: every evicted entry is stored on disk.\<close>

fun spill :: "(string \<Rightarrow> string) \<Rightarrow> disk_env \<Rightarrow> Time \<Rightarrow> cacheEntry list \<Rightarrow> DiskCache \<Rightarrow> DiskCache option" where
  "spill sha env now [] d = Some d"
| "spill sha env now (e # es) d =
     (case Disk_Put sha env now (ceKey e) (ceBody e) (ceStatusCode e) (ceHeaders e) (ceTTL e) d of
        None \<Rightarrow> None
      | Some d' \<Rightarrow> spill sha env now es d')"

definition mem_put ::
  "(string \<Rightarrow> string) \<Rightarrow> disk_env \<Rightarrow> Time \<Rightarrow> string \<Rightarrow> string \<Rightarrow> int \<Rightarrow> Header \<Rightarrow> Duration
   \<Rightarrow> HybridCache \<Rightarrow> HybridCache option" where
  "mem_put sha env now key body statusCode headers ttl h =
     (case Cache_Put now key body statusCode headers ttl (hMemory h) of
        None \<Rightarrow> None
      | Some (evicted, mem) \<Rightarrow>
          (case spill sha env now evicted (hDisk h) of
             None \<Rightarrow> None
           | Some disk \<Rightarrow> Some (h\<lparr>hMemory := mem, hDisk := disk\<rparr>)))"

definition Hybrid_Put ::
  "(string \<Rightarrow> string) \<Rightarrow> disk_env \<Rightarrow> Time \<Rightarrow> string \<Rightarrow> string \<Rightarrow> int \<Rightarrow> Header \<Rightarrow> Duration
   \<Rightarrow> HybridCache \<Rightarrow> HybridCache option" where
  "Hybrid_Put sha env now key body statusCode headers ttl h =
     mem_put sha env now key body statusCode headers ttl h"

text \<open>\<open>Get\<close> returns the contents of the entry it found.\<close>

definition Hybrid_Get ::
  "(string \<Rightarrow> string) \<Rightarrow> disk_env \<Rightarrow> Time \<Rightarrow> string \<Rightarrow> HybridCache \<Rightarrow> (cacheEntry option \<times> HybridCache) option"
where
  "Hybrid_Get sha env now key h =
     (let (found, mem) = Cache_Get now key (hMemory h);
          h = h\<lparr>hMemory := mem\<rparr>
      in case found of
           Some r \<Rightarrow> Some (Some (erase (deref mem r)), h\<lparr>hHits := hHits h + 1\<rparr>)
         | None \<Rightarrow>
             (let (found, disk) = Disk_Get env now key (hDisk h);
                  h = h\<lparr>hDisk := disk\<rparr>
              in case found of
                   Some entry \<Rightarrow>
                     (case mem_put sha env now key (ceBody entry) (ceStatusCode entry)
                             (ceHeaders entry) (ceTTL entry) h of
                        None \<Rightarrow> None
                      | Some h \<Rightarrow>
                          (let h = (case map_of (dIndex (hDisk h)) key of
                                      Some ie \<Rightarrow> h\<lparr>hDisk := removeEntryLocked env key ie (hDisk h)\<rparr>
                                    | None \<Rightarrow> h)
                           in Some (Some entry, h\<lparr>hHits := hHits h + 1\<rparr>)))
                 | None \<Rightarrow> Some (None, h\<lparr>hMisses := hMisses h + 1\<rparr>)))"

definition Hybrid_Purge :: "disk_env \<Rightarrow> HybridCache \<Rightarrow> HybridCache" where
  "Hybrid_Purge env h = h\<lparr>hMemory := Cache_Purge (hMemory h), hDisk := Disk_Purge env (hDisk h)\<rparr>"

definition Hybrid_Len :: "HybridCache \<Rightarrow> int" where
  "Hybrid_Len h = Cache_Len (hMemory h) + Disk_Len (hDisk h)"

section \<open>Accounting and eviction order\<close>

definition sizes :: "(string \<times> diskIndexEntry) list \<Rightarrow> int" where
  "sizes xs = (\<Sum>p \<leftarrow> xs. ieSize (snd p))"

text \<open>
  The disk cache invariant: the byte counter is the sum of the indexed sizes,
  and every indexed key has both files of its own hash, written by one store.
\<close>

definition file_ok :: "(string \<Rightarrow> string) \<Rightarrow> DiskCache \<Rightarrow> string \<times> diskIndexEntry \<Rightarrow> bool" where
  "file_ok sha d p \<longleftrightarrow> fst p \<noteq> '''' \<and> ieHash (snd p) = sha (fst p) \<and>
     (\<exists>m b. dMeta d (sha (fst p)) = Some (Meta m) \<and> dBody d (sha (fst p)) = Some b \<and>
            mKey m = fst p \<and> mBodySize m = int (length b) \<and> ieSize (snd p) = int (length b) \<and>
            ieStoredAt (snd p) = mStoredAt m)"

definition disk_inv :: "(string \<Rightarrow> string) \<Rightarrow> DiskCache \<Rightarrow> bool" where
  "disk_inv sha d \<longleftrightarrow>
     distinct (map fst (dIndex d)) \<and> dUsedBytes d = sizes (dIndex d) \<and>
     (\<forall>p \<in> set (dIndex d). file_ok sha d p)"

definition env_ok :: "disk_env \<Rightarrow> bool" where
  "env_ok env \<longleftrightarrow> (\<forall>xs. mset (deIter env xs) = mset xs)"

lemma sizes_delete:
  assumes "distinct (map fst xs)" "map_of xs k = Some ie"
  shows "sizes (AList.delete k xs) = sizes xs - ieSize ie"
  using assms
proof (induction xs)
  case (Cons p xs)
  show ?case
  proof (cases "fst p = k")
    case True
    then have "AList.delete k xs = xs"
      using Cons.prems(1) by (intro delete_id) simp
    then show ?thesis using True Cons.prems by (cases p) (simp add: sizes_def)
  next
    case False
    then show ?thesis using Cons by (cases p) (simp add: sizes_def)
  qed
qed simp

lemma sizes_nonneg: "\<forall>p \<in> set xs. 0 \<le> ieSize (snd p) \<Longrightarrow> 0 \<le> sizes xs"
  by (induction xs) (auto simp: sizes_def)

lemma length_delete_less:
  assumes "map_of xs k = Some v"
  shows "length (AList.delete k xs) < length xs"
proof -
  obtain y where "y \<in> set xs" "fst y = k" using map_of_SomeD [OF assms] by force
  then show ?thesis unfolding AList.delete_eq by (intro length_filter_less [of y]) auto
qed

lemma removeEntryLocked_simps [simp]:
  "dIndex (removeEntryLocked env key ie d) = AList.delete key (dIndex d)"
  "dUsedBytes (removeEntryLocked env key ie d) = dUsedBytes d - ieSize ie"
  "dMaxBytes (removeEntryLocked env key ie d) = dMaxBytes d"
  "dBody (removeEntryLocked env key ie d) = (if deRemove env then (dBody d)(ieHash ie := None) else dBody d)"
  "dMeta (removeEntryLocked env key ie d) = (if deRemove env then (dMeta d)(ieHash ie := None) else dMeta d)"
  by (simp_all add: removeEntryLocked_def removeFilesLocked_def Let_def)

lemma disk_inv_removeEntry:
  assumes "disk_inv sha d" "inj sha" "map_of (dIndex d) key = Some ie"
  shows "disk_inv sha (removeEntryLocked env key ie d)"
proof -
  have hash: "ieHash ie = sha key"
    using assms map_of_SomeD [OF assms(3)] by (force simp: disk_inv_def file_ok_def)
  have "file_ok sha (removeEntryLocked env key ie d) p" if "p \<in> set (AList.delete key (dIndex d))" for p
  proof -
    have "p \<in> set (dIndex d)" "fst p \<noteq> key" using that by (auto simp: set_delete)
    then have "file_ok sha d p" "sha (fst p) \<noteq> sha key"
      using assms by (auto simp: disk_inv_def dest: injD)
    then show ?thesis by (simp add: file_ok_def hash)
  qed
  then show ?thesis
    using assms by (simp add: disk_inv_def sizes_delete distinct_delete)
qed

lemma oldest_props:
  assumes "\<forall>p \<in> set xs. fst p \<noteq> ''''" "oldest xs (k0, t0) = (k, t)"
  shows "(k0 \<noteq> '''' \<longrightarrow> k \<noteq> '''' \<and> t \<le> t0) \<and> (xs \<noteq> [] \<longrightarrow> k \<noteq> '''') \<and>
         ((k, t) = (k0, t0) \<or> (\<exists>ie. (k, ie) \<in> set xs \<and> t = ieStoredAt ie)) \<and>
         (\<forall>p \<in> set xs. t \<le> ieStoredAt (snd p))"
  using assms
proof (induction xs arbitrary: k0 t0)
  case (Cons p xs)
  obtain key ie where p: "p = (key, ie)" by (cases p)
  show ?case
  proof (cases "k0 = '''' \<or> ieStoredAt ie < t0")
    case True
    then have "oldest xs (key, ieStoredAt ie) = (k, t)" using Cons.prems(2) p by simp
    from Cons.IH [OF _ this] Cons.prems(1) show ?thesis using True p by auto
  next
    case False
    then have "oldest xs (k0, t0) = (k, t)" using Cons.prems(2) p by simp
    from Cons.IH [OF _ this] Cons.prems(1) show ?thesis using False p by auto
  qed
qed simp

lemma evictOldest_step:
  assumes "disk_inv sha d" "env_ok env" "dIndex d \<noteq> []"
  obtains key ie where "map_of (dIndex d) key = Some ie"
    "evictOldestLocked env d = removeEntryLocked env key ie d"
    "\<forall>p \<in> set (dIndex d). ieStoredAt ie \<le> ieStoredAt (snd p)"
proof -
  let ?xs = "deIter env (dIndex d)"
  have set: "set ?xs = set (dIndex d)"
    using assms(2) by (metis env_ok_def mset_eq_setD)
  obtain k t where kt: "oldest ?xs ('''', 0) = (k, t)" by fastforce
  have "\<forall>p \<in> set ?xs. fst p \<noteq> ''''" using assms(1) set by (auto simp: disk_inv_def file_ok_def)
  note o = oldest_props [OF this kt]
  have "k \<noteq> ''''" using o assms(3) set by (metis empty_iff list.set(1) set_empty)
  then obtain ie where ie: "(k, ie) \<in> set (dIndex d)" "t = ieStoredAt ie" using o set by auto
  then have "map_of (dIndex d) k = Some ie" using assms(1) by (simp add: disk_inv_def)
  then show thesis
    using that [of k ie] o set ie \<open>k \<noteq> ''''\<close> kt by (simp add: evictOldestLocked_def Let_def)
qed

lemma removed_entry:
  assumes "disk_inv sha d" "map_of (dIndex d) key = Some ie"
    and "p \<in> set (dIndex d)" "p \<notin> set (AList.delete key (dIndex d))"
  shows "snd p = ie"
proof -
  have "fst p = key" using assms by (simp add: set_delete)
  then have "map_of (dIndex d) key = Some (snd p)"
    using assms(1,3) map_of_is_SomeI [of "dIndex d" key "snd p"] by (cases p) (simp add: disk_inv_def)
  then show ?thesis using assms(2) by simp
qed

lemma index_hash: "disk_inv sha d \<Longrightarrow> map_of (dIndex d) key = Some ie \<Longrightarrow> ieHash ie = sha key"
  by (force simp: disk_inv_def file_ok_def dest: map_of_SomeD)

text \<open>Files of the keys that stay indexed are not touched by a removal.\<close>

lemma removeEntry_frame:
  assumes "disk_inv sha d" "inj sha" "map_of (dIndex d) key = Some ie" "k \<noteq> key"
  shows "dMeta (removeEntryLocked env key ie d) (sha k) = dMeta d (sha k)"
    and "dBody (removeEntryLocked env key ie d) (sha k) = dBody d (sha k)"
  using index_hash [OF assms(1,3)] assms(2,4) by (auto dest: injD)

lemma disk_evict_loop_ok:
  assumes "disk_inv sha d" "inj sha" "env_ok env"
  shows "\<exists>d'. disk_evict_loop env n d = Some d' \<and> disk_inv sha d' \<and> dMaxBytes d' = dMaxBytes d \<and>
    set (dIndex d') \<subseteq> set (dIndex d) \<and>
    (dUsedBytes d' + n \<le> dMaxBytes d \<or> dIndex d' = []) \<and>
    (\<forall>p \<in> set (dIndex d) - set (dIndex d'). \<forall>q \<in> set (dIndex d').
       ieStoredAt (snd p) \<le> ieStoredAt (snd q)) \<and>
    (\<forall>q \<in> set (dIndex d'). dMeta d' (sha (fst q)) = dMeta d (sha (fst q)) \<and>
                           dBody d' (sha (fst q)) = dBody d (sha (fst q)))"
  using assms(1)
proof (induction "length (dIndex d)" arbitrary: d rule: less_induct)
  case less
  show ?case
  proof (cases "dUsedBytes d + n > dMaxBytes d \<and> length (dIndex d) > 0")
    case False
    then show ?thesis using less.prems by (subst disk_evict_loop.simps) auto
  next
    case True
    then obtain key ie where e: "map_of (dIndex d) key = Some ie"
      "evictOldestLocked env d = removeEntryLocked env key ie d"
      "\<forall>p \<in> set (dIndex d). ieStoredAt ie \<le> ieStoredAt (snd p)"
      using evictOldest_step [OF less.prems assms(3)] by blast
    let ?d = "removeEntryLocked env key ie d"
    have inv: "disk_inv sha ?d" using disk_inv_removeEntry [OF less.prems assms(2) e(1)] .
    have "length (dIndex ?d) < length (dIndex d)" using length_delete_less [OF e(1)] by simp
    from less.hyps [OF this inv] obtain d' where d': "disk_evict_loop env n ?d = Some d'"
      "disk_inv sha d'" "dMaxBytes d' = dMaxBytes d" "set (dIndex d') \<subseteq> set (dIndex ?d)"
      "dUsedBytes d' + n \<le> dMaxBytes d \<or> dIndex d' = []"
      "\<forall>p \<in> set (dIndex ?d) - set (dIndex d'). \<forall>q \<in> set (dIndex d').
         ieStoredAt (snd p) \<le> ieStoredAt (snd q)"
      "\<forall>q \<in> set (dIndex d'). dMeta d' (sha (fst q)) = dMeta ?d (sha (fst q)) \<and>
         dBody d' (sha (fst q)) = dBody ?d (sha (fst q))" by auto
    have loop: "disk_evict_loop env n d = Some d'"
      using True d'(1) e(2) by (subst disk_evict_loop.simps) simp
    have sub: "set (dIndex d') \<subseteq> set (dIndex d)" using d'(4) by (auto simp: set_delete)
    have order: "\<forall>p \<in> set (dIndex d) - set (dIndex d'). \<forall>q \<in> set (dIndex d').
       ieStoredAt (snd p) \<le> ieStoredAt (snd q)"
    proof (intro ballI)
      fix p q assume p: "p \<in> set (dIndex d) - set (dIndex d')" and q: "q \<in> set (dIndex d')"
      show "ieStoredAt (snd p) \<le> ieStoredAt (snd q)"
      proof (cases "p \<in> set (dIndex ?d)")
        case True
        then show ?thesis using p q d'(6) by blast
      next
        case False
        then have "snd p = ie" using p removed_entry [OF less.prems e(1), of p] by simp
        then show ?thesis using q e(3) sub by auto
      qed
    qed
    have "fst q \<noteq> key" if "q \<in> set (dIndex d')" for q
      using that d'(4) by (auto simp: set_delete)
    then have "\<forall>q \<in> set (dIndex d'). dMeta d' (sha (fst q)) = dMeta d (sha (fst q)) \<and>
         dBody d' (sha (fst q)) = dBody d (sha (fst q))"
      using d'(7) removeEntry_frame [OF less.prems assms(2) e(1)] by metis
    then show ?thesis using loop d'(2,3,5) sub order by blast
  qed
qed

section \<open>Stores on disk\<close>

definition env_fine :: "disk_env \<Rightarrow> bool" where
  "env_fine env \<longleftrightarrow> deMkdir env \<and> deMarshal env \<and> deWriteBody env \<and> deWriteMeta env"

text \<open>The response an indexed key has on disk.\<close>

definition disk_lookup :: "DiskCache \<Rightarrow> string \<Rightarrow> cacheEntry option" where
  "disk_lookup d key =
     (case map_of (dIndex d) key of
        None \<Rightarrow> None
      | Some ie \<Rightarrow> (case (dMeta d (ieHash ie), dBody d (ieHash ie)) of
          (Some (Meta m), Some b) \<Rightarrow> Some (mk_entry (mStoredAt m) key b (mStatusCode m) (mHeaders m) (mTTL m))
        | _ \<Rightarrow> None))"

lemma disk_lookup_index:
  assumes "disk_inv sha d" "map_of (dIndex d) key = Some ie"
  obtains m b where "dMeta d (sha key) = Some (Meta m)" "dBody d (sha key) = Some b" "ieHash ie = sha key"
    "ieSize ie = int (length b)"
    "disk_lookup d key = Some (mk_entry (mStoredAt m) key b (mStatusCode m) (mHeaders m) (mTTL m))"
proof -
  have "file_ok sha d (key, ie)"
    using assms map_of_SomeD [OF assms(2)] by (auto simp: disk_inv_def)
  then show thesis using assms(2) by (auto simp: file_ok_def disk_lookup_def intro: that)
qed

lemma disk_lookup_cong:
  assumes "disk_inv sha d" "map_of (dIndex d') key = map_of (dIndex d) key"
    and "dMeta d' (sha key) = dMeta d (sha key)" "dBody d' (sha key) = dBody d (sha key)"
  shows "disk_lookup d' key = disk_lookup d key"
  using assms index_hash [OF assms(1), of key]
  by (auto simp: disk_lookup_def split: option.splits)

lemma disk_lookup_None: "map_of (dIndex d) key = None \<Longrightarrow> disk_lookup d key = None"
  by (simp add: disk_lookup_def)

lemma disk_lookup_removeEntry:
  assumes "disk_inv sha d" "inj sha" "map_of (dIndex d) key = Some ie"
  shows "disk_lookup (removeEntryLocked env key ie d) k = (if k = key then None else disk_lookup d k)"
proof (cases "k = key")
  case True
  then show ?thesis by (simp add: disk_lookup_def delete_conv)
next
  case False
  then show ?thesis
    using disk_lookup_cong [OF assms(1), of "removeEntryLocked env key ie d" k]
      removeEntry_frame [OF assms False] by (simp add: delete_conv)
qed

text \<open>What a store does before it writes: drop the old entry, then make room.\<close>

definition make_room :: "disk_env \<Rightarrow> int \<Rightarrow> string \<Rightarrow> DiskCache \<Rightarrow> DiskCache option" where
  "make_room env n key d =
     disk_evict_loop env n (case map_of (dIndex d) key of
        Some ie \<Rightarrow> removeEntryLocked env key ie d | None \<Rightarrow> d)"

lemma make_room_ok:
  assumes "disk_inv sha d" "inj sha" "env_ok env"
  shows "\<exists>d'. make_room env n key d = Some d' \<and> disk_inv sha d' \<and> dMaxBytes d' = dMaxBytes d \<and>
    set (dIndex d') \<subseteq> set (dIndex d) \<and> key \<notin> fst ` set (dIndex d') \<and>
    (dUsedBytes d' + n \<le> dMaxBytes d \<or> dIndex d' = []) \<and>
    (\<forall>p \<in> set (dIndex d) - set (dIndex d'). fst p \<noteq> key \<longrightarrow>
       (\<forall>q \<in> set (dIndex d'). ieStoredAt (snd p) \<le> ieStoredAt (snd q))) \<and>
    (\<forall>k. disk_lookup d' k = None \<or> disk_lookup d' k = disk_lookup d k)"
proof -
  define d0 where "d0 = (case map_of (dIndex d) key of
        Some ie \<Rightarrow> removeEntryLocked env key ie d | None \<Rightarrow> d)"
  have d0: "disk_inv sha d0" "dMaxBytes d0 = dMaxBytes d" "set (dIndex d0) = {p \<in> set (dIndex d). fst p \<noteq> key}"
    using assms disk_inv_removeEntry
    by (auto simp: d0_def set_delete dest: map_of_SomeD split: option.splits)
      (force simp: map_of_eq_None_iff)
  have look0: "disk_lookup d0 k = None \<or> disk_lookup d0 k = disk_lookup d k" for k
    using disk_lookup_removeEntry [OF assms(1,2)] by (auto simp: d0_def split: option.splits)
  obtain d' where d': "disk_evict_loop env n d0 = Some d'" "disk_inv sha d'"
    "dMaxBytes d' = dMaxBytes d0" "set (dIndex d') \<subseteq> set (dIndex d0)"
    "dUsedBytes d' + n \<le> dMaxBytes d0 \<or> dIndex d' = []"
    "\<forall>p \<in> set (dIndex d0) - set (dIndex d'). \<forall>q \<in> set (dIndex d').
       ieStoredAt (snd p) \<le> ieStoredAt (snd q)"
    "\<forall>q \<in> set (dIndex d'). dMeta d' (sha (fst q)) = dMeta d0 (sha (fst q)) \<and>
       dBody d' (sha (fst q)) = dBody d0 (sha (fst q))"
    using disk_evict_loop_ok [OF d0(1) assms(2,3)] by blast
  have "disk_lookup d' k = None \<or> disk_lookup d' k = disk_lookup d0 k" for k
  proof (cases "map_of (dIndex d') k")
    case (Some ie)
    then have in': "(k, ie) \<in> set (dIndex d')" by (rule map_of_SomeD)
    then have "map_of (dIndex d0) k = Some ie" using d'(4) d0(1) by (auto simp: disk_inv_def)
    then show ?thesis
      using disk_lookup_cong [OF d0(1), of d' k] d'(7) in' Some by force
  qed (simp add: disk_lookup_None)
  then have "disk_lookup d' k = None \<or> disk_lookup d' k = disk_lookup d k" for k
    using look0 by metis
  moreover have "make_room env n key d = Some d'" using d'(1) by (simp add: make_room_def d0_def)
  moreover have "key \<notin> fst ` set (dIndex d')" using d'(4) d0(3) by auto
  ultimately show ?thesis using d' d0 by auto
qed

text \<open>Writing the files of a key that is not indexed is invisible.\<close>

definition with_files :: "string \<Rightarrow> string option \<Rightarrow> metafile option \<Rightarrow> DiskCache \<Rightarrow> DiskCache" where
  "with_files hash b m d = d\<lparr>dBody := (dBody d)(hash := b), dMeta := (dMeta d)(hash := m)\<rparr>"

lemma with_files_simps [simp]:
  "dIndex (with_files hash b m d) = dIndex d" "dUsedBytes (with_files hash b m d) = dUsedBytes d"
  "dMaxBytes (with_files hash b m d) = dMaxBytes d"
  "dBody (with_files hash b m d) = (dBody d)(hash := b)"
  "dMeta (with_files hash b m d) = (dMeta d)(hash := m)"
  by (simp_all add: with_files_def)

lemma with_files_same: "with_files hash (dBody d hash) (dMeta d hash) d = d"
  by (simp add: with_files_def)

lemma disk_inv_with_files:
  assumes "disk_inv sha d" "inj sha" "key \<notin> fst ` set (dIndex d)"
  shows "disk_inv sha (with_files (sha key) b m d)"
proof -
  have "file_ok sha (with_files (sha key) b m d) p" if "p \<in> set (dIndex d)" for p
  proof -
    have "fst p \<noteq> key" using that assms(3) by auto
    then have "sha (fst p) \<noteq> sha key" using assms(2) by (auto dest: injD)
    then show ?thesis using assms(1) that by (simp add: file_ok_def disk_inv_def)
  qed
  then show ?thesis using assms(1) by (simp add: disk_inv_def)
qed

lemma disk_lookup_with_files:
  assumes "disk_inv sha d" "inj sha" "key \<notin> fst ` set (dIndex d)"
  shows "disk_lookup (with_files (sha key) b m d) k = disk_lookup d k"
proof (cases "k = key")
  case True
  then have "map_of (dIndex d) k = None" using assms(3) by (simp add: map_of_eq_None_iff)
  then show ?thesis by (simp add: disk_lookup_def)
next
  case False
  then have "sha k \<noteq> sha key" using assms(2) by (auto dest: injD)
  then show ?thesis by (intro disk_lookup_cong [OF assms(1)]) simp_all
qed

definition add_entry :: "(string \<Rightarrow> string) \<Rightarrow> Time \<Rightarrow> string \<Rightarrow> string \<Rightarrow> int \<Rightarrow> Header \<Rightarrow> Duration
   \<Rightarrow> DiskCache \<Rightarrow> DiskCache" where
  "add_entry sha now key body sc hs ttl d =
     (with_files (sha key) (Some body)
        (Some (Meta \<lparr>mKey = key, mStatusCode = sc, mHeaders = hs, mStoredAt = now, mTTL = ttl,
                     mBodySize = int (length body)\<rparr>)) d)
     \<lparr>dIndex := AList.update key \<lparr>ieHash = sha key, ieStoredAt = now, ieSize = int (length body)\<rparr> (dIndex d),
      dUsedBytes := dUsedBytes d + int (length body)\<rparr>"

lemma disk_inv_add_entry:
  assumes "disk_inv sha d" "inj sha" "key \<notin> fst ` set (dIndex d)" "key \<noteq> ''''"
  shows "disk_inv sha (add_entry sha now key body sc hs ttl d)"
proof -
  let ?d = "add_entry sha now key body sc hs ttl d"
  let ?ie = "\<lparr>ieHash = sha key, ieStoredAt = now, ieSize = int (length body)\<rparr>"
  have none: "map_of (dIndex d) key = None" using assms(3) by (simp add: map_of_eq_None_iff)
  have idx: "dIndex ?d = dIndex d @ [(key, ?ie)]"
    using update_absent [OF none] by (simp add: add_entry_def)
  have "file_ok sha ?d p" if "p \<in> set (dIndex d)" for p
  proof -
    have "fst p \<noteq> key" using that assms(3) by auto
    then have "sha (fst p) \<noteq> sha key" using assms(2) by (auto dest: injD)
    then show ?thesis using assms(1) that by (simp add: file_ok_def disk_inv_def add_entry_def)
  qed
  moreover have "file_ok sha ?d (key, ?ie)" using assms(4) by (simp add: file_ok_def add_entry_def)
  moreover have "dUsedBytes ?d = sizes (dIndex ?d)"
    using assms(1) unfolding idx by (simp add: disk_inv_def sizes_def add_entry_def)
  ultimately show ?thesis using assms(1,3) unfolding disk_inv_def idx by auto
qed

lemma disk_lookup_add_entry:
  assumes "disk_inv sha d" "inj sha" "key \<notin> fst ` set (dIndex d)"
  shows "disk_lookup (add_entry sha now key body sc hs ttl d) k =
    (if k = key then Some (mk_entry now key body sc hs ttl) else disk_lookup d k)"
proof (cases "k = key")
  case True
  then show ?thesis by (simp add: disk_lookup_def add_entry_def update_conv)
next
  case False
  then have "sha k \<noteq> sha key" using assms(2) by (auto dest: injD)
  then show ?thesis
    using False disk_lookup_cong [OF assms(1), of "add_entry sha now key body sc hs ttl d" k]
    by (simp add: add_entry_def update_conv)
qed

lemma Disk_Put_cases:
  "Disk_Put sha env now key body sc hs ttl d =
     (if \<not> cacheable sc hs then Some d
      else map_option (\<lambda>d. if env_fine env then add_entry sha now key body sc hs ttl d
             else with_files (sha key)
               (if \<not> deMkdir env \<or> \<not> deMarshal env then dBody d (sha key)
                else if \<not> deWriteBody env then deBodyLeft env
                else if deRemove env then None else Some body)
               (if \<not> deMkdir env \<or> \<not> deMarshal env \<or> \<not> deWriteBody env then dMeta d (sha key)
                else deMetaLeft env) d)
           (make_room env (int (length body)) key d))"
  by (auto simp: Disk_Put_def make_room_def cacheable_iff Let_def env_fine_def with_files_def
      add_entry_def split: option.split)

definition fits :: "DiskCache \<Rightarrow> bool" where
  "fits d \<longleftrightarrow> dUsedBytes d \<le> dMaxBytes d \<or> length (dIndex d) \<le> 1"

lemma Disk_Put_sim:
  assumes "disk_inv sha d" "inj sha" "env_ok env" "key \<noteq> ''''"
  shows "\<exists>d'. Disk_Put sha env now key body sc hs ttl d = Some d' \<and>
    disk_inv sha d' \<and> dMaxBytes d' = dMaxBytes d \<and> (fits d \<longrightarrow> fits d') \<and>
    (\<forall>k. k \<noteq> key \<longrightarrow> disk_lookup d' k = None \<or> disk_lookup d' k = disk_lookup d k) \<and>
    disk_lookup d' key = (if \<not> cacheable sc hs then disk_lookup d key
                          else if env_fine env then Some (mk_entry now key body sc hs ttl) else None)"
proof (cases "cacheable sc hs")
  case False
  then show ?thesis using assms(1) by (simp add: Disk_Put_cases)
next
  case cable: True
  let ?n = "int (length body)"
  obtain r where r: "make_room env ?n key d = Some r" "disk_inv sha r" "dMaxBytes r = dMaxBytes d"
    "key \<notin> fst ` set (dIndex r)" "dUsedBytes r + ?n \<le> dMaxBytes d \<or> dIndex r = []"
    "\<And>k. disk_lookup r k = None \<or> disk_lookup r k = disk_lookup d k"
    using make_room_ok [OF assms(1-3), of ?n key] by blast
  have none: "map_of (dIndex r) key = None" using r(4) by (simp add: map_of_eq_None_iff)
  show ?thesis
  proof (cases "env_fine env")
    case True
    let ?d = "add_entry sha now key body sc hs ttl r"
    have "fits ?d"
      using r(3,5) update_absent [OF none] by (auto simp: fits_def add_entry_def)
    then show ?thesis
      using True cable r disk_inv_add_entry [OF r(2) assms(2) r(4) assms(4)]
        disk_lookup_add_entry [OF r(2) assms(2) r(4)]
      by (simp add: Disk_Put_cases) (simp add: add_entry_def)
  next
    case False
    have "fits (with_files h b m r)" for h b m using r(3,5) by (auto simp: fits_def)
    then show ?thesis
      using False cable r(1,3,6) disk_inv_with_files [OF r(2) assms(2) r(4)]
        disk_lookup_with_files [OF r(2) assms(2) r(4)] disk_lookup_None [OF none]
      by (simp add: Disk_Put_cases)
  qed
qed

lemma disk_inv_counters [simp]:
  "disk_inv sha (d\<lparr>dHits := n\<rparr>) = disk_inv sha d" "disk_inv sha (d\<lparr>dMisses := n\<rparr>) = disk_inv sha d"
  "disk_lookup (d\<lparr>dHits := n\<rparr>) = disk_lookup d" "disk_lookup (d\<lparr>dMisses := n\<rparr>) = disk_lookup d"
  "fits (d\<lparr>dHits := n\<rparr>) = fits d" "fits (d\<lparr>dMisses := n\<rparr>) = fits d"
  by (simp_all add: disk_inv_def file_ok_def disk_lookup_def fits_def fun_eq_iff split: option.split)

lemma fits_removeEntry:
  assumes "disk_inv sha d" "map_of (dIndex d) key = Some ie" "fits d"
  shows "fits (removeEntryLocked env key ie d)"
proof -
  have "0 \<le> ieSize ie"
    using disk_lookup_index [OF assms(1,2)] by (metis of_nat_0_le_iff)
  then show ?thesis
    using assms(3) length_delete_le [of key "dIndex d"] by (auto simp: fits_def)
qed

lemma Disk_Get_sim:
  assumes "disk_inv sha d" "inj sha" "Disk_Get env now key d = (r, d')"
  shows "disk_inv sha d' \<and> dMaxBytes d' = dMaxBytes d \<and> (fits d \<longrightarrow> fits d') \<and>
    r = (case disk_lookup d key of
           None \<Rightarrow> None
         | Some e \<Rightarrow> if expired now e \<or> \<not> deReadMeta env \<or> \<not> deReadBody env then None else Some e) \<and>
    (\<forall>k. disk_lookup d' k = (if k = key \<and> r = None then None else disk_lookup d k))"
proof (cases "map_of (dIndex d) key")
  case None
  then show ?thesis using assms(1,3) disk_lookup_None [OF None] by (auto simp: Disk_Get_def)
next
  case (Some ie)
  obtain m b where mb: "dMeta d (sha key) = Some (Meta m)" "dBody d (sha key) = Some b" "ieHash ie = sha key"
    "disk_lookup d key = Some (mk_entry (mStoredAt m) key b (mStatusCode m) (mHeaders m) (mTTL m))"
    using disk_lookup_index [OF assms(1) Some] by metis
  have exp: "expired now (mk_entry (mStoredAt m) key b (mStatusCode m) (mHeaders m) (mTTL m)) \<longleftrightarrow>
      mTTL m > 0 \<and> now - mStoredAt m > mTTL m"
    by (auto simp: expired_def mk_entry_def)
  show ?thesis
  proof (cases "r = None")
    case True
    then have "d' = (removeEntryLocked env key ie d)\<lparr>dMisses := dMisses (removeEntryLocked env key ie d) + 1\<rparr>"
      using Some mb assms(3) by (auto simp: Disk_Get_def Let_def split: if_splits option.splits)
    then show ?thesis
      using True Some mb exp assms(3) disk_inv_removeEntry [OF assms(1,2) Some] fits_removeEntry [OF assms(1) Some]
        disk_lookup_removeEntry [OF assms(1,2) Some]
      by (auto simp: Disk_Get_def Let_def split: if_splits)
  next
    case False
    then have "d' = d\<lparr>dHits := dHits d + 1\<rparr>"
      using Some mb assms(3) by (auto simp: Disk_Get_def Let_def split: if_splits option.splits)
    then show ?thesis
      using False Some mb exp assms(1,3)
      by (auto simp: Disk_Get_def Let_def mk_entry_def split: if_splits)
  qed
qed

lemma Disk_Purge_sim: "disk_inv sha (Disk_Purge env d) \<and> disk_lookup (Disk_Purge env d) k = None"
  by (simp add: Disk_Purge_def Let_def disk_inv_def disk_lookup_def sizes_def)

section \<open>The contract of a response cache\<close>

type_synonym response = "string \<times> int \<times> Header"

definition resp :: "cacheEntry \<Rightarrow> response" where
  "resp e = (ceBody e, ceStatusCode e, ceHeaders e)"

datatype 'e backend_op =
    BGet 'e Time string
  | BPut 'e Time string string int Header Duration
  | BPurge 'e

text \<open>The methods of \<open>CacheBackend\<close> in sequence; a lookup reports the response it found.\<close>

fun backend_run ::
  "('e \<Rightarrow> Time \<Rightarrow> string \<Rightarrow> 's \<Rightarrow> (cacheEntry option \<times> 's) option) \<Rightarrow>
   ('e \<Rightarrow> Time \<Rightarrow> string \<Rightarrow> string \<Rightarrow> int \<Rightarrow> Header \<Rightarrow> Duration \<Rightarrow> 's \<Rightarrow> 's option) \<Rightarrow>
   ('e \<Rightarrow> 's \<Rightarrow> 's) \<Rightarrow> 'e backend_op list \<Rightarrow> 's \<Rightarrow> (response option list \<times> 's) option" where
  "backend_run get put purge [] s = Some ([], s)"
| "backend_run get put purge (BGet e now k # ops) s =
     (case get e now k s of None \<Rightarrow> None
      | Some (r, s') \<Rightarrow> map_option (\<lambda>(rs, s''). (map_option resp r # rs, s''))
                          (backend_run get put purge ops s'))"
| "backend_run get put purge (BPut e now k b sc hs ttl # ops) s =
     (case put e now k b sc hs ttl s of None \<Rightarrow> None
      | Some s' \<Rightarrow> map_option (\<lambda>(rs, s''). (None # rs, s'')) (backend_run get put purge ops s'))"
| "backend_run get put purge (BPurge e # ops) s =
     map_option (\<lambda>(rs, s''). (None # rs, s'')) (backend_run get put purge ops (purge e s))"

text \<open>
  Every response reported for a key was stored under that key by a store since
  the last purge, \<open>P\<close> being the responses stored before the sequence starts.
\<close>

fun hits_sound :: "(string \<Rightarrow> response set) \<Rightarrow> 'e backend_op list \<Rightarrow> response option list \<Rightarrow> bool" where
  "hits_sound P [] rs = (rs = [])"
| "hits_sound P (BGet e now k # ops) rs =
     (case rs of [] \<Rightarrow> False | r # rs' \<Rightarrow> set_option r \<subseteq> P k \<and> hits_sound P ops rs')"
| "hits_sound P (BPut e now k b sc hs ttl # ops) rs =
     (case rs of [] \<Rightarrow> False
      | r # rs' \<Rightarrow> r = None \<and>
          hits_sound (if cacheable sc hs then P(k := insert (b, sc, hs) (P k)) else P) ops rs')"
| "hits_sound P (BPurge e # ops) rs =
     (case rs of [] \<Rightarrow> False | r # rs' \<Rightarrow> r = None \<and> hits_sound (\<lambda>_. {}) ops rs')"

fun op_ok :: "('e \<Rightarrow> bool) \<Rightarrow> 'e backend_op \<Rightarrow> bool" where
  "op_ok good (BGet e now k) = (good e \<and> k \<noteq> '''')"
| "op_ok good (BPut e now k b sc hs ttl) = (good e \<and> k \<noteq> '''')"
| "op_ok good (BPurge e) = good e"

locale response_cache =
  fixes good :: "'e \<Rightarrow> bool"
    and inv :: "'s \<Rightarrow> bool"
    and copies :: "'s \<Rightarrow> string \<Rightarrow> response set"
    and get :: "'e \<Rightarrow> Time \<Rightarrow> string \<Rightarrow> 's \<Rightarrow> (cacheEntry option \<times> 's) option"
    and put :: "'e \<Rightarrow> Time \<Rightarrow> string \<Rightarrow> string \<Rightarrow> int \<Rightarrow> Header \<Rightarrow> Duration \<Rightarrow> 's \<Rightarrow> 's option"
    and purge :: "'e \<Rightarrow> 's \<Rightarrow> 's"
  assumes get_ok: "inv s \<Longrightarrow> good e \<Longrightarrow> k \<noteq> '''' \<Longrightarrow>
      \<exists>r s'. get e now k s = Some (r, s') \<and> inv s' \<and>
             set_option (map_option resp r) \<subseteq> copies s k \<and> copies s' \<le> copies s"
    and put_ok: "inv s \<Longrightarrow> good e \<Longrightarrow> k \<noteq> '''' \<Longrightarrow>
      \<exists>s'. put e now k b sc hs ttl s = Some s' \<and> inv s' \<and>
           copies s' \<le> (if cacheable sc hs then (copies s)(k := insert (b, sc, hs) (copies s k)) else copies s)"
    and purge_ok: "inv s \<Longrightarrow> good e \<Longrightarrow> inv (purge e s) \<and> copies (purge e s) \<le> (\<lambda>_. {})"
begin

lemma run_sound:
  assumes "inv s" "\<forall>op \<in> set ops. op_ok good op" "copies s \<le> P"
  shows "\<exists>rs s'. backend_run get put purge ops s = Some (rs, s') \<and> inv s' \<and> hits_sound P ops rs"
  using assms
proof (induction ops arbitrary: s P)
  case (Cons op ops)
  show ?case
  proof (cases op)
    case (BGet e now k)
    obtain r s' where g: "get e now k s = Some (r, s')" "inv s'"
      "set_option (map_option resp r) \<subseteq> copies s k" "copies s' \<le> copies s"
      using get_ok [OF Cons.prems(1), of e k now] Cons.prems(2) BGet by auto
    then have "copies s' \<le> P" using Cons.prems(3) by order
    from Cons.IH [OF g(2) _ this] Cons.prems(2) obtain rs s''
      where "backend_run get put purge ops s' = Some (rs, s'')" "inv s''" "hits_sound P ops rs" by auto
    moreover have "set_option (map_option resp r) \<subseteq> P k" using g(3) Cons.prems(3) by (auto simp: le_fun_def)
    ultimately show ?thesis using BGet g(1) by simp
  next
    case (BPut e now k b sc hs ttl)
    let ?up = "\<lambda>P. if cacheable sc hs then P(k := insert (b, sc, hs) (P k)) else P"
    obtain s' where p: "put e now k b sc hs ttl s = Some s'" "inv s'" "copies s' \<le> ?up (copies s)"
      using put_ok [OF Cons.prems(1), of e k now b sc hs ttl] Cons.prems(2) BPut by auto
    moreover have "?up (copies s) \<le> ?up P" using Cons.prems(3) by (auto simp: le_fun_def)
    ultimately have "copies s' \<le> ?up P" by order
    from Cons.IH [OF p(2) _ this] Cons.prems(2) obtain rs s''
      where "backend_run get put purge ops s' = Some (rs, s'')" "inv s''" "hits_sound (?up P) ops rs" by auto
    then show ?thesis using BPut p(1) by simp
  next
    case (BPurge e)
    then have "inv (purge e s)" "copies (purge e s) \<le> (\<lambda>_. {})"
      using purge_ok [OF Cons.prems(1), of e] Cons.prems(2) by auto
    from Cons.IH [OF this(1) _ this(2)] Cons.prems(2) BPurge show ?thesis by auto
  qed
qed simp

end

section \<open>The three backends satisfy the contract\<close>

lemma dllseg_unique: "dllseg h p s xs q None \<Longrightarrow> dllseg h p s ys q' None \<Longrightarrow> xs = ys"
proof (induction xs arbitrary: p s ys)
  case Nil
  then show ?case by (cases ys) auto
next
  case (Cons x xs)
  then show ?case by (cases ys) (auto split: option.splits)
qed

lemma represents_unique: "represents c xs \<Longrightarrow> represents c ys \<Longrightarrow> xs = ys"
  unfolding represents_def linked_def using dllseg_unique by blast

definition copies_of :: "cacheEntry list \<Rightarrow> string \<Rightarrow> response set" where
  "copies_of xs k = resp ` {e \<in> set xs. ceKey e = k}"

definition mem_inv :: "Cache \<Rightarrow> bool" where
  "mem_inv c \<longleftrightarrow> (\<exists>xs. represents c xs \<and> (\<forall>e \<in> set xs. ceKey e \<noteq> ''''))"

definition mem_copies :: "Cache \<Rightarrow> string \<Rightarrow> response set" where
  "mem_copies c k = (\<Union>xs \<in> {xs. represents c xs}. copies_of xs k)"

lemma mem_copies_eq:
  assumes "represents c xs"
  shows "mem_copies c = copies_of xs"
proof -
  have "{ys. represents c ys} = {xs}" using assms represents_unique by blast
  then show ?thesis by (simp add: mem_copies_def fun_eq_iff)
qed

text \<open>\<open>Cache\<close> as a backend: a lookup reports what the pointer it returns points to.\<close>

definition mem_get :: "unit \<Rightarrow> Time \<Rightarrow> string \<Rightarrow> Cache \<Rightarrow> (cacheEntry option \<times> Cache) option" where
  "mem_get e now k c = (let (r, c') = Cache_Get now k c in Some (map_option (\<lambda>r. erase (deref c' r)) r, c'))"

definition mem_store :: "unit \<Rightarrow> Time \<Rightarrow> string \<Rightarrow> string \<Rightarrow> int \<Rightarrow> Header \<Rightarrow> Duration \<Rightarrow> Cache \<Rightarrow> Cache option" where
  "mem_store e now k b sc hs ttl c = map_option snd (Cache_Put now k b sc hs ttl c)"

lemma lru_get_sound:
  "set (snd (lru_get now k xs)) \<subseteq> set xs"
  "fst (lru_get now k xs) = Some e \<Longrightarrow> e \<in> set xs \<and> ceKey e = k \<and> \<not> expired now e"
  by (auto simp: lru_get_def lru_remove_def split: option.splits if_splits dest: find_SomeD)

lemma lru_put_sound:
  "set (snd (lru_put cap now k b sc hs ttl xs)) \<subseteq>
     (if cacheable sc hs then insert (mk_entry now k b sc hs ttl) (set xs) else set xs)"
  "set (fst (lru_put cap now k b sc hs ttl xs)) \<subseteq> set xs"
  by (auto simp: lru_put_def lru_remove_def Let_def dest: in_set_takeD in_set_dropD)

lemma copies_of_mono: "set xs \<subseteq> set ys \<Longrightarrow> copies_of xs \<le> copies_of ys"
  by (auto simp: copies_of_def le_fun_def)

lemma copies_of_insert:
  assumes "set ys \<subseteq> insert (mk_entry now k b sc hs ttl) (set xs)"
  shows "copies_of ys \<le> (copies_of xs)(k := insert (b, sc, hs) (copies_of xs k))"
proof (intro le_funI subsetI)
  fix k' r assume "r \<in> copies_of ys k'"
  then obtain e where e: "e \<in> set ys" "ceKey e = k'" "r = resp e" by (auto simp: copies_of_def)
  show "r \<in> ((copies_of xs)(k := insert (b, sc, hs) (copies_of xs k))) k'"
  proof (cases "e = mk_entry now k b sc hs ttl")
    case True
    then show ?thesis using e by (auto simp: resp_def mk_entry_def)
  next
    case False
    then show ?thesis using e assms by (auto simp: copies_of_def)
  qed
qed

lemma mem_get_sim:
  assumes "mem_inv c"
  shows "\<exists>r c'. mem_get e now k c = Some (r, c') \<and> mem_inv c' \<and>
         set_option (map_option resp r) \<subseteq> mem_copies c k \<and> mem_copies c' \<le> mem_copies c"
proof -
  obtain xs where xs: "represents c xs" "\<forall>e \<in> set xs. ceKey e \<noteq> ''''" using assms by (auto simp: mem_inv_def)
  let ?c = "snd (Cache_Get now k c)" and ?xs = "snd (lru_get now k xs)"
  note sim = Cache_Get_sim [OF xs(1), of now k]
  have get: "mem_get e now k c = Some (fst (lru_get now k xs), ?c)"
    using sim by (simp add: mem_get_def split_beta Let_def)
  have "mem_inv ?c" using sim xs(2) lru_get_sound(1) [of now k xs] by (auto simp: mem_inv_def)
  moreover have "set_option (map_option resp (fst (lru_get now k xs))) \<subseteq> mem_copies c k"
  proof (cases "fst (lru_get now k xs)")
    case (Some x)
    have "resp x \<in> copies_of xs k" using lru_get_sound(2) [OF Some] by (simp add: copies_of_def)
    then show ?thesis using Some mem_copies_eq [OF xs(1)] by simp
  qed simp
  moreover have "mem_copies ?c \<le> mem_copies c"
    using sim mem_copies_eq [OF xs(1)] mem_copies_eq [of ?c ?xs] copies_of_mono [OF lru_get_sound(1)]
    by simp
  ultimately show ?thesis using get by blast
qed

text \<open>The same for a store, with the evicted entries that go to the callback.\<close>

lemma mem_put_sim:
  assumes "mem_inv c" "k \<noteq> ''''"
  shows "\<exists>ev c'. Cache_Put now k b sc hs ttl c = Some (ev, c') \<and> mem_inv c' \<and>
         mem_copies c' \<le> (if cacheable sc hs then (mem_copies c)(k := insert (b, sc, hs) (mem_copies c k))
                          else mem_copies c) \<and>
         (\<forall>e \<in> set ev. ceKey e \<noteq> '''' \<and> resp e \<in> mem_copies c (ceKey e))"
proof -
  obtain xs where xs: "represents c xs" "\<forall>e \<in> set xs. ceKey e \<noteq> ''''" using assms by (auto simp: mem_inv_def)
  let ?p = "lru_put (nat (cMaxEntries c)) now k b sc hs ttl xs"
  obtain c' where c': "Cache_Put now k b sc hs ttl c = Some (fst ?p, c')" "represents c' (snd ?p)"
    using Cache_Put_sim [OF xs(1)] by blast
  note sub = lru_put_sound [where cap = "nat (cMaxEntries c)" and now = now and k = k and b = b
      and sc = sc and hs = hs and ttl = ttl and xs = xs]
  have "\<forall>e \<in> set (snd ?p). ceKey e \<noteq> ''''"
    using sub(1) xs(2) assms(2) by (auto simp: mk_entry_def split: if_splits)
  then have "mem_inv c'" using c'(2) by (auto simp: mem_inv_def)
  moreover have "mem_copies c' \<le> (if cacheable sc hs
      then (mem_copies c)(k := insert (b, sc, hs) (mem_copies c k)) else mem_copies c)"
    using sub(1) copies_of_insert [of "snd ?p" now k b sc hs ttl xs] copies_of_mono [of "snd ?p" xs]
    unfolding mem_copies_eq [OF c'(2)] mem_copies_eq [OF xs(1)] by (cases "cacheable sc hs") simp_all
  moreover have "\<forall>e \<in> set (fst ?p). ceKey e \<noteq> '''' \<and> resp e \<in> mem_copies c (ceKey e)"
    using sub(2) xs(2) unfolding mem_copies_eq [OF xs(1)] by (auto simp: copies_of_def)
  ultimately show ?thesis using c'(1) by blast
qed

interpretation memory_cache: response_cache "\<lambda>_. True" mem_inv mem_copies mem_get mem_store "\<lambda>_. Cache_Purge"
proof
  show "\<exists>r s'. mem_get e now k s = Some (r, s') \<and> mem_inv s' \<and>
      set_option (map_option resp r) \<subseteq> mem_copies s k \<and> mem_copies s' \<le> mem_copies s"
    if "mem_inv s" for s e k now using mem_get_sim [OF that] .
  show "\<exists>s'. mem_store e now k b sc hs ttl s = Some s' \<and> mem_inv s' \<and> mem_copies s' \<le>
      (if cacheable sc hs then (mem_copies s)(k := insert (b, sc, hs) (mem_copies s k)) else mem_copies s)"
    if "mem_inv s" "k \<noteq> ''''" for s k e now b sc hs ttl
    using mem_put_sim [OF that, of now b sc hs ttl] by (auto simp: mem_store_def)
  show "mem_inv (Cache_Purge s) \<and> mem_copies (Cache_Purge s) \<le> (\<lambda>_. {})" if "mem_inv s" for s
  proof -
    have "represents (Cache_Purge s) []" using that represents_purge by (auto simp: mem_inv_def)
    then show ?thesis using mem_copies_eq by (auto simp: mem_inv_def copies_of_def le_fun_def)
  qed
qed

definition disk_copies :: "DiskCache \<Rightarrow> string \<Rightarrow> response set" where
  "disk_copies d k = resp ` set_option (disk_lookup d k)"

lemma disk_copies_le:
  "(\<And>k. disk_lookup d' k = None \<or> disk_lookup d' k = disk_lookup d k) \<Longrightarrow> disk_copies d' \<le> disk_copies d"
  unfolding disk_copies_def le_fun_def by (metis empty_subsetI image_empty option.simps(14) order_refl)

lemma disk_put_copies:
  assumes "disk_inv sha d" "inj sha" "env_ok env" "k \<noteq> ''''"
  shows "\<exists>d'. Disk_Put sha env now k b sc hs ttl d = Some d' \<and> disk_inv sha d' \<and>
     disk_copies d' \<le> (if cacheable sc hs then (disk_copies d)(k := insert (b, sc, hs) (disk_copies d k))
                       else disk_copies d)"
proof -
  obtain d' where d': "Disk_Put sha env now k b sc hs ttl d = Some d'" "disk_inv sha d'"
    "\<And>k'. k' \<noteq> k \<Longrightarrow> disk_lookup d' k' = None \<or> disk_lookup d' k' = disk_lookup d k'"
    "disk_lookup d' k = (if \<not> cacheable sc hs then disk_lookup d k
       else if env_fine env then Some (mk_entry now k b sc hs ttl) else None)"
    using Disk_Put_sim [OF assms] by blast
  have other: "disk_copies d' k' \<subseteq> disk_copies d k'" if "k' \<noteq> k" for k'
    using d'(3) [OF that] by (auto simp: disk_copies_def)
  have same: "disk_copies d' k \<subseteq> (if cacheable sc hs then insert (b, sc, hs) (disk_copies d k) else disk_copies d k)"
    using d'(4) by (auto simp: disk_copies_def resp_def mk_entry_def)
  have "disk_copies d' \<le> (if cacheable sc hs then (disk_copies d)(k := insert (b, sc, hs) (disk_copies d k))
                       else disk_copies d)"
  proof (rule le_funI)
    fix k'
    show "disk_copies d' k' \<le> (if cacheable sc hs
        then (disk_copies d)(k := insert (b, sc, hs) (disk_copies d k)) else disk_copies d) k'"
      using other [of k'] same by (cases "k' = k"; cases "cacheable sc hs") simp_all
  qed
  then show ?thesis using d'(1,2) by blast
qed

definition disk_get_some ::
  "disk_env \<Rightarrow> Time \<Rightarrow> string \<Rightarrow> DiskCache \<Rightarrow> (cacheEntry option \<times> DiskCache) option" where
  "disk_get_some env now k d = Some (Disk_Get env now k d)"

lemma disk_get_copies:
  assumes "disk_inv sha d" "inj sha"
  shows "disk_inv sha (snd (Disk_Get env now k d)) \<and> (fits d \<longrightarrow> fits (snd (Disk_Get env now k d))) \<and>
    set_option (map_option resp (fst (Disk_Get env now k d))) \<subseteq> disk_copies d k \<and>
    disk_copies (snd (Disk_Get env now k d)) \<le> disk_copies d"
proof -
  note sim = Disk_Get_sim [OF assms, of env now k "fst (Disk_Get env now k d)" "snd (Disk_Get env now k d)"]
  have "disk_copies (snd (Disk_Get env now k d)) \<le> disk_copies d"
    using sim by (intro disk_copies_le) auto
  moreover have "set_option (map_option resp (fst (Disk_Get env now k d))) \<subseteq> disk_copies d k"
    using sim by (auto simp: disk_copies_def split: option.splits if_splits)
  ultimately show ?thesis using sim by simp
qed

interpretation disk_cache: response_cache env_ok "\<lambda>d. disk_inv sha d \<and> inj sha \<and> fits d" disk_copies
  disk_get_some "Disk_Put sha" Disk_Purge
  for sha
proof
  show "\<exists>r s'. disk_get_some e now k s = Some (r, s') \<and> (disk_inv sha s' \<and> inj sha \<and> fits s') \<and>
      set_option (map_option resp r) \<subseteq> disk_copies s k \<and> disk_copies s' \<le> disk_copies s"
    if "disk_inv sha s \<and> inj sha \<and> fits s" for s e k now
    using disk_get_copies [of sha s e now k] that
    by (intro exI [of _ "fst (Disk_Get e now k s)"] exI [of _ "snd (Disk_Get e now k s)"])
      (simp add: disk_get_some_def)
  show "\<exists>s'. Disk_Put sha e now k b sc hs ttl s = Some s' \<and> (disk_inv sha s' \<and> inj sha \<and> fits s') \<and>
      disk_copies s' \<le> (if cacheable sc hs
         then (disk_copies s)(k := insert (b, sc, hs) (disk_copies s k)) else disk_copies s)"
    if "disk_inv sha s \<and> inj sha \<and> fits s" "env_ok e" "k \<noteq> ''''" for s e k now b sc hs ttl
    using disk_put_copies [of sha s e k now b sc hs ttl] Disk_Put_sim [of sha s e k now b sc hs ttl] that
    by auto
  show "(disk_inv sha (Disk_Purge e s) \<and> inj sha \<and> fits (Disk_Purge e s)) \<and>
      disk_copies (Disk_Purge e s) \<le> (\<lambda>_. {})"
    if "disk_inv sha s \<and> inj sha \<and> fits s" for s e
    using that Disk_Purge_sim [of sha e s] by (auto simp: disk_copies_def le_fun_def Disk_Purge_def Let_def fits_def)
qed

definition hybrid_inv :: "(string \<Rightarrow> string) \<Rightarrow> HybridCache \<Rightarrow> bool" where
  "hybrid_inv sha h \<longleftrightarrow> mem_inv (hMemory h) \<and> disk_inv sha (hDisk h) \<and> inj sha"

definition hybrid_copies :: "HybridCache \<Rightarrow> string \<Rightarrow> response set" where
  "hybrid_copies h k = mem_copies (hMemory h) k \<union> disk_copies (hDisk h) k"

lemma spill_sim:
  assumes "disk_inv sha d" "inj sha" "env_ok env" "\<forall>e \<in> set es. ceKey e \<noteq> '''' \<and> resp e \<in> P (ceKey e)"
    and "disk_copies d \<le> P"
  shows "\<exists>d'. spill sha env now es d = Some d' \<and> disk_inv sha d' \<and> disk_copies d' \<le> P"
  using assms
proof (induction es arbitrary: d)
  case (Cons e es)
  obtain d1 where d1: "Disk_Put sha env now (ceKey e) (ceBody e) (ceStatusCode e) (ceHeaders e) (ceTTL e) d
      = Some d1" "disk_inv sha d1"
    "disk_copies d1 \<le> (if cacheable (ceStatusCode e) (ceHeaders e)
       then (disk_copies d)(ceKey e := insert (resp e) (disk_copies d (ceKey e))) else disk_copies d)"
    using disk_put_copies [OF Cons.prems(1-3), of "ceKey e"] Cons.prems(4) unfolding resp_def by force
  have "(disk_copies d)(ceKey e := insert (resp e) (disk_copies d (ceKey e))) \<le> P"
    using Cons.prems(4,5) by (auto simp: le_fun_def)
  then have "disk_copies d1 \<le> P" using d1(3) Cons.prems(5) by (auto split: if_splits)
  then show ?case using Cons.IH [OF d1(2) assms(2,3)] Cons.prems(4) d1(1) by simp
qed simp

lemma mem_put_copies:
  assumes "hybrid_inv sha h" "env_ok env" "k \<noteq> ''''"
  shows "\<exists>h'. mem_put sha env now k b sc hs ttl h = Some h' \<and> hybrid_inv sha h' \<and>
    hybrid_copies h' \<le> (if cacheable sc hs then (hybrid_copies h)(k := insert (b, sc, hs) (hybrid_copies h k))
                        else hybrid_copies h)"
proof -
  obtain ev c' where m: "Cache_Put now k b sc hs ttl (hMemory h) = Some (ev, c')" "mem_inv c'"
    "mem_copies c' \<le> (if cacheable sc hs
       then (mem_copies (hMemory h))(k := insert (b, sc, hs) (mem_copies (hMemory h) k))
       else mem_copies (hMemory h))"
    "\<forall>e \<in> set ev. ceKey e \<noteq> '''' \<and> resp e \<in> mem_copies (hMemory h) (ceKey e)"
    using mem_put_sim [of "hMemory h" k now b sc hs ttl] assms by (auto simp: hybrid_inv_def)
  obtain d' where d': "spill sha env now ev (hDisk h) = Some d'" "disk_inv sha d'"
    "disk_copies d' \<le> hybrid_copies h"
    using spill_sim [of sha "hDisk h" env ev "hybrid_copies h" now] assms m(4)
    by (auto simp: hybrid_inv_def hybrid_copies_def le_fun_def)
  have "hybrid_copies (h\<lparr>hMemory := c', hDisk := d'\<rparr>) k' \<subseteq> (if cacheable sc hs
      then (hybrid_copies h)(k := insert (b, sc, hs) (hybrid_copies h k)) else hybrid_copies h) k'" for k'
    using le_funD [OF m(3), of k'] le_funD [OF d'(3), of k']
    by (cases "k' = k"; cases "cacheable sc hs") (simp add: hybrid_copies_def; blast)+
  then show ?thesis
    using m(1,2) d'(1,2) assms(1) by (simp add: mem_put_def hybrid_inv_def le_fun_def)
qed

lemma cacheable_response_cached:
  "\<lbrakk>hybrid_copies h' \<le> (if P then (hybrid_copies h)(k := insert r (hybrid_copies h k)) else hybrid_copies h);
    r \<in> hybrid_copies h k\<rbrakk> \<Longrightarrow> hybrid_copies h' \<le> hybrid_copies h"
  by (simp add: insert_absorb split: if_splits)

lemma hybrid_drop_disk:
  assumes "hybrid_inv sha h" "map_of (dIndex (hDisk h)) k = Some ie"
  shows "hybrid_inv sha (h\<lparr>hDisk := removeEntryLocked env k ie (hDisk h)\<rparr>)"
    and "hybrid_copies (h\<lparr>hDisk := removeEntryLocked env k ie (hDisk h)\<rparr>) \<le> hybrid_copies h"
proof -
  have d: "disk_inv sha (hDisk h)" "inj sha" using assms(1) by (auto simp: hybrid_inv_def)
  show "hybrid_inv sha (h\<lparr>hDisk := removeEntryLocked env k ie (hDisk h)\<rparr>)"
    using assms(1) disk_inv_removeEntry [OF d assms(2)] by (simp add: hybrid_inv_def)
  have "disk_copies (removeEntryLocked env k ie (hDisk h)) \<le> disk_copies (hDisk h)"
    using disk_lookup_removeEntry [OF d assms(2)] by (intro disk_copies_le) simp
  then show "hybrid_copies (h\<lparr>hDisk := removeEntryLocked env k ie (hDisk h)\<rparr>) \<le> hybrid_copies h"
    by (auto simp: hybrid_copies_def le_fun_def)
qed

lemma hybrid_get_sim:
  assumes "hybrid_inv sha h" "env_ok env" "k \<noteq> ''''"
  shows "\<exists>r h'. Hybrid_Get sha env now k h = Some (r, h') \<and> hybrid_inv sha h' \<and>
    set_option (map_option resp r) \<subseteq> hybrid_copies h k \<and> hybrid_copies h' \<le> hybrid_copies h"
proof -
  obtain r c' where g: "Cache_Get now k (hMemory h) = (r, c')" by fastforce
  have m: "mem_inv c'" "set_option (map_option resp (map_option (\<lambda>r. erase (deref c' r)) r)) \<subseteq> mem_copies (hMemory h) k"
    "mem_copies c' \<le> mem_copies (hMemory h)"
    using mem_get_sim [of "hMemory h" "()" now k] assms(1) g by (auto simp: hybrid_inv_def mem_get_def)
  show ?thesis
  proof (cases r)
    case (Some x)
    then show ?thesis
      using g m assms(1) by (auto simp: Hybrid_Get_def hybrid_inv_def hybrid_copies_def le_fun_def)
  next
    case None
    obtain r2 d' where dg: "Disk_Get env now k (hDisk h) = (r2, d')" by fastforce
    note dsim = disk_get_copies [of sha "hDisk h" env now k, unfolded dg fst_conv snd_conv]
    let ?h = "h\<lparr>hMemory := c', hDisk := d'\<rparr>"
    have h1: "hybrid_inv sha ?h" "hybrid_copies ?h \<le> hybrid_copies h"
      using m dsim assms(1) by (auto simp: hybrid_inv_def hybrid_copies_def le_fun_def)
    show ?thesis
    proof (cases r2)
      case r2: None
      have "hybrid_inv sha (?h\<lparr>hMisses := n\<rparr>)" "hybrid_copies (?h\<lparr>hMisses := n\<rparr>) = hybrid_copies ?h" for n
        using h1 by (auto simp: hybrid_inv_def hybrid_copies_def)
      then show ?thesis using g dg None r2 h1 by (simp add: Hybrid_Get_def)
    next
      case (Some e)
      have e: "resp e \<in> disk_copies (hDisk h) k" "disk_lookup d' k = Some e"
        using dsim assms(1) Some Disk_Get_sim [of sha "hDisk h" env now k r2 d'] dg
        by (auto simp: hybrid_inv_def disk_copies_def split: option.splits if_splits)
      then have ek: "resp e \<in> hybrid_copies ?h k" by (auto simp: hybrid_copies_def disk_copies_def)
      obtain h2 where h2: "mem_put sha env now k (ceBody e) (ceStatusCode e) (ceHeaders e) (ceTTL e) ?h
          = Some h2" "hybrid_inv sha h2" "hybrid_copies h2 \<le> hybrid_copies ?h"
        using mem_put_copies [OF h1(1) assms(2,3), of now "ceBody e" "ceStatusCode e" "ceHeaders e" "ceTTL e",
          folded resp_def] cacheable_response_cached [OF _ ek] by blast
      define h3 where "h3 = (case map_of (dIndex (hDisk h2)) k of
          Some ie \<Rightarrow> h2\<lparr>hDisk := removeEntryLocked env k ie (hDisk h2)\<rparr> | None \<Rightarrow> h2)"
      have h3: "hybrid_inv sha h3" "hybrid_copies h3 \<le> hybrid_copies h2"
        using hybrid_drop_disk [OF h2(2), of k] h2(2) by (auto simp: h3_def split: option.splits)
      have "hybrid_inv sha (h3\<lparr>hHits := n\<rparr>)" "hybrid_copies (h3\<lparr>hHits := n\<rparr>) = hybrid_copies h3" for n
        using h3 by (auto simp: hybrid_inv_def hybrid_copies_def)
      moreover have "Hybrid_Get sha env now k h = Some (Some e, h3\<lparr>hHits := hHits h3 + 1\<rparr>)"
        using g dg None Some h2(1) by (simp add: Hybrid_Get_def h3_def Let_def)
      moreover have "hybrid_copies h3 \<le> hybrid_copies h" using h1(2) h2(3) h3(2) by order
      ultimately show ?thesis using h3(1) e(1) by (auto simp: hybrid_copies_def)
    qed
  qed
qed

interpretation hybrid_cache: response_cache env_ok "hybrid_inv sha" hybrid_copies
  "Hybrid_Get sha" "Hybrid_Put sha" Hybrid_Purge
  for sha
proof
  show "\<exists>r s'. Hybrid_Get sha e now k s = Some (r, s') \<and> hybrid_inv sha s' \<and>
      set_option (map_option resp r) \<subseteq> hybrid_copies s k \<and> hybrid_copies s' \<le> hybrid_copies s"
    if "hybrid_inv sha s" "env_ok e" "k \<noteq> ''''" for s e k now
    using hybrid_get_sim [OF that] .
  show "\<exists>s'. Hybrid_Put sha e now k b sc hs ttl s = Some s' \<and> hybrid_inv sha s' \<and>
      hybrid_copies s' \<le> (if cacheable sc hs
         then (hybrid_copies s)(k := insert (b, sc, hs) (hybrid_copies s k)) else hybrid_copies s)"
    if "hybrid_inv sha s" "env_ok e" "k \<noteq> ''''" for s e k now b sc hs ttl
    using mem_put_copies [OF that] unfolding Hybrid_Put_def .
  show "hybrid_inv sha (Hybrid_Purge e s) \<and> hybrid_copies (Hybrid_Purge e s) \<le> (\<lambda>_. {})"
    if "hybrid_inv sha s" for s e
    using that memory_cache.purge_ok [of "hMemory s"] Disk_Purge_sim [of sha e "hDisk s"]
    by (auto simp: hybrid_inv_def hybrid_copies_def Hybrid_Purge_def disk_copies_def le_fun_def)
qed

section \<open>Properties\<close>

definition fine_env :: disk_env where
  "fine_env = \<lparr>deRemove = True, deMkdir = True, deMarshal = True, deWriteBody = True, deBodyLeft = None,
     deWriteMeta = True, deMetaLeft = None, deReadMeta = True, deReadBody = True, deIter = (\<lambda>xs. xs)\<rparr>"

lemma fine_env_ok [simp]: "env_ok fine_env" "env_fine fine_env"
  by (simp_all add: env_ok_def env_fine_def fine_env_def)

lemma new_disk_inv:
  "NewDiskCache True n None Map.empty Map.empty =
     Inr \<lparr>dMaxBytes = n, dUsedBytes = 0, dIndex = [], dHits = 0, dMisses = 0, dBody = Map.empty, dMeta = Map.empty\<rparr>"
  "disk_inv sha \<lparr>dMaxBytes = n, dUsedBytes = 0, dIndex = [], dHits = 0, dMisses = 0, dBody = Map.empty, dMeta = Map.empty\<rparr>"
  by (simp_all add: NewDiskCache_def rebuildIndex_def disk_inv_def sizes_def)



text \<open>
  C28: starting from an empty disk cache, after every sequence of operations the
  byte counter is the sum of the sizes of the indexed bodies, every indexed key
  has its own complete pair of files, and the total stays within the configured
  limit unless a single oversized body is all the cache holds.
\<close>

theorem disk_cache_accounting:
  assumes "inj sha" "\<forall>op \<in> set ops. op_ok env_ok op"
    and "NewDiskCache True maxBytes None Map.empty Map.empty = Inr d"
  shows "\<exists>rs d'. backend_run disk_get_some (Disk_Put sha) Disk_Purge ops d = Some (rs, d') \<and>
     dUsedBytes d' = (\<Sum>p \<leftarrow> dIndex d'. ieSize (snd p)) \<and>
     (\<forall>p \<in> set (dIndex d'). file_ok sha d' p) \<and>
     (dUsedBytes d' \<le> dMaxBytes d' \<or> Disk_Len d' \<le> 1)"
proof -
  have inv: "disk_inv sha d \<and> inj sha \<and> fits d"
    using assms(1,3) new_disk_inv by (auto simp: fits_def)
  obtain rs d' where "backend_run disk_get_some (Disk_Put sha) Disk_Purge ops d = Some (rs, d')"
      "disk_inv sha d' \<and> inj sha \<and> fits d'"
    using disk_cache.run_sound [OF inv assms(2) order_refl] by blast
  then show ?thesis by (auto simp: disk_inv_def fits_def sizes_def Disk_Len_def)
qed

theorem disk_cache_accounting_witness:
  "\<exists>d rs d'. NewDiskCache True 3 None Map.empty Map.empty = Inr d \<and>
     backend_run disk_get_some (Disk_Put id) Disk_Purge
       [BPut fine_env 0 ''a'' ''xx'' 200 [] 0, BPut fine_env 1 ''b'' ''yy'' 200 [] 0] d = Some (rs, d') \<and>
     dUsedBytes d' = (\<Sum>p \<leftarrow> dIndex d'. ieSize (snd p))"
  using disk_cache_accounting [of id "[BPut fine_env 0 ''a'' ''xx'' 200 [] 0, BPut fine_env 1 ''b'' ''yy'' 200 [] 0]"
      3] by (auto simp: new_disk_inv)

text \<open>
  a store on disk always returns; when the file operations succeed the next
  lookup of the key finds it, no other key changes its response, and every
  entry evicted to make room is at least as old as every entry that stays.
\<close>

theorem Disk_Put_evicts_oldest:
  assumes "disk_inv sha d" "inj sha" "env_ok env" "env_fine env" "key \<noteq> ''''" "cacheable sc hs"
  shows "\<exists>d'. Disk_Put sha env now key body sc hs ttl d = Some d' \<and>
    disk_lookup d' key = Some (mk_entry now key body sc hs ttl) \<and>
    (\<forall>k. k \<noteq> key \<longrightarrow> disk_lookup d' k \<in> {None, disk_lookup d k}) \<and>
    (\<forall>p \<in> set (dIndex d) - set (dIndex d'). fst p \<noteq> key \<longrightarrow>
       (\<forall>q \<in> set (dIndex d'). fst q \<noteq> key \<longrightarrow> ieStoredAt (snd p) \<le> ieStoredAt (snd q)))"
proof -
  obtain r where r: "make_room env (int (length body)) key d = Some r" "disk_inv sha r"
    "key \<notin> fst ` set (dIndex r)"
    "\<forall>p \<in> set (dIndex d) - set (dIndex r). fst p \<noteq> key \<longrightarrow>
       (\<forall>q \<in> set (dIndex r). ieStoredAt (snd p) \<le> ieStoredAt (snd q))"
    "\<And>k. disk_lookup r k = None \<or> disk_lookup r k = disk_lookup d k"
    using make_room_ok [OF assms(1-3), of "int (length body)" key] by blast
  let ?d = "add_entry sha now key body sc hs ttl r"
  have put: "Disk_Put sha env now key body sc hs ttl d = Some ?d"
    using r(1) assms(4,6) by (simp add: Disk_Put_cases)
  have "map_of (dIndex r) key = None" using r(3) by (simp add: map_of_eq_None_iff)
  then have "set (dIndex ?d) = insert (key, \<lparr>ieHash = sha key, ieStoredAt = now, ieSize = int (length body)\<rparr>)
      (set (dIndex r))"
    by (simp add: add_entry_def update_absent)
  then show ?thesis
    using put r(4,5) disk_lookup_add_entry [OF r(2) assms(2) r(3)] by auto
qed

theorem Disk_Put_evicts_oldest_witness:
  "\<exists>d'. Disk_Put id fine_env 7 ''a'' ''xx'' 200 [] 0
     \<lparr>dMaxBytes = 3, dUsedBytes = 0, dIndex = [], dHits = 0, dMisses = 0, dBody = Map.empty, dMeta = Map.empty\<rparr>
       = Some d' \<and> disk_lookup d' ''a'' = Some (mk_entry 7 ''a'' ''xx'' 200 [] 0)"
proof -
  have "cacheable 200 []" by (simp add: cacheable_def shouldSkipCache_def Header_Get_def)
  then show ?thesis
    using Disk_Put_evicts_oldest [OF new_disk_inv(2) inj_on_id fine_env_ok, where key = "''a''"
        and sc = 200 and hs = "[]" and now = 7 and body = "''xx''" and ttl = 0]
    by auto
qed

text \<open>
  moving an entry between the levels restarts its lifetime.  With room for
  one entry in memory, a response stored at time 0 with a TTL of 10 is spilled
  to disk at time 9 and is still served at time 18.
\<close>

theorem hybrid_ttl_restarts:
  "\<exists>h1 h2 r h3.
     Hybrid_Put id fine_env 0 ''a'' ''old'' 200 [] 10
       \<lparr>hMemory = NewCache 1, hDisk = \<lparr>dMaxBytes = 100, dUsedBytes = 0, dIndex = [], dHits = 0, dMisses = 0,
         dBody = Map.empty, dMeta = Map.empty\<rparr>, hHits = 0, hMisses = 0\<rparr> = Some h1 \<and>
     Hybrid_Put id fine_env 9 ''b'' ''new'' 200 [] 10 h1 = Some h2 \<and>
     Hybrid_Get id fine_env 18 ''a'' h2 = Some (Some r, h3) \<and> resp r = (''old'', 200, [])"
proof -
  note eval = Hybrid_Put_def mem_put_def Cache_Put_def NewCache_def shouldSkipCache_def Header_Get_def
    evict_loop.simps addToHead_def store_def evictTail_def removeEntry_def unlinkEntry_def deref_def
    Disk_Put_def disk_evict_loop.simps fine_env_def Let_def Hybrid_Get_def Cache_Get_def Disk_Get_def
    removeEntryLocked_def removeFilesLocked_def resp_def expired_def
  show ?thesis by (simp add: eval)
qed

section \<open>Restart\<close>

text \<open>The metadata files that \<open>rebuildIndex\<close> reads from a listing, with their hashes.\<close>

definition file_metas :: "string \<times> metafile option \<Rightarrow> (string \<times> diskCacheMetadata) list" where
  "file_metas f =
     (case snd f of
        Some (Meta m) \<Rightarrow>
          if length (fst f) < 6 \<or> drop (length (fst f) - 5) (fst f) \<noteq> ''.meta'' then []
          else [(take (length (fst f) - 5) (fst f), m)]
      | _ \<Rightarrow> [])"

definition dir_metas ::
  "string \<times> bool \<times> (string \<times> metafile option) list option \<Rightarrow> (string \<times> diskCacheMetadata) list" where
  "dir_metas dir =
     (case snd (snd dir) of
        Some files \<Rightarrow> if fst (snd dir) \<and> length (fst dir) = 2 then concat (map file_metas files) else []
      | None \<Rightarrow> [])"

definition add_meta :: "string \<times> diskCacheMetadata \<Rightarrow> DiskCache \<Rightarrow> DiskCache" where
  "add_meta hm d = d\<lparr>dIndex := AList.update (mKey (snd hm))
       \<lparr>ieHash = fst hm, ieStoredAt = mStoredAt (snd hm), ieSize = mBodySize (snd hm)\<rparr> (dIndex d),
     dUsedBytes := dUsedBytes d + mBodySize (snd hm)\<rparr>"

lemma rebuild_file_metas: "rebuild_file f d = fold add_meta (file_metas f) d"
  by (auto simp: rebuild_file_def file_metas_def add_meta_def Let_def split: option.splits metafile.splits)

lemma fold_rebuild_files: "fold rebuild_file fs d = fold add_meta (concat (map file_metas fs)) d"
  by (induction fs arbitrary: d) (auto simp: rebuild_file_metas)

lemma rebuildIndex_metas: "rebuildIndex (Some L) d = fold add_meta (concat (map dir_metas L)) d"
proof -
  have "rebuild_dir dir d = fold add_meta (dir_metas dir) d" for dir d
    by (auto simp: rebuild_dir_def dir_metas_def fold_rebuild_files split: option.splits)
  then have "fold rebuild_dir L d = fold add_meta (concat (map dir_metas L)) d"
    by (induction L arbitrary: d) auto
  then show ?thesis by (simp add: rebuildIndex_def)
qed

definition meta_entry :: "string \<times> diskCacheMetadata \<Rightarrow> string \<times> diskIndexEntry" where
  "meta_entry hm = (mKey (snd hm),
     \<lparr>ieHash = fst hm, ieStoredAt = mStoredAt (snd hm), ieSize = mBodySize (snd hm)\<rparr>)"

lemma fold_add_meta:
  assumes "distinct (map fst (dIndex d) @ map (mKey \<circ> snd) ms)"
  shows "fold add_meta ms d = d\<lparr>dIndex := dIndex d @ map meta_entry ms,
     dUsedBytes := dUsedBytes d + sizes (map meta_entry ms)\<rparr>"
  using assms
proof (induction ms arbitrary: d)
  case Nil
  then show ?case by (simp add: sizes_def)
next
  case (Cons hm ms)
  have "map_of (dIndex d) (mKey (snd hm)) = None"
    using Cons.prems by (auto simp: map_of_eq_None_iff)
  then have step: "add_meta hm d = d\<lparr>dIndex := dIndex d @ [meta_entry hm],
      dUsedBytes := dUsedBytes d + mBodySize (snd hm)\<rparr>"
    by (simp add: add_meta_def meta_entry_def update_absent)
  have "distinct (map fst (dIndex (add_meta hm d)) @ map (mKey \<circ> snd) ms)"
    using Cons.prems by (auto simp: step meta_entry_def comp_def)
  from Cons.IH [OF this] show ?case
    by (simp add: step) (simp add: sizes_def meta_entry_def)
qed

definition entry_metas :: "DiskCache \<Rightarrow> string \<times> diskIndexEntry \<Rightarrow> (string \<times> diskCacheMetadata) list" where
  "entry_metas d p = (case dMeta d (ieHash (snd p)) of Some (Meta m) \<Rightarrow> [(ieHash (snd p), m)] | _ \<Rightarrow> [])"

text \<open>The metadata files of the indexed keys.\<close>

definition indexed_metas :: "DiskCache \<Rightarrow> (string \<times> diskCacheMetadata) list" where
  "indexed_metas d = concat (map (entry_metas d) (dIndex d))"

lemma meta_entry_indexed:
  assumes "disk_inv sha d"
  shows "map meta_entry (indexed_metas d) = dIndex d"
proof -
  have "map meta_entry (concat (map (entry_metas d) xs)) = xs" if "\<forall>p \<in> set xs. file_ok sha d p" for xs
    using that by (induction xs) (auto simp: entry_metas_def file_ok_def meta_entry_def)
  then show ?thesis using assms by (simp add: indexed_metas_def disk_inv_def)
qed

lemma sizes_perm: "mset xs = mset ys \<Longrightarrow> sizes xs = sizes ys"
proof -
  assume "mset xs = mset ys"
  then have "mset (map (\<lambda>p. ieSize (snd p)) xs) = mset (map (\<lambda>p. ieSize (snd p)) ys)"
    by (simp only: mset_map)
  then show ?thesis unfolding sizes_def sum_mset_sum_list [symmetric] by (rule arg_cong)
qed

lemma disk_inv_perm:
  assumes "disk_inv sha d" "mset (dIndex d') = mset (dIndex d)" "dUsedBytes d' = sizes (dIndex d')"
    and "dMeta d' = dMeta d" "dBody d' = dBody d"
  shows "disk_inv sha d' \<and> disk_lookup d' k = disk_lookup d k"
proof -
  have set: "set (dIndex d') = set (dIndex d)" using assms(2) by (rule mset_eq_setD)
  have "mset (map fst (dIndex d')) = mset (map fst (dIndex d))" using assms(2) by simp
  from mset_eq_imp_distinct_iff [OF this] have dist: "distinct (map fst (dIndex d'))"
    using assms(1) by (simp add: disk_inv_def)
  then have "map_of (dIndex d') k = map_of (dIndex d) k"
    using set assms(1) map_of_inject_set [of "dIndex d'" "dIndex d"] by (simp add: disk_inv_def)
  then have "disk_lookup d' k = disk_lookup d k"
    using assms(4,5) by (intro disk_lookup_cong [OF assms(1)]) simp_all
  moreover have "file_ok sha d' p = file_ok sha d p" for p
    using assms(4,5) by (simp add: file_ok_def)
  ultimately show ?thesis using assms(1,3) dist set by (simp add: disk_inv_def)
qed



end
