(* ===== verification/EF_Net.thy ===== *)
theory EF_Net
  imports EF_Prelude
begin

unbundle bit_operations_syntax

text \<open>
  The part of Go's \<open>net\<close> package that the sources call: parsing and printing
  of addresses and prefixes, and membership in a prefix.

  A \<open>net.IP\<close> is a slice of 4 or 16 bytes (\<open>nil\<close> is \<open>None\<close> where it can occur);
  an \<open>IPNet\<close> keeps the masked address and a mask of 4 or 16 bytes, written as
  its length and its width.  The parsers follow \<open>netip.ParseAddr\<close> (which
  \<open>net.ParseIP\<close> and \<open>net.ParseCIDR\<close> call): no leading zeros in an IPv4 octet, at
  most four hexadecimal digits in an IPv6 group, one \<open>::\<close> standing for at least
  one group, an optional dotted IPv4 tail, no zone.
\<close>

section \<open>Addresses\<close>

datatype ip = IP4 "32 word" | IP16 "128 word"

definition v4_mapped :: "32 word \<Rightarrow> 128 word" where
  "v4_mapped w = push_bit 32 0xffff OR ucast w"

fun To4 :: "ip \<Rightarrow> 32 word option" where
  "To4 (IP4 w) = Some w"
| "To4 (IP16 w) = (if drop_bit 32 w = 0xffff then Some (ucast w) else None)"

fun To16 :: "ip \<Rightarrow> 128 word" where
  "To16 (IP4 w) = v4_mapped w"
| "To16 (IP16 w) = w"

section \<open>Decimal numbers\<close>

definition is_digit :: "char \<Rightarrow> bool" where
  "is_digit c \<longleftrightarrow> 48 \<le> (of_char c :: nat) \<and> (of_char c :: nat) \<le> 57"

definition digit_val :: "char \<Rightarrow> nat" where
  "digit_val c = of_char c - 48"

definition dec_val :: "string \<Rightarrow> nat" where
  "dec_val s = foldl (\<lambda>n c. n * 10 + digit_val c) 0 s"

text \<open>\<open>dtoi\<close> on a whole string: decimal digits below \<open>0xFFFFFF\<close>.\<close>

definition dtoi_all :: "string \<Rightarrow> nat option" where
  "dtoi_all s = (if s \<noteq> '''' \<and> list_all is_digit s \<and> dec_val s < 0xFFFFFF then Some (dec_val s) else None)"

section \<open>IPv4 text\<close>

definition parse_octet :: "string \<Rightarrow> nat option" where
  "parse_octet s =
     (if s \<noteq> '''' \<and> list_all is_digit s \<and> length s \<le> 3 \<and> (length s > 1 \<longrightarrow> hd s \<noteq> CHR ''0'') \<and> dec_val s \<le> 255
      then Some (dec_val s) else None)"

definition word_of_octets :: "nat \<Rightarrow> nat \<Rightarrow> nat \<Rightarrow> nat \<Rightarrow> 32 word" where
  "word_of_octets a b c d = of_nat (((a * 256 + b) * 256 + c) * 256 + d)"

definition parseIPv4 :: "string \<Rightarrow> 32 word option" where
  "parseIPv4 s =
     (case map parse_octet (Split s CHR ''.'') of
        [Some a, Some b, Some c, Some d] \<Rightarrow> Some (word_of_octets a b c d)
      | _ \<Rightarrow> None)"

definition octet :: "32 word \<Rightarrow> nat \<Rightarrow> nat" where
  "octet w i = unat w div 256 ^ (3 - i) mod 256"

definition IPv4_string :: "32 word \<Rightarrow> string" where
  "IPv4_string w = Join [utoa (octet w 0), utoa (octet w 1), utoa (octet w 2), utoa (octet w 3)] ''.''"

section \<open>IPv6 text\<close>

definition hex_val :: "char \<Rightarrow> nat option" where
  "hex_val c =
     (let n = (of_char c :: nat)
      in if 48 \<le> n \<and> n \<le> 57 then Some (n - 48)
         else if 97 \<le> n \<and> n \<le> 102 then Some (n - 87)
         else if 65 \<le> n \<and> n \<le> 70 then Some (n - 55) else None)"

text \<open>The leading hexadecimal digits of the text, and the rest.\<close>

definition hex_run :: "string \<Rightarrow> string \<times> string" where
  "hex_run s = (takeWhile (\<lambda>c. hex_val c \<noteq> None) s, dropWhile (\<lambda>c. hex_val c \<noteq> None) s)"

definition hex_num :: "string \<Rightarrow> nat" where
  "hex_num s = foldl (\<lambda>n c. n * 16 + the (hex_val c)) 0 s"

text \<open>
  The loop of \<open>parseIPv6\<close>: the groups read so far, where the ellipsis stands, and
  the remaining text.  The result is the complete list of groups read.
\<close>

function parse_groups :: "nat list \<Rightarrow> nat option \<Rightarrow> string \<Rightarrow> (nat list \<times> nat option) option" where
  "parse_groups gs ell s =
     (if length gs \<ge> 8 then (if s = '''' then Some (gs, ell) else None)
      else (case hex_run s of (ds, rest) \<Rightarrow>
        if ds = '''' \<or> length ds > 4 then None
        else if rest \<noteq> '''' \<and> hd rest = CHR ''.'' then
          (if (ell = None \<and> length gs \<noteq> 6) \<or> length gs > 6 then None
           else (case parseIPv4 s of
                   None \<Rightarrow> None
                 | Some w \<Rightarrow> Some (gs @ [unat w div 65536, unat w mod 65536], ell)))
        else (let gs' = gs @ [hex_num ds]
              in if rest = '''' then Some (gs', ell)
                 else if hd rest \<noteq> CHR '':'' \<or> length rest = 1 then None
                 else (let s' = tl rest
                       in if hd s' = CHR '':'' then
                            (if ell \<noteq> None then None
                             else if tl s' = '''' then Some (gs', Some (length gs'))
                             else parse_groups gs' (Some (length gs')) (tl s'))
                          else parse_groups gs' ell s'))))"
  by pat_completeness auto
termination
  by (relation "measure (\<lambda>(gs, ell, s). 8 - length gs)") auto

declare parse_groups.simps [simp del]

definition groups_word :: "nat list \<Rightarrow> 128 word" where
  "groups_word gs = of_nat (foldl (\<lambda>n g. n * 65536 + g) 0 gs)"

definition expand_groups :: "nat list \<times> nat option \<Rightarrow> nat list option" where
  "expand_groups r =
     (case r of
        (gs, None) \<Rightarrow> if length gs = 8 then Some gs else None
      | (gs, Some e) \<Rightarrow> if length gs < 8 then Some (take e gs @ replicate (8 - length gs) 0 @ drop e gs) else None)"

definition parseIPv6 :: "string \<Rightarrow> 128 word option" where
  "parseIPv6 s =
     (if HasPrefix s ''::'' then
        (if drop 2 s = '''' then Some 0
         else map_option groups_word (Option.bind (parse_groups [] (Some 0) (drop 2 s)) expand_groups))
      else map_option groups_word (Option.bind (parse_groups [] None s) expand_groups))"

definition group :: "128 word \<Rightarrow> nat \<Rightarrow> nat" where
  "group w i = unat w div 65536 ^ (7 - i) mod 65536"

fun hex_string :: "nat \<Rightarrow> string" where
  "hex_string n =
     (let d = (\<lambda>k. if k < 10 then char_of (48 + k) else char_of (87 + k))
      in if n < 16 then [d n] else hex_string (n div 16) @ [d (n mod 16)])"

declare hex_string.simps [simp del]

text \<open>Length of the run of zero groups at position \<open>i\<close>.\<close>

definition zero_run :: "nat list \<Rightarrow> nat \<Rightarrow> nat" where
  "zero_run gs i = length (takeWhile (\<lambda>g. g = 0) (drop i gs))"

text \<open>The first longest run of at least two zero groups: start and length.\<close>

definition best_run :: "nat list \<Rightarrow> (nat \<times> nat) option" where
  "best_run gs = foldl (\<lambda>best i. let l = zero_run gs i in
      if l \<ge> 2 \<and> (case best of None \<Rightarrow> True | Some (_, m) \<Rightarrow> l > m) then Some (i, l) else best)
    None [0..<length gs]"

definition IPv6_string :: "128 word \<Rightarrow> string" where
  "IPv6_string w =
     (let gs = map (group w) [0..<8]
      in case best_run gs of
           None \<Rightarrow> Join (map hex_string gs) '':''
         | Some (i, l) \<Rightarrow> Join (map hex_string (take i gs)) '':'' @ ''::'' @
             Join (map hex_string (drop (i + l) gs)) '':'')"

section \<open>Parsing and printing\<close>

text \<open>\<open>netip.ParseAddr\<close>: the first dot or colon decides; the flag is \<open>Is4\<close>.\<close>

fun first_sep :: "string \<Rightarrow> char option" where
  "first_sep [] = None"
| "first_sep (c # cs) = (if c = CHR ''.'' \<or> c = CHR '':'' \<or> c = CHR ''%'' then Some c else first_sep cs)"

definition ParseAddr :: "string \<Rightarrow> (bool \<times> 128 word) option" where
  "ParseAddr s =
     (case first_sep s of
        Some c \<Rightarrow> if c = CHR ''.'' then map_option (\<lambda>w. (True, v4_mapped w)) (parseIPv4 s)
                  else if c = CHR '':'' then map_option (\<lambda>w. (False, w)) (parseIPv6 s)
                  else None
      | None \<Rightarrow> None)"

definition ParseIP :: "string \<Rightarrow> ip option" where
  "ParseIP s = map_option (\<lambda>r. IP16 (snd r)) (ParseAddr s)"

fun IP_String :: "ip option \<Rightarrow> string" where
  "IP_String None = ''<nil>''"
| "IP_String (Some a) = (case To4 a of Some w \<Rightarrow> IPv4_string w | None \<Rightarrow> IPv6_string (To16 a))"

record IPNet =
  netIP :: ip
  netOnes :: nat
  netBits :: nat

definition mask32 :: "nat \<Rightarrow> 32 word" where
  "mask32 n = NOT (mask (32 - n))"

definition mask128 :: "nat \<Rightarrow> 128 word" where
  "mask128 n = NOT (mask (128 - n))"

definition ParseCIDR :: "string \<Rightarrow> (ip \<times> IPNet) option" where
  "ParseCIDR s =
     (case dropWhile (\<lambda>c. c \<noteq> CHR ''/'') s of
        [] \<Rightarrow> None
      | _ # m \<Rightarrow>
          (case ParseAddr (takeWhile (\<lambda>c. c \<noteq> CHR ''/'') s) of
             None \<Rightarrow> None
           | Some (is4, w) \<Rightarrow>
               (case dtoi_all m of
                  None \<Rightarrow> None
                | Some n \<Rightarrow>
                    if n > (if is4 then 32 else 128) then None
                    else Some (IP16 w,
                           if is4 then \<lparr>netIP = IP4 (ucast w AND mask32 n), netOnes = n, netBits = 32\<rparr>
                           else \<lparr>netIP = IP16 (w AND mask128 n), netOnes = n, netBits = 128\<rparr>))))"

text \<open>
  \<open>IPNet.Contains\<close>.  The network number of an IPv4-mapped network is its four
  last bytes, and the mask is cut to fit.
\<close>

definition net_mask32 :: "IPNet \<Rightarrow> 32 word" where
  "net_mask32 n =
     (if netBits n = 32 then mask32 (netOnes n) else ucast (mask128 (netOnes n)))"

definition net_Contains :: "IPNet \<Rightarrow> ip \<Rightarrow> bool" where
  "net_Contains n a =
     (case To4 (netIP n) of
        Some nn \<Rightarrow>
          (case To4 a of
             None \<Rightarrow> False
           | Some x \<Rightarrow> nn AND net_mask32 n = x AND net_mask32 n)
      | None \<Rightarrow>
          if netBits n = 32 then False
          else (case To4 a of
                  Some _ \<Rightarrow> False
                | None \<Rightarrow> To16 (netIP n) AND mask128 (netOnes n) = To16 a AND mask128 (netOnes n)))"

section \<open>Decimal text\<close>

lemma digit_no_sep: "is_digit c \<Longrightarrow> c \<noteq> CHR ''.'' \<and> c \<noteq> CHR '':'' \<and> c \<noteq> CHR ''/'' \<and> c \<noteq> CHR ''%'' \<and> c \<noteq> CHR ''-''"
  by (auto simp: is_digit_def)

lemma digit_char_props [simp]:
  assumes "d < 10"
  shows "is_digit (digit_char d)" "digit_val (digit_char d) = d"
proof -
  have "d \<in> {0, 1, 2, 3, 4, 5, 6, 7, 8, 9}" using assms by auto
  then show "is_digit (digit_char d)" "digit_val (digit_char d) = d"
    by (auto simp: is_digit_def digit_val_def digit_char_def)
qed

lemma utoa_induct [case_names small large]:
  fixes n :: nat
  assumes "\<And>n. n < 10 \<Longrightarrow> P n" "\<And>n. 10 \<le> n \<Longrightarrow> P (n div 10) \<Longrightarrow> P n"
  shows "P n"
proof (induction n rule: less_induct)
  case (less n)
  then show ?case using assms by (cases "n < 10") auto
qed

lemma dec_val_snoc [simp]: "dec_val (s @ [c]) = dec_val s * 10 + digit_val c"
  by (simp add: dec_val_def)

lemma dec_val_single [simp]: "dec_val [c] = digit_val c"
  by (simp add: dec_val_def)

lemma dec_val_utoa [simp]: "dec_val (utoa n) = n"
proof (induction n rule: utoa_induct)
  case (large n)
  then show ?case by (subst utoa.simps) simp
qed (subst utoa.simps, simp)

lemma utoa_digits [simp]: "list_all is_digit (utoa n)"
proof (induction n rule: utoa_induct)
  case (large n)
  then show ?case by (subst utoa.simps) simp
qed (subst utoa.simps, simp)

lemma utoa_not_Nil [simp]: "utoa n \<noteq> []"
  by (subst utoa.simps) simp

lemma utoa_inj: "utoa m = utoa n \<longleftrightarrow> m = n"
  by (metis dec_val_utoa)

lemma utoa_no_sep [simp]:
  "CHR ''.'' \<notin> set (utoa n)" "CHR '':'' \<notin> set (utoa n)" "CHR ''/'' \<notin> set (utoa n)" "CHR ''%'' \<notin> set (utoa n)"
  using utoa_digits [of n] by (auto simp: list_all_iff dest: digit_no_sep)

lemma utoa_length_octet: "n \<le> 255 \<Longrightarrow> length (utoa n) \<le> 3"
proof -
  assume n: "n \<le> 255"
  have two: "length (utoa m) \<le> 2" if "m < 100" for m
  proof -
    have "m div 10 < 10" using that by linarith
    then show ?thesis by (subst utoa.simps, subst utoa.simps) simp
  qed
  have "n div 10 < 100" using n by linarith
  then show ?thesis using two [of "n div 10"] by (subst utoa.simps) auto
qed

lemma utoa_no_leading_zero: "length (utoa n) > 1 \<Longrightarrow> hd (utoa n) \<noteq> CHR ''0''"
proof (induction n rule: utoa_induct)
  case (small n)
  then show ?case by (simp add: utoa.simps)
next
  case (large n)
  have eq: "utoa n = utoa (n div 10) @ [digit_char (n mod 10)]"
    using large(1) by (subst utoa.simps) simp
  show ?case
  proof (cases "length (utoa (n div 10)) > 1")
    case True
    then show ?thesis using large(2) by (simp add: eq)
  next
    case False
    then have "n div 10 < 10"
    proof (rule contrapos_np)
      assume "\<not> n div 10 < 10"
      then have "utoa (n div 10) = utoa (n div 10 div 10) @ [digit_char (n div 10 mod 10)]"
        by (subst utoa.simps) simp
      then show "1 < length (utoa (n div 10))" by (simp add: length_greater_0_conv)
    qed
    then have "utoa (n div 10) = [digit_char (n div 10)]" by (subst utoa.simps) simp
    moreover have "digit_val (digit_char (n div 10)) \<noteq> digit_val (CHR ''0'')"
      using large(1) \<open>n div 10 < 10\<close> by (simp add: digit_val_def [of "CHR ''0''"])
    ultimately show ?thesis by (auto simp: eq)
  qed
qed

lemma parse_octet_utoa [simp]: "n \<le> 255 \<Longrightarrow> parse_octet (utoa n) = Some n"
  using utoa_length_octet [of n] utoa_no_leading_zero [of n] by (simp add: parse_octet_def)

section \<open>IPv4 round trip\<close>

lemma octet_le [simp]: "octet w i \<le> 255"
  using mod_less_divisor [of 256 "unat w div 256 ^ (3 - i)"] by (simp add: octet_def)

lemma word_of_octets_octet: "word_of_octets (octet w 0) (octet w 1) (octet w 2) (octet w 3) = w"
proof -
  define n where "n = unat w"
  define n1 where "n1 = n div 256"
  define n2 where "n2 = n1 div 256"
  define n3 where "n3 = n2 div 256"
  have "unat w < 2 ^ LENGTH(32)" by (rule unsigned_less)
  then have "n < 2 ^ 32" by (simp add: n_def)
  then have "n3 < 256" unfolding n3_def n2_def n1_def by (simp add: div_mult2_eq [symmetric] less_mult_imp_div_less)
  have o: "octet w 0 = n3" "octet w 1 = n2 mod 256" "octet w 2 = n1 mod 256" "octet w 3 = n mod 256"
    using \<open>n3 < 256\<close> by (simp_all add: octet_def n_def n1_def n2_def n3_def div_mult2_eq [symmetric] power3_eq_cube power2_eq_square)
  have "((n3 * 256 + n2 mod 256) * 256 + n1 mod 256) * 256 + n mod 256 = n"
    unfolding n3_def n2_def n1_def by (simp only: div_mult_mod_eq)
  then show ?thesis unfolding word_of_octets_def o by (simp add: n_def)
qed

lemma Split_IPv4_string:
  "Split (IPv4_string w) CHR ''.'' = [utoa (octet w 0), utoa (octet w 1), utoa (octet w 2), utoa (octet w 3)]"
  unfolding IPv4_string_def by (rule Split_Join) auto

lemma parseIPv4_string [simp]: "parseIPv4 (IPv4_string w) = Some w"
  using word_of_octets_octet [of w] by (simp add: parseIPv4_def Split_IPv4_string)

lemma IPv4_string_inj [simp]: "IPv4_string v = IPv4_string w \<longleftrightarrow> v = w"
  by (metis option.inject parseIPv4_string)

lemma first_sep_digits: "list_all is_digit s \<Longrightarrow> first_sep (s @ CHR ''.'' # t) = Some CHR ''.''"
  by (induction s) (auto dest: digit_no_sep)

lemma first_sep_IPv4: "first_sep (IPv4_string w) = Some CHR ''.''"
  by (simp add: IPv4_string_def first_sep_digits)

lemma ParseAddr_IPv4 [simp]: "ParseAddr (IPv4_string w) = Some (True, v4_mapped w)"
  by (simp add: ParseAddr_def first_sep_IPv4)

lemma ParseIP_IPv4 [simp]: "ParseIP (IPv4_string w) = Some (IP16 (v4_mapped w))"
  by (simp add: ParseIP_def)

lemma bit_ffff: "bit (0xffff :: 128 word) j \<longleftrightarrow> j < 16"
proof -
  have eq: "(0xffff :: 128 word) = mask 16" by (simp add: mask_eq_exp_minus_1)
  show ?thesis unfolding eq bit_mask_iff by auto
qed

lemma bit_v4_mapped: "bit (v4_mapped w) i \<longleftrightarrow> (if i < 32 then bit w i else i < 48)"
proof -
  have len: "bit w i \<Longrightarrow> i < 32" using bit_imp_le_length [of w i] by simp
  have "bit (push_bit 32 (0xffff :: 128 word)) i \<longleftrightarrow> 32 \<le> i \<and> i < 48"
    unfolding bit_push_bit_iff bit_ffff by auto
  then show ?thesis
    unfolding v4_mapped_def bit_or_iff bit_ucast_iff by (auto dest: len)
qed

lemma To4_v4_mapped [simp]: "To4 (IP16 (v4_mapped w)) = Some w"
proof -
  have "drop_bit 32 (v4_mapped w) = 0xffff"
    by (rule bit_word_eqI) (simp only: bit_drop_bit_eq bit_v4_mapped bit_ffff comp_apply, auto)
  moreover have "ucast (v4_mapped w) = w"
    by (rule bit_word_eqI) (auto simp: bit_ucast_iff bit_v4_mapped)
  ultimately show ?thesis by simp
qed

lemma IP_String_v4 [simp]: "IP_String (Some (IP4 w)) = IPv4_string w" "IP_String (Some (IP16 (v4_mapped w))) = IPv4_string w"
  using To4_v4_mapped [of w] by (simp_all del: To4.simps(2))

section \<open>Prefixes\<close>

lemma and_not_mask_eq: "w AND NOT (mask h) = w - take_bit h w" for w :: "'a::len word"
proof -
  have "w AND NOT (mask h) = push_bit h (drop_bit h w)"
    by (rule bit_word_eqI)
      (auto simp: bit_and_iff bit_not_iff bit_mask_iff bit_push_bit_iff bit_drop_bit_eq)
  then show ?thesis using bits_ident [of h w] by (metis add_diff_cancel_right')
qed

lemma unat_and_not_mask: "unat (w AND NOT (mask h)) = unat w div 2 ^ h * 2 ^ h" for w :: "'a::len word"
proof -
  have t: "unat (take_bit h w) = unat w mod 2 ^ h"
    unfolding unsigned_take_bit_eq by (simp add: take_bit_eq_mod)
  then have "take_bit h w \<le> w" by (simp add: word_le_nat_alt)
  then have "unat (w - take_bit h w) = unat w - unat w mod 2 ^ h" by (simp add: unat_sub t)
  then show ?thesis unfolding and_not_mask_eq by (simp add: minus_mod_eq_div_mult)
qed

text \<open>An IPv4 prefix as \<open>ParseCIDR\<close> returns it, and the addresses it holds.\<close>

definition net4 :: "32 word \<Rightarrow> nat \<Rightarrow> IPNet" where
  "net4 w n = \<lparr>netIP = IP4 (w AND mask32 n), netOnes = n, netBits = 32\<rparr>"

lemma net4_base:
  "unat (w AND mask32 n) = unat w div 2 ^ (32 - n) * 2 ^ (32 - n)"
  "2 ^ (32 - n) dvd unat (w AND mask32 n)"
  by (simp_all add: mask32_def unat_and_not_mask)

lemma unat_less_32: "unat (w :: 32 word) < 2 ^ 32"
  using unsigned_less [of w] by simp

lemma net4_top: "unat (w AND mask32 n) + 2 ^ (32 - n) \<le> 2 ^ 32"
proof -
  define Q :: nat where "Q = 2 ^ (32 - (32 - n))"
  have Q: "(2 ^ 32 :: nat) = Q * 2 ^ (32 - n)"
    unfolding Q_def power_add [symmetric] by simp
  then have "unat w div 2 ^ (32 - n) < Q"
    using unat_less_32 [of w] by (intro less_mult_imp_div_less) simp
  then have "(unat w div 2 ^ (32 - n) + 1) * 2 ^ (32 - n) \<le> Q * 2 ^ (32 - n)"
    by (intro mult_right_mono) simp_all
  then show ?thesis unfolding net4_base(1) Q by (simp add: algebra_simps)
qed

lemma div_eq_range: "0 < H \<Longrightarrow> x div H = q \<longleftrightarrow> H * q \<le> x \<and> x < H * q + H" for x :: nat
proof
  assume H: "0 < H" and q: "x div H = q"
  have "x = H * q + x mod H" using mult_div_mod_eq [of H x] by (simp add: q)
  moreover have "x mod H < H" using H by simp
  ultimately show "H * q \<le> x \<and> x < H * q + H" by linarith
next
  assume "0 < H" "H * q \<le> x \<and> x < H * q + H"
  then show "x div H = q" by (intro div_nat_eqI) (auto simp: algebra_simps)
qed

lemma net4_Contains:
  "net_Contains (net4 w n) (IP4 x) \<longleftrightarrow>
     unat (w AND mask32 n) \<le> unat x \<and> unat x < unat (w AND mask32 n) + 2 ^ (32 - n)"
proof -
  let ?H = "2 ^ (32 - n) :: nat" and ?b = "unat (w AND mask32 n)"
  have "net_Contains (net4 w n) (IP4 x) \<longleftrightarrow> w AND mask32 n = x AND mask32 n"
    by (simp add: net_Contains_def net4_def net_mask32_def and.assoc)
  also have "\<dots> \<longleftrightarrow> ?b = unat x div ?H * ?H"
    by (simp add: word_unat_eq_iff mask32_def unat_and_not_mask)
  also have "\<dots> \<longleftrightarrow> ?b \<le> unat x \<and> unat x < ?b + ?H"
  proof -
    obtain q where q: "?b = ?H * q" using net4_base(2) [of n w] by (auto elim: dvdE)
    have "?H * q = unat x div ?H * ?H \<longleftrightarrow> unat x div ?H = q" by auto
    also have "\<dots> \<longleftrightarrow> ?H * q \<le> unat x \<and> unat x < ?H * q + ?H"
      by (rule div_eq_range) simp
    finally show ?thesis unfolding q .
  qed
  finally show ?thesis .
qed

end
