(* ===== verification/EF_Overlay.thy ===== *)
theory EF_Overlay
  imports EF_Net EF_Domain
begin

unbundle bit_operations_syntax

text \<open>
  \<open>provisioning/wireguard.go\<close>: key generation and the allocation of overlay
  addresses.  Random bytes and the X25519 function come from outside the
  repository and are arguments.  The set \<open>used\<close> of the Go code is keyed by the
  printed address; it is the list of its keys.
\<close>

section \<open>Keys\<close>

record WireGuardKeyPair =
  kpPrivateKey :: string
  kpPublicKey :: string

text \<open>The clamping of the 32 random bytes.\<close>

definition clamp :: "8 word list \<Rightarrow> 8 word list" where
  "clamp k =
     (let k = k[0 := (k ! 0) AND 248];
          k = k[31 := (k ! 31) AND 127]
      in k[31 := (k ! 31) OR 64])"

text \<open>
  \<open>rand\<close> is the outcome of reading 32 bytes, \<open>x25519\<close> the derivation of the
  public key, \<open>encode\<close> standard base64.
\<close>

definition GenerateWireGuardKeyPair ::
  "8 word list result \<Rightarrow> (8 word list \<Rightarrow> 8 word list result) \<Rightarrow> (8 word list \<Rightarrow> string)
   \<Rightarrow> WireGuardKeyPair result" where
  "GenerateWireGuardKeyPair rand x25519 encode =
     (case rand of
        Inl e \<Rightarrow> Inl (Wrapf ''generate private key'' e)
      | Inr bytes \<Rightarrow>
          (let privateKey = clamp bytes
           in case x25519 privateKey of
                Inl e \<Rightarrow> Inl (Wrapf ''derive public key'' e)
              | Inr publicKey \<Rightarrow> Inr \<lparr>kpPrivateKey = encode privateKey, kpPublicKey = encode publicKey\<rparr>))"

definition GeneratePresharedKey :: "8 word list result \<Rightarrow> (8 word list \<Rightarrow> string) \<Rightarrow> string result" where
  "GeneratePresharedKey rand encode =
     (case rand of Inl e \<Rightarrow> Inl (Wrapf ''generate preshared key'' e) | Inr key \<Rightarrow> Inr (encode key))"

section \<open>Address allocation\<close>

text \<open>\<open>ParseCIDR\<close> of the text, or else \<open>ParseIP\<close>: the address it names.\<close>

definition addr_of :: "string \<Rightarrow> ip option" where
  "addr_of s = (case ParseCIDR s of Some (a, _) \<Rightarrow> Some a | None \<Rightarrow> ParseIP s)"

text \<open>\<open>ip.To4().String()\<close>: the text \<open><nil>\<close> for an address that is not IPv4.\<close>

definition to4_string :: "ip \<Rightarrow> string" where
  "to4_string a = IP_String (map_option IP4 (To4 a))"

text \<open>\<open>if ip != nil { used[ip.To4().String()] = true }\<close>, and its IPv6 counterpart.\<close>

definition mark4 :: "ip option \<Rightarrow> string list" where
  "mark4 x = (case x of Some a \<Rightarrow> [to4_string a] | None \<Rightarrow> [])"

definition mark6 :: "ip option \<Rightarrow> string list" where
  "mark6 x = (case x of Some a \<Rightarrow> [IP_String (Some (IP16 (To16 a)))] | None \<Rightarrow> [])"

definition broadcastAddr :: "IPNet \<Rightarrow> 32 word" where
  "broadcastAddr n =
     (case To4 (netIP n) of
        Some w \<Rightarrow> w OR NOT (if netBits n = 32 then mask32 (netOnes n)
                          else ucast (drop_bit 96 (mask128 (netOnes n))))
      | None \<Rightarrow> 0)"

definition incrementIP :: "32 word \<Rightarrow> 32 word" where
  "incrementIP v = v + 1"

text \<open>The addresses \<open>AllocateOverlayIP\<close> marks as used, in order.\<close>

definition used4 :: "IPNet \<Rightarrow> 32 word \<Rightarrow> string \<Rightarrow> WireGuardPeer list \<Rightarrow> Node list \<Rightarrow> string list" where
  "used4 ipNet networkIP controllerAddr peers nodes =
     [IPv4_string networkIP, IPv4_string (broadcastAddr ipNet)] @
     (if controllerAddr \<noteq> '''' then mark4 (addr_of controllerAddr) else []) @
     concat (map (\<lambda>p. concat (map (\<lambda>cidr. mark4 (addr_of cidr)) (peerAllowedIPs p))) peers) @
     concat (map (\<lambda>n. if nodeWireGuardIP n \<noteq> '''' then mark4 (ParseIP (nodeWireGuardIP n)) else []) nodes)"

text \<open>The search loop; its value is \<open>None\<close> when it does not end.\<close>

partial_function (option) alloc4_loop :: "IPNet \<Rightarrow> string list \<Rightarrow> string \<Rightarrow> 32 word \<Rightarrow> string result option" where
  "alloc4_loop ipNet used subnet ip =
     (if net_Contains ipNet (IP4 ip) then
        (if IPv4_string ip \<notin> set used then Some (Inr (IPv4_string ip))
         else alloc4_loop ipNet used subnet (incrementIP ip))
      else Some (Inl (Wrapf (''overlay subnet '' @ subnet @ '' exhausted'') ErrConflict)))"

definition lastIPv6Addr :: "IPNet \<Rightarrow> 128 word" where
  "lastIPv6Addr n = To16 (netIP n) OR NOT (mask128 (netOnes n))"

definition used6 :: "IPNet \<Rightarrow> string \<Rightarrow> WireGuardPeer list \<Rightarrow> Node list \<Rightarrow> string list" where
  "used6 ipNet controllerAddr peers nodes =
     [IP_String (Some (IP16 (To16 (netIP ipNet))))] @
     (if controllerAddr \<noteq> '''' then mark6 (addr_of controllerAddr) else []) @
     concat (map (\<lambda>p. concat (map (\<lambda>cidr.
        let ip = addr_of cidr in if ip \<noteq> None \<and> To4 (the ip) = None then mark6 ip else [])
        (peerAllowedIPs p))) peers) @
     concat (map (\<lambda>n. if nodeWireGuardIPv6 n \<noteq> '''' then mark6 (ParseIP (nodeWireGuardIPv6 n)) else []) nodes)"

text \<open>The text of the 16-byte address whose big-endian value is \<open>i\<close>.\<close>

definition big_ip_string :: "nat \<Rightarrow> string" where
  "big_ip_string i = IP_String (Some (IP16 (word_of_nat i)))"

text \<open>The loop over \<open>big.Int\<close>s, which do not wrap around.\<close>

function alloc6_loop :: "string list \<Rightarrow> string \<Rightarrow> nat \<Rightarrow> nat \<Rightarrow> string result" where
  "alloc6_loop used subnet lastIP current =
     (if current \<le> lastIP then
        (if big_ip_string current \<notin> set used then Inr (big_ip_string current)
         else alloc6_loop used subnet lastIP (current + 1))
      else Inl (Wrapf (''overlay IPv6 subnet '' @ subnet @ '' exhausted'') ErrConflict))"
  by pat_completeness auto
termination
  by (relation "measure (\<lambda>(used, subnet, lastIP, current). Suc lastIP - current)") auto

declare alloc6_loop.simps [simp del]

text \<open>\<open>IPNet.String\<close> of an IPv6 network.\<close>

definition net_String6 :: "IPNet \<Rightarrow> string" where
  "net_String6 n = IP_String (Some (netIP n)) @ ''/'' @ utoa (netOnes n)"

definition allocateOverlayIPv6 ::
  "IPNet \<Rightarrow> string \<Rightarrow> WireGuardPeer list \<Rightarrow> Node list \<Rightarrow> string result" where
  "allocateOverlayIPv6 ipNet controllerAddr peers nodes =
     alloc6_loop (used6 ipNet controllerAddr peers nodes) (net_String6 ipNet)
       (unat (lastIPv6Addr ipNet)) (unat (To16 (netIP ipNet)) + 1)"

definition AllocateOverlayIP ::
  "string \<Rightarrow> string \<Rightarrow> WireGuardPeer list \<Rightarrow> Node list \<Rightarrow> string result option" where
  "AllocateOverlayIP subnet controllerAddr peers nodes =
     (case ParseCIDR subnet of
        None \<Rightarrow> Some (Inl (Errorf (''parse subnet '' @ subnet)))
      | Some (_, ipNet) \<Rightarrow>
          (case To4 (netIP ipNet) of
             None \<Rightarrow> Some (allocateOverlayIPv6 ipNet controllerAddr peers nodes)
           | Some networkIP \<Rightarrow>
               alloc4_loop ipNet (used4 ipNet networkIP controllerAddr peers nodes) subnet
                 (incrementIP networkIP)))"

section \<open>IPv4 allocation\<close>

text \<open>The IPv4 addresses that are taken: what the code looks at, as addresses.\<close>

definition taken4 :: "IPNet \<Rightarrow> 32 word \<Rightarrow> string \<Rightarrow> WireGuardPeer list \<Rightarrow> Node list \<Rightarrow> 32 word set" where
  "taken4 ipNet networkIP controllerAddr peers nodes =
     {networkIP, broadcastAddr ipNet} \<union>
     {w. controllerAddr \<noteq> '''' \<and> (\<exists>a. addr_of controllerAddr = Some a \<and> To4 a = Some w)} \<union>
     {w. \<exists>p \<in> set peers. \<exists>c \<in> set (peerAllowedIPs p). \<exists>a. addr_of c = Some a \<and> To4 a = Some w} \<union>
     {w. \<exists>n \<in> set nodes. nodeWireGuardIP n \<noteq> '''' \<and>
         (\<exists>a. ParseIP (nodeWireGuardIP n) = Some a \<and> To4 a = Some w)}"

lemma nil_not_IPv4 [simp]: "''<nil>'' \<noteq> IPv4_string w" "IPv4_string w \<noteq> ''<nil>''"
proof -
  have "parseIPv4 ''<nil>'' = None"
    by (simp add: parseIPv4_def parse_octet_def is_digit_def)
  then show "''<nil>'' \<noteq> IPv4_string w" "IPv4_string w \<noteq> ''<nil>''"
    by (metis option.distinct(1) parseIPv4_string)+
qed

lemma to4_string_eq [simp]: "IPv4_string w = to4_string a \<longleftrightarrow> To4 a = Some w"
  by (cases "To4 a") (auto simp: to4_string_def)

lemma in_set_concat_map: "x \<in> set (concat (map g ys)) \<longleftrightarrow> (\<exists>y \<in> set ys. x \<in> set (g y))"
  by simp

lemma mark4_iff: "IPv4_string w \<in> set (mark4 x) \<longleftrightarrow> (\<exists>a. x = Some a \<and> To4 a = Some w)"
  by (cases x) (simp_all add: mark4_def)

lemma used4_taken4:
  "IPv4_string w \<in> set (used4 ipNet networkIP controllerAddr peers nodes) \<longleftrightarrow>
     w \<in> taken4 ipNet networkIP controllerAddr peers nodes"
proof -
  have cond: "IPv4_string w \<in> set (if s \<noteq> '''' then mark4 x else []) \<longleftrightarrow>
      s \<noteq> '''' \<and> (\<exists>a. x = Some a \<and> To4 a = Some w)" for s :: string and x
    using mark4_iff [of w x] by simp
  show ?thesis
    unfolding used4_def taken4_def set_append Un_iff in_set_concat_map cond mark4_iff by simp
qed

lemma unat_add_nat: "unat (b + word_of_nat k) = (unat b + k) mod 2 ^ 32" for b :: "32 word"
  by (simp add: unat_word_ariths unat_of_nat mod_simps)

text \<open>
  The loop on the addresses \<open>base + k\<close> of a proper prefix: it stops at the first
  address that is not used, or past the end of the prefix.
\<close>

lemma alloc4_loop_spec:
  assumes "1 \<le> n" "0 < k" "k \<le> 2 ^ (32 - n)" and base_def: "base = w AND mask32 n"
  shows "(\<exists>j. k \<le> j \<and> j < 2 ^ (32 - n) \<and> IPv4_string (base + word_of_nat j) \<notin> set used \<and>
              (\<forall>i. k \<le> i \<and> i < j \<longrightarrow> IPv4_string (base + word_of_nat i) \<in> set used) \<and>
              alloc4_loop (net4 w n) used subnet (base + word_of_nat k) =
                Some (Inr (IPv4_string (base + word_of_nat j)))) \<or>
         (\<forall>i. k \<le> i \<and> i < 2 ^ (32 - n) \<longrightarrow> IPv4_string (base + word_of_nat i) \<in> set used) \<and>
           alloc4_loop (net4 w n) used subnet (base + word_of_nat k) =
             Some (Inl (Wrapf (''overlay subnet '' @ subnet @ '' exhausted'') ErrConflict))"
  using assms(2,3)
proof (induction "2 ^ (32 - n) - k" arbitrary: k)
  case 0
  have H: "2 ^ (32 - n) \<le> (2 ^ 31 :: nat)" using assms(1) by (intro power_increasing) auto
  have k: "k = 2 ^ (32 - n)" using 0 by simp
  have top: "unat base + 2 ^ (32 - n) \<le> 2 ^ 32" unfolding base_def by (rule net4_top)
  note unat_add_nat [of base k]
  moreover have "\<not> (unat base \<le> (unat base + k) mod 2 ^ 32 \<and> (unat base + k) mod 2 ^ 32 < unat base + k)"
  proof (cases "unat base + k = 2 ^ 32")
    case True
    then show ?thesis using H k by simp
  next
    case False
    then show ?thesis using top k by simp
  qed
  ultimately have "\<not> net_Contains (net4 w n) (IP4 (base + word_of_nat k))"
    unfolding net4_Contains base_def [symmetric] using k by simp
  then have "alloc4_loop (net4 w n) used subnet (base + word_of_nat k) =
      Some (Inl (Wrapf (''overlay subnet '' @ subnet @ '' exhausted'') ErrConflict))"
    by (subst alloc4_loop.simps) simp
  moreover have "\<not> (k \<le> i \<and> i < 2 ^ (32 - n))" for i using k by simp
  ultimately show ?case by blast
next
  case (Suc d)
  have lt: "k < 2 ^ (32 - n)" using Suc.hyps(2) by simp
  have "unat base + k < 2 ^ 32" using net4_top [of w n] lt unfolding base_def by simp
  then have u: "unat (base + word_of_nat k) = unat base + k"
    by (simp add: unat_add_nat)
  have inside: "net_Contains (net4 w n) (IP4 (base + word_of_nat k))"
    unfolding net4_Contains base_def [symmetric] u using lt by simp
  have inc: "incrementIP (base + word_of_nat k) = base + word_of_nat (Suc k)"
    by (simp add: incrementIP_def)
  have IH: "d = 2 ^ (32 - n) - Suc k" "0 < Suc k" "Suc k \<le> 2 ^ (32 - n)" using Suc.hyps(2) lt by auto
  show ?case
  proof (cases "IPv4_string (base + word_of_nat k) \<in> set used")
    case False
    then have "alloc4_loop (net4 w n) used subnet (base + word_of_nat k) =
        Some (Inr (IPv4_string (base + word_of_nat k)))"
      using inside by (subst alloc4_loop.simps) simp
    then show ?thesis using False lt by auto
  next
    case True
    then have step: "alloc4_loop (net4 w n) used subnet (base + word_of_nat k) =
        alloc4_loop (net4 w n) used subnet (base + word_of_nat (Suc k))"
      using inside inc by (subst alloc4_loop.simps) simp
    have ext: "k \<le> i \<Longrightarrow> Suc k \<le> i \<or> i = k" for i by auto
    show ?thesis
      using Suc.hyps(1) [OF IH] True unfolding step by (metis Suc_leD ext)
  qed
qed

text \<open>
  C12: for an IPv4 overlay prefix (of length at least one) the allocation always
  returns.  It returns the lowest address above the network address that is not
  taken by the network or broadcast address, the controller, a peer's allowed
  addresses or a node; and it fails with a conflict exactly when every address
  of the prefix is taken.
\<close>

theorem AllocateOverlayIP_v4:
  assumes "ParseCIDR subnet = Some (a, net4 w n)" "1 \<le> n"
    and base: "base = w AND mask32 n"
    and taken: "taken = taken4 (net4 w n) base controllerAddr peers nodes"
  shows "(\<exists>k. 0 < k \<and> k < 2 ^ (32 - n) \<and> base + word_of_nat k \<notin> taken \<and>
              (\<forall>i. 0 < i \<and> i < k \<longrightarrow> base + word_of_nat i \<in> taken) \<and>
              AllocateOverlayIP subnet controllerAddr peers nodes =
                Some (Inr (IPv4_string (base + word_of_nat k)))) \<or>
         (\<forall>i. 0 < i \<and> i < 2 ^ (32 - n) \<longrightarrow> base + word_of_nat i \<in> taken) \<and>
           (\<exists>e. AllocateOverlayIP subnet controllerAddr peers nodes = Some (Inl e) \<and> errors_Is e ErrConflict)"
proof -
  have run: "AllocateOverlayIP subnet controllerAddr peers nodes =
      alloc4_loop (net4 w n) (used4 (net4 w n) base controllerAddr peers nodes) subnet (base + word_of_nat 1)"
    using assms(1) by (simp add: AllocateOverlayIP_def net4_def base incrementIP_def)
  have "(1::nat) \<le> i \<longleftrightarrow> 0 < i" for i by auto
  then show ?thesis
    using alloc4_loop_spec [OF assms(2) zero_less_one _ base,
        of "used4 (net4 w n) base controllerAddr peers nodes" subnet]
    unfolding run used4_taken4 taken [symmetric] by auto
qed

lemma parse_24: "ParseCIDR ''10.100.0.0/24'' = Some (IP16 (v4_mapped 0x0A640000), net4 0x0A640000 24)"
proof -
  have o: "parse_octet ''10'' = Some 10" "parse_octet ''100'' = Some 100" "parse_octet ''0'' = Some 0"
    by (simp_all add: parse_octet_def is_digit_def dec_val_def digit_val_def)
  have "dtoi_all ''24'' = Some 24"
    by (simp add: dtoi_all_def is_digit_def dec_val_def digit_val_def)
  moreover have "parseIPv4 ''10.100.0.0'' = Some 0x0A640000"
    by (simp add: parseIPv4_def o word_of_octets_def)
  moreover have "ucast (v4_mapped 0x0A640000) = (0x0A640000 :: 32 word)"
    by (simp add: v4_mapped_def)
  ultimately show ?thesis by (simp add: ParseCIDR_def ParseAddr_def net4_def)
qed

theorem AllocateOverlayIP_v4_witness:
  "\<exists>k. 0 < k \<and> k < 256 \<and>
       AllocateOverlayIP ''10.100.0.0/24'' '''' [] [] = Some (Inr (IPv4_string (0x0A640000 + word_of_nat k)))"
proof -
  let ?b = "0x0A640000 :: 32 word"
  have m: "?b AND mask32 24 = ?b" by (simp add: mask32_def mask_eq_exp_minus_1)
  have "?b + 1 \<notin> taken4 (net4 ?b 24) ?b '''' [] []"
    by (simp add: taken4_def broadcastAddr_def net4_def m) (simp add: mask32_def mask_eq_exp_minus_1)
  then have free: "\<not> (\<forall>i. 0 < i \<and> i < 2 ^ (32 - 24) \<longrightarrow> ?b + word_of_nat i \<in> taken4 (net4 ?b 24) ?b '''' [] [])"
    by (auto intro!: exI [of _ 1])
  show ?thesis
    using AllocateOverlayIP_v4 [OF parse_24 _ _ refl, of ?b "''''" "[]" "[]"] free m by auto
qed

lemma AllocateOverlayIP_unused:
  assumes "ParseCIDR subnet = Some (a, net4 w n)" "1 \<le> n"
    and "AllocateOverlayIP subnet controllerAddr peers nodes = Some (Inr s)"
  shows "\<exists>v. s = IPv4_string v \<and> v \<notin> taken4 (net4 w n) (w AND mask32 n) controllerAddr peers nodes"
proof -
  let ?used = "used4 (net4 w n) (w AND mask32 n) controllerAddr peers nodes"
  have "AllocateOverlayIP subnet controllerAddr peers nodes =
      alloc4_loop (net4 w n) ?used subnet ((w AND mask32 n) + word_of_nat 1)"
    using assms(1) by (simp add: AllocateOverlayIP_def net4_def incrementIP_def)
  then show ?thesis
    using alloc4_loop_spec [OF assms(2) zero_less_one _ refl, of w ?used subnet] assms(3)
    by (auto simp: used4_taken4)
qed

text \<open>
  An address that a node of the table already has is never handed out again,
  so storing each allocated address in its node keeps the addresses distinct.
\<close>

theorem AllocateOverlayIP_fresh:
  assumes "ParseCIDR subnet = Some (a, net4 w n)" "1 \<le> n"
    and "AllocateOverlayIP subnet controllerAddr peers nodes = Some (Inr s)"
    and "m \<in> set nodes" "nodeWireGuardIP m = IPv4_string v"
  shows "s \<noteq> IPv4_string v"
proof -
  let ?base = "w AND mask32 n"
  have "v \<in> taken4 (net4 w n) ?base controllerAddr peers nodes"
  proof -
    have "nodeWireGuardIP m \<noteq> ''''" using assms(5) by (simp add: IPv4_string_def)
    moreover have "ParseIP (nodeWireGuardIP m) = Some (IP16 (v4_mapped v))" using assms(5) by simp
    ultimately show ?thesis
      unfolding taken4_def using assms(4) To4_v4_mapped [of v] by blast
  qed
  then show ?thesis using AllocateOverlayIP_unused [OF assms(1-3)] by auto
qed

definition example_node :: "string \<Rightarrow> Node" where
  "example_node wgIP = \<lparr>nodeID = 7, nodeTenantID = None, nodeName = ''edge-1'', nodeHostname = ''edge-1'',
     nodePublicIP = ''198.51.100.7'', nodeWireGuardIP = wgIP, nodeWireGuardIPv6 = '''',
     nodeStatus = NodeStatusOnline, nodeRegion = '''', nodeProvider = '''', nodeSSHPort = 22,
     nodeSSHUser = ''root'', nodeSSHKeyID = None, nodeBinaryVersion = '''', nodeLastHeartbeat = None,
     nodeLastConfigSync = None, nodeCapabilities = [], nodeMetadata = '''', nodeCreatedAt = 0, nodeUpdatedAt = 0\<rparr>"

lemma example_alloc:
  "AllocateOverlayIP ''10.100.0.0/24'' '''' [] [example_node (IPv4_string 0x0A640001)] =
     Some (Inr (IPv4_string 0x0A640002))"
proof -
  let ?b = "0x0A640000 :: 32 word"
  let ?ns = "[example_node (IPv4_string 0x0A640001)]"
  let ?used = "used4 (net4 ?b 24) ?b '''' [] ?ns"
  have m: "?b AND mask32 24 = ?b" by (simp add: mask32_def mask_eq_exp_minus_1)
  have bc: "broadcastAddr (net4 ?b 24) = 0x0A6400FF"
    by (simp add: broadcastAddr_def net4_def m) (simp add: mask32_def mask_eq_exp_minus_1)
  have "IPv4_string 0x0A640001 \<noteq> ''''" by (simp add: IPv4_string_def)
  then have used: "?used = [IPv4_string ?b, IPv4_string 0x0A6400FF, IPv4_string 0x0A640001]"
    using To4_v4_mapped [of "0x0A640001"]
    by (simp add: used4_def bc example_node_def mark4_def to4_string_def del: To4.simps(2))
  have inside: "net_Contains (net4 ?b 24) (IP4 0x0A640001)" "net_Contains (net4 ?b 24) (IP4 0x0A640002)"
    unfolding net4_Contains m by simp_all
  have "AllocateOverlayIP ''10.100.0.0/24'' '''' [] ?ns =
      alloc4_loop (net4 ?b 24) ?used ''10.100.0.0/24'' (incrementIP ?b)"
    unfolding AllocateOverlayIP_def parse_24 by (simp add: net4_def m)
  also have "incrementIP ?b = 0x0A640001" by (simp add: incrementIP_def)
  also have "alloc4_loop (net4 ?b 24) ?used ''10.100.0.0/24'' 0x0A640001 =
      alloc4_loop (net4 ?b 24) ?used ''10.100.0.0/24'' 0x0A640002"
    using inside(1) by (subst alloc4_loop.simps) (simp add: used incrementIP_def)
  also have "\<dots> = Some (Inr (IPv4_string 0x0A640002))"
    using inside(2) by (subst alloc4_loop.simps) (simp add: used)
  finally show ?thesis .
qed

theorem AllocateOverlayIP_fresh_witness:
  "AllocateOverlayIP ''10.100.0.0/24'' '''' [] [example_node (IPv4_string 0x0A640001)] =
     Some (Inr (IPv4_string 0x0A640002)) \<and>
   IPv4_string 0x0A640002 \<noteq> IPv4_string 0x0A640001"
  using AllocateOverlayIP_fresh [OF parse_24 _ example_alloc, of _ "0x0A640001"] example_alloc
  by (auto simp: example_node_def)

section \<open>IPv6 allocation\<close>

lemma alloc6_loop_spec:
  "(\<exists>j. current \<le> j \<and> j \<le> lastIP \<and> big_ip_string j \<notin> set used \<and>
        (\<forall>i. current \<le> i \<and> i < j \<longrightarrow> big_ip_string i \<in> set used) \<and>
        alloc6_loop used subnet lastIP current = Inr (big_ip_string j)) \<or>
   (\<forall>i. current \<le> i \<and> i \<le> lastIP \<longrightarrow> big_ip_string i \<in> set used) \<and>
     alloc6_loop used subnet lastIP current =
       Inl (Wrapf (''overlay IPv6 subnet '' @ subnet @ '' exhausted'') ErrConflict)"
proof (induction used subnet lastIP current rule: alloc6_loop.induct)
  case (1 used subnet lastIP current)
  consider "\<not> current \<le> lastIP" | "current \<le> lastIP" "big_ip_string current \<notin> set used"
    | "current \<le> lastIP" "big_ip_string current \<in> set used" by blast
  then show ?case
  proof cases
    case 1
    then show ?thesis by (auto simp: alloc6_loop.simps)
  next
    case 2
    then have "alloc6_loop used subnet lastIP current = Inr (big_ip_string current)"
      by (simp add: alloc6_loop.simps)
    then show ?thesis using 2 by auto
  next
    case 3
    have step: "alloc6_loop used subnet lastIP current = alloc6_loop used subnet lastIP (current + 1)"
      using 3 by (subst alloc6_loop.simps) simp
    have ext: "current \<le> i \<longleftrightarrow> i = current \<or> current + 1 \<le> i" for i by auto
    show ?thesis
      using "1.IH" 3 unfolding step ext by blast
  qed
qed

lemma lastIPv6Addr_net:
  "unat (lastIPv6Addr \<lparr>netIP = IP16 (w AND mask128 n), netOnes = n, netBits = 128\<rparr>) =
     unat (w AND mask128 n) + (2 ^ (128 - n) - 1)"
proof -
  let ?h = "128 - n"
  have dis: "(w AND NOT (mask ?h)) AND mask ?h = 0"
    by (rule bit_word_eqI) (auto simp: bit_and_iff bit_not_iff bit_mask_iff)
  have "unat (w AND NOT (mask ?h)) + unat (mask ?h :: 128 word) =
        unat ((w AND NOT (mask ?h)) OR mask ?h)"
    using disjunctive_add_eq_or [of "unat (w AND NOT (mask ?h))" "unat (mask ?h :: 128 word)"]
    by (simp only: unsigned_or_eq dis unsigned_0 flip: unsigned_and_eq)
  moreover have "unat (mask ?h :: 128 word) = mask ?h"
    by (rule bit_eqI) (auto simp: bit_unsigned_iff bit_mask_iff)
  then have "unat (mask ?h :: 128 word) = 2 ^ ?h - 1" by (simp add: mask_eq_exp_minus_1)
  ultimately show ?thesis by (simp add: lastIPv6Addr_def mask128_def)
qed


lemma parse_v6_example:
  "ParseCIDR ''fd00::/126'' =
     Some (IP16 0xfd000000000000000000000000000000,
           \<lparr>netIP = IP16 (0xfd000000000000000000000000000000 AND mask128 126), netOnes = 126, netBits = 128\<rparr>)"
proof -
  have h: "hex_run ''fd00::'' = (''fd00'', ''::'')" "hex_num ''fd00'' = 0xfd00"
    by (simp_all add: hex_run_def hex_num_def hex_val_def)
  have "parse_groups [] None ''fd00::'' = Some ([0xfd00], Some 1)"
    by (subst parse_groups.simps) (simp add: h)
  moreover have "replicate 7 (0::nat) = [0, 0, 0, 0, 0, 0, 0]" by (simp add: numeral_eq_Suc)
  ultimately have "parseIPv6 ''fd00::'' = Some 0xfd000000000000000000000000000000"
    by (simp add: parseIPv6_def HasPrefix_def expand_groups_def groups_word_def)
  moreover have "dtoi_all ''126'' = Some 126"
    by (simp add: dtoi_all_def is_digit_def dec_val_def digit_val_def)
  ultimately show ?thesis by (simp add: ParseCIDR_def ParseAddr_def)
qed


section \<open>Key clamping\<close>

text \<open>
  A generated private key is a clamped X25519 scalar.  When 32 random bytes were
  read and the public key was derived, the key pair is the encoding of a private
  key whose low three bits are clear, whose top bit is clear and whose bit 254 is
  set, all other bits being the random ones, and of the public key of exactly that
  private key; clamping it again changes nothing.
\<close>

theorem GenerateWireGuardKeyPair_clamped:
  assumes "length bytes = 32" and "x25519 (clamp bytes) = Inr pub"
  shows "GenerateWireGuardKeyPair (Inr bytes) x25519 encode =
           Inr \<lparr>kpPrivateKey = encode (clamp bytes), kpPublicKey = encode pub\<rparr> \<and>
         length (clamp bytes) = 32 \<and> clamp (clamp bytes) = clamp bytes \<and>
         (\<forall>i < 32. \<forall>b < 8. bit (clamp bytes ! i) b =
            (if i = 0 \<and> b < 3 then False
             else if i = 31 \<and> b = 7 then False
             else if i = 31 \<and> b = 6 then True
             else bit (bytes ! i) b))"
proof -
  have m: "bit (248 :: int) b \<longleftrightarrow> 3 \<le> b \<and> b < 8" "bit (127 :: int) b \<longleftrightarrow> b < 7"
    "bit (64 :: int) b \<longleftrightarrow> b = 6" if "b < 8" for b
    using that by (simp_all add: less_Suc_eq numeral_eq_Suc) (elim disjE; simp)+
  have nth: "clamp bytes ! i =
      (if i = 0 then bytes ! 0 AND 248
       else if i = 31 then (bytes ! 31 AND 127) OR 64 else bytes ! i)" if "i < 32" for i
    using that assms(1) by (simp add: clamp_def Let_def nth_list_update)
  have len: "length (clamp bytes) = 32" using assms(1) by (simp add: clamp_def Let_def)
  have bits: "\<forall>i < 32. \<forall>b < 8. bit (clamp bytes ! i) b =
            (if i = 0 \<and> b < 3 then False
             else if i = 31 \<and> b = 7 then False
             else if i = 31 \<and> b = 6 then True
             else bit (bytes ! i) b)"
  proof (intro allI impI)
    fix i b :: nat assume "i < 32" "b < 8"
    then show "bit (clamp bytes ! i) b =
            (if i = 0 \<and> b < 3 then False
             else if i = 31 \<and> b = 7 then False
             else if i = 31 \<and> b = 6 then True
             else bit (bytes ! i) b)"
      by (auto simp: nth bit_and_iff bit_or_iff m [OF \<open>b < 8\<close>])
  qed
  have "clamp (clamp bytes) = clamp bytes"
    using len nth [of 0] nth [of 31]
    by (simp add: clamp_def [of "clamp bytes"] Let_def and.assoc bit.conj_disj_distrib2)
      (metis list_update_id)
  then show ?thesis using assms(2) len bits by (simp add: GenerateWireGuardKeyPair_def Let_def)
qed

theorem GenerateWireGuardKeyPair_clamped_witness:
  "GenerateWireGuardKeyPair (Inr (replicate 32 255)) (\<lambda>k. Inr (rev k)) (\<lambda>k. itoa (int (length k))) =
     Inr \<lparr>kpPrivateKey = ''32'', kpPublicKey = ''32''\<rparr> \<and>
   \<not> bit (clamp (replicate 32 255) ! 0) 2"
proof -
  have "length (clamp (replicate 32 255)) = 32" "itoa 32 = ''32''" by code_simp+
  then show ?thesis
    using GenerateWireGuardKeyPair_clamped [of "replicate 32 255" "\<lambda>k. Inr (rev k)"
        "rev (clamp (replicate 32 255))" "\<lambda>k. itoa (int (length k))"] by auto
qed

end
