(* ===== verification/EF_Storage.thy ===== *)
theory EF_Storage
  imports EF_Domain "HOL-Library.List_Lexorder" "HOL-Library.Char_ord"
begin

text \<open>
  \<open>storage/sqlite\<close>: the tables and the store operations.

  \<^item> A table is the list of its rows in insertion order.  A row is the domain
    struct; rows of the child tables (capabilities, allowed addresses, announced
    prefixes, site domains) are kept inside their parent row, their primary key
    making them distinct.  A zone's serial is an SQL integer beside the struct,
    because the column is wider than the Go field it is read into.
  \<^item> A call runs on a pooled connection.  \<open>connFK\<close> says whether that connection
    enforces foreign keys (the pragma is set on one connection of the pool only),
    \<open>connErr\<close> is the message when the driver fails one of the statements of
    the call; a failed call has no effect, since a statement is atomic and several
    statements run in one transaction.
  \<^item> An operation returns its Go result and the new database.  Where the Go code
    fills in fields of its argument, the result carries the struct after that.
\<close>

section \<open>Connections and statements\<close>

record conn =
  connFK :: bool
  connErr :: "string option"

datatype sql_fail = Driver string | Unique | ForeignKey

definition sql_message :: "sql_fail \<Rightarrow> string" where
  "sql_message f = (case f of
     Driver m \<Rightarrow> m
   | Unique \<Rightarrow> ''UNIQUE constraint failed''
   | ForeignKey \<Rightarrow> ''FOREIGN KEY constraint failed'')"

text \<open>A statement that would satisfy the key and reference constraints as given.\<close>

definition sql_exec :: "conn \<Rightarrow> bool \<Rightarrow> bool \<Rightarrow> sql_fail option" where
  "sql_exec c unique refs =
     (case connErr c of
        Some m \<Rightarrow> Some (Driver m)
      | None \<Rightarrow> if \<not> unique then Some Unique
                else if connFK c \<and> \<not> refs then Some ForeignKey else None)"

fun searchString :: "string \<Rightarrow> string \<Rightarrow> bool" where
  "searchString [] substr = (substr = [])"
| "searchString (x # s) substr =
     (take (length substr) (x # s) = substr \<or> searchString s substr)"

definition contains :: "string \<Rightarrow> string \<Rightarrow> bool" where
  "contains s substr = (length substr \<le> length s \<and> searchString s substr)"

definition isUniqueViolation :: "sql_fail option \<Rightarrow> bool" where
  "isUniqueViolation err =
     (case err of None \<Rightarrow> False | Some f \<Rightarrow> contains (sql_message f) ''UNIQUE constraint failed'')"

text \<open>The two ways a failed statement is reported: with and without the uniqueness test.\<close>

definition insert_error :: "string \<Rightarrow> string \<Rightarrow> sql_fail \<Rightarrow> error" where
  "insert_error already label f =
     (if isUniqueViolation (Some f) then Wrapf already ErrAlreadyExists
      else Wrapf label (Errorf (sql_message f)))"

definition exec_error :: "string \<Rightarrow> sql_fail \<Rightarrow> error" where
  "exec_error label f = Wrapf label (Errorf (sql_message f))"

text \<open>A query that the driver may fail, and a single-row query.\<close>

definition sql_query :: "conn \<Rightarrow> string \<Rightarrow> 'a \<Rightarrow> 'a result" where
  "sql_query c label x =
     (case connErr c of Some m \<Rightarrow> Inl (Wrapf label (Errorf m)) | None \<Rightarrow> Inr x)"

definition sql_row :: "conn \<Rightarrow> string \<Rightarrow> 'a option \<Rightarrow> 'a result" where
  "sql_row c label x =
     (case connErr c of
        Some m \<Rightarrow> Inl (Wrapf label (Errorf m))
      | None \<Rightarrow> (case x of None \<Rightarrow> Inl ErrNotFound | Some r \<Rightarrow> Inr r))"

section \<open>Rows\<close>

definition row_find :: "('a \<Rightarrow> 'k) \<Rightarrow> 'k \<Rightarrow> 'a list \<Rightarrow> 'a option" where
  "row_find key k rows = find (\<lambda>r. key r = k) rows"

definition row_mem :: "('a \<Rightarrow> 'k) \<Rightarrow> 'k \<Rightarrow> 'a list \<Rightarrow> bool" where
  "row_mem key k rows = list_ex (\<lambda>r. key r = k) rows"

definition row_update :: "('a \<Rightarrow> 'k) \<Rightarrow> 'k \<Rightarrow> ('a \<Rightarrow> 'a) \<Rightarrow> 'a list \<Rightarrow> 'a list" where
  "row_update key k f rows = map (\<lambda>r. if key r = k then f r else r) rows"

definition row_delete :: "('a \<Rightarrow> 'k) \<Rightarrow> 'k \<Rightarrow> 'a list \<Rightarrow> 'a list" where
  "row_delete key k rows = filter (\<lambda>r. key r \<noteq> k) rows"

text \<open>A nullable reference.\<close>

definition ref_opt :: "('a \<Rightarrow> 'k) \<Rightarrow> 'k option \<Rightarrow> 'a list \<Rightarrow> bool" where
  "ref_opt key ref rows = (case ref of None \<Rightarrow> True | Some k \<Rightarrow> row_mem key k rows)"

text \<open>An \<open>UPDATE\<close> or \<open>DELETE\<close> by primary key: constraints only matter for a hit.\<close>

definition sql_change :: "conn \<Rightarrow> (sql_fail \<Rightarrow> error) \<Rightarrow> bool \<Rightarrow> bool \<Rightarrow> bool \<Rightarrow> error option" where
  "sql_change c report unique refs hit =
     (case sql_exec c (hit \<longrightarrow> unique) (hit \<longrightarrow> refs) of
        Some f \<Rightarrow> Some (report f)
      | None \<Rightarrow> if hit then None else Some ErrNotFound)"

section \<open>Pages\<close>

definition DefaultLimit :: int where "DefaultLimit = 50"

record ListParams =
  lpOffset :: int
  lpLimit :: int

definition page :: "ListParams \<Rightarrow> 'a list \<Rightarrow> 'a list" where
  "page p rows =
     (let limit = (if lpLimit p \<le> 0 then DefaultLimit else lpLimit p)
      in take (nat limit) (drop (nat (lpOffset p)) rows))"

text \<open>\<open>ORDER BY created_at DESC\<close>, and by a text column.\<close>

definition newest_first :: "('a \<Rightarrow> Time) \<Rightarrow> 'a list \<Rightarrow> 'a list" where
  "newest_first created rows = sort_key (\<lambda>r. - created r) rows"

text \<open>The two statements of a list operation: the page and the total count.\<close>

definition sql_list :: "conn \<Rightarrow> string \<Rightarrow> ListParams \<Rightarrow> 'a list \<Rightarrow> ('a list \<times> int) result" where
  "sql_list c label p rows = sql_query c label (page p rows, int (length rows))"

section \<open>The database\<close>

record db =
  dbTenants :: "Tenant list"
  dbUsers :: "User list"
  dbAPIKeys :: "APIKey list"
  dbSSHKeys :: "SSHKey list"
  dbNodes :: "Node list"
  dbGroups :: "NodeGroup list"
  dbMembers :: "(ID \<times> ID) list"
  dbGateways :: "Gateway list"
  dbPeers :: "WireGuardPeer list"
  dbIPs :: "IPAllocation list"
  dbBGP :: "BGPSession list"
  dbZones :: "(DNSZone \<times> int) list"
  dbRecords :: "DNSRecord list"
  dbSites :: "CDNSite list"
  dbOrigins :: "CDNOrigin list"
  dbRoutes :: "Route list"
  dbTokens :: "EnrollmentToken list"
  dbJobs :: "ProvisioningJob list"
  dbAudit :: "AuditEvent list"

type_synonym 'a dbres = "'a result \<times> db"

definition empty_db :: db where
  "empty_db = \<lparr>dbTenants = [], dbUsers = [], dbAPIKeys = [], dbSSHKeys = [], dbNodes = [], dbGroups = [],
     dbMembers = [], dbGateways = [], dbPeers = [], dbIPs = [], dbBGP = [], dbZones = [], dbRecords = [],
     dbSites = [], dbOrigins = [], dbRoutes = [], dbTokens = [], dbJobs = [], dbAudit = []\<rparr>"

section \<open>Tenants\<close>

definition tenant_unique :: "Tenant \<Rightarrow> Tenant list \<Rightarrow> bool" where
  "tenant_unique t rows =
     (\<not> row_mem tenantName (tenantName t) rows \<and> \<not> row_mem tenantSlug (tenantSlug t) rows)"

definition tenant_defaults :: "Time \<Rightarrow> Tenant \<Rightarrow> Tenant" where
  "tenant_defaults now t =
     (let t = t\<lparr>tenantCreatedAt := now, tenantUpdatedAt := now\<rparr>;
          t = (if tenantStatus t = TenantStatusOther '''' then t\<lparr>tenantStatus := TenantStatusActive\<rparr> else t)
      in t)"

definition CreateTenant :: "conn \<Rightarrow> Time \<Rightarrow> Tenant \<Rightarrow> db \<Rightarrow> Tenant dbres" where
  "CreateTenant c now t d =
     (let t = tenant_defaults now t
      in case sql_exec c (\<not> row_mem tenantID (tenantID t) (dbTenants d) \<and> tenant_unique t (dbTenants d)) True of
           Some f \<Rightarrow> (Inl (insert_error ''tenant name or slug already exists'' ''insert tenant'' f), d)
         | None \<Rightarrow> (Inr t, d\<lparr>dbTenants := dbTenants d @ [t]\<rparr>))"

definition GetTenant :: "conn \<Rightarrow> ID \<Rightarrow> db \<Rightarrow> Tenant result" where
  "GetTenant c i d = sql_row c ''get tenant'' (row_find tenantID i (dbTenants d))"

definition GetTenantBySlug :: "conn \<Rightarrow> string \<Rightarrow> db \<Rightarrow> Tenant result" where
  "GetTenantBySlug c slug d = sql_row c ''get tenant by slug'' (row_find tenantSlug slug (dbTenants d))"

definition ListTenants :: "conn \<Rightarrow> ListParams \<Rightarrow> db \<Rightarrow> (Tenant list \<times> int) result" where
  "ListTenants c p d = sql_list c ''list tenants'' p (newest_first tenantCreatedAt (dbTenants d))"

definition UpdateTenant :: "conn \<Rightarrow> Time \<Rightarrow> Tenant \<Rightarrow> db \<Rightarrow> Tenant dbres" where
  "UpdateTenant c now t d =
     (let t = t\<lparr>tenantUpdatedAt := now\<rparr>
      in case sql_change c (insert_error ''tenant name or slug already exists'' ''update tenant'')
                (tenant_unique t (row_delete tenantID (tenantID t) (dbTenants d))) True
                (row_mem tenantID (tenantID t) (dbTenants d)) of
           Some e \<Rightarrow> (Inl e, d)
         | None \<Rightarrow> (Inr t, d\<lparr>dbTenants := row_update tenantID (tenantID t)
                      (\<lambda>r. t\<lparr>tenantCreatedAt := tenantCreatedAt r\<rparr>) (dbTenants d)\<rparr>))"

text \<open>No table refers to the tenant; all such references are restricting.\<close>

definition tenant_unreferenced :: "ID \<Rightarrow> db \<Rightarrow> bool" where
  "tenant_unreferenced i d =
     (\<not> row_mem userTenantID (Some i) (dbUsers d) \<and> \<not> row_mem keyTenantID i (dbAPIKeys d) \<and>
      \<not> row_mem nodeTenantID (Some i) (dbNodes d) \<and> \<not> row_mem groupTenantID i (dbGroups d) \<and>
      \<not> row_mem gwTenantID i (dbGateways d) \<and> \<not> row_mem ipTenantID i (dbIPs d) \<and>
      \<not> row_mem (zoneTenantID \<circ> fst) i (dbZones d) \<and> \<not> row_mem siteTenantID i (dbSites d) \<and>
      \<not> row_mem routeTenantID i (dbRoutes d) \<and> \<not> row_mem tokTenantID i (dbTokens d) \<and>
      \<not> row_mem jobTenantID (Some i) (dbJobs d))"

definition DeleteTenant :: "conn \<Rightarrow> ID \<Rightarrow> db \<Rightarrow> unit dbres" where
  "DeleteTenant c i d =
     (case sql_change c (exec_error ''delete tenant'') True (tenant_unreferenced i d)
             (row_mem tenantID i (dbTenants d)) of
        Some e \<Rightarrow> (Inl e, d)
      | None \<Rightarrow> (Inr (), d\<lparr>dbTenants := row_delete tenantID i (dbTenants d)\<rparr>))"

section \<open>Users and API keys\<close>

definition user_defaults :: "Time \<Rightarrow> User \<Rightarrow> User" where
  "user_defaults now u =
     (let u = u\<lparr>userCreatedAt := now, userUpdatedAt := now\<rparr>;
          u = (if userStatus u = UserStatusOther '''' then u\<lparr>userStatus := UserStatusActive\<rparr> else u)
      in u)"

definition CreateUser :: "conn \<Rightarrow> Time \<Rightarrow> User \<Rightarrow> db \<Rightarrow> User dbres" where
  "CreateUser c now u d =
     (let u = user_defaults now u
      in case sql_exec c (\<not> row_mem userID (userID u) (dbUsers d) \<and> \<not> row_mem userEmail (userEmail u) (dbUsers d))
                (ref_opt tenantID (userTenantID u) (dbTenants d)) of
           Some f \<Rightarrow> (Inl (insert_error ''email already exists'' ''insert user'' f), d)
         | None \<Rightarrow> (Inr u, d\<lparr>dbUsers := dbUsers d @ [u\<lparr>userLastLoginAt := None\<rparr>]\<rparr>))"

text \<open>\<open>scanUser\<close> of the selected row.\<close>

definition scanUser :: "conn \<Rightarrow> User option \<Rightarrow> User result" where
  "scanUser c row = sql_row c ''scan user'' row"

definition GetUser :: "conn \<Rightarrow> ID \<Rightarrow> db \<Rightarrow> User result" where
  "GetUser c i d = scanUser c (row_find userID i (dbUsers d))"

definition GetUserByEmail :: "conn \<Rightarrow> string \<Rightarrow> db \<Rightarrow> User result" where
  "GetUserByEmail c email d = scanUser c (row_find userEmail email (dbUsers d))"

definition ListUsers :: "conn \<Rightarrow> ID option \<Rightarrow> ListParams \<Rightarrow> db \<Rightarrow> (User list \<times> int) result" where
  "ListUsers c tenant p d =
     sql_list c ''list users'' p (newest_first userCreatedAt
       (case tenant of Some t \<Rightarrow> filter (\<lambda>u. userTenantID u = Some t) (dbUsers d) | None \<Rightarrow> dbUsers d))"

definition UpdateUser :: "conn \<Rightarrow> Time \<Rightarrow> User \<Rightarrow> db \<Rightarrow> User dbres" where
  "UpdateUser c now u d =
     (let u = u\<lparr>userUpdatedAt := now\<rparr>
      in case sql_change c (insert_error ''email already exists'' ''update user'')
                (\<not> row_mem userEmail (userEmail u) (row_delete userID (userID u) (dbUsers d)))
                (ref_opt tenantID (userTenantID u) (dbTenants d)) (row_mem userID (userID u) (dbUsers d)) of
           Some e \<Rightarrow> (Inl e, d)
         | None \<Rightarrow> (Inr u, d\<lparr>dbUsers := row_update userID (userID u)
                      (\<lambda>r. u\<lparr>userCreatedAt := userCreatedAt r\<rparr>) (dbUsers d)\<rparr>))"

definition DeleteUser :: "conn \<Rightarrow> ID \<Rightarrow> db \<Rightarrow> unit dbres" where
  "DeleteUser c i d =
     (case sql_change c (exec_error ''delete user'') True (\<not> row_mem keyUserID i (dbAPIKeys d))
             (row_mem userID i (dbUsers d)) of
        Some e \<Rightarrow> (Inl e, d)
      | None \<Rightarrow> (Inr (), d\<lparr>dbUsers := row_delete userID i (dbUsers d)\<rparr>))"

definition CreateAPIKey :: "conn \<Rightarrow> Time \<Rightarrow> APIKey \<Rightarrow> db \<Rightarrow> APIKey dbres" where
  "CreateAPIKey c now k d =
     (let k = k\<lparr>keyCreatedAt := now\<rparr>
      in case sql_exec c (\<not> row_mem keyID (keyID k) (dbAPIKeys d))
                (row_mem tenantID (keyTenantID k) (dbTenants d) \<and> row_mem userID (keyUserID k) (dbUsers d)) of
           Some f \<Rightarrow> (Inl (exec_error ''insert api key'' f), d)
         | None \<Rightarrow> (Inr k, d\<lparr>dbAPIKeys := dbAPIKeys d @ [k\<lparr>keyLastUsedAt := None\<rparr>]\<rparr>))"

definition GetAPIKey :: "conn \<Rightarrow> ID \<Rightarrow> db \<Rightarrow> APIKey result" where
  "GetAPIKey c i d = sql_row c ''get api key'' (row_find keyID i (dbAPIKeys d))"

definition GetAPIKeyByPrefix :: "conn \<Rightarrow> string \<Rightarrow> db \<Rightarrow> APIKey result" where
  "GetAPIKeyByPrefix c pfx d = sql_row c ''get api key by prefix'' (row_find keyKeyPrefix pfx (dbAPIKeys d))"

definition ListAPIKeys :: "conn \<Rightarrow> ID \<Rightarrow> ListParams \<Rightarrow> db \<Rightarrow> (APIKey list \<times> int) result" where
  "ListAPIKeys c tenant p d =
     sql_list c ''list api keys'' p (newest_first keyCreatedAt (filter (\<lambda>k. keyTenantID k = tenant) (dbAPIKeys d)))"

definition DeleteAPIKey :: "conn \<Rightarrow> ID \<Rightarrow> db \<Rightarrow> unit dbres" where
  "DeleteAPIKey c i d =
     (case sql_change c (exec_error ''delete api key'') True True (row_mem keyID i (dbAPIKeys d)) of
        Some e \<Rightarrow> (Inl e, d)
      | None \<Rightarrow> (Inr (), d\<lparr>dbAPIKeys := row_delete keyID i (dbAPIKeys d)\<rparr>))"

definition UpdateAPIKeyLastUsed :: "conn \<Rightarrow> Time \<Rightarrow> ID \<Rightarrow> db \<Rightarrow> unit dbres" where
  "UpdateAPIKeyLastUsed c now i d =
     (case sql_change c (exec_error ''update api key last used'') True True (row_mem keyID i (dbAPIKeys d)) of
        Some e \<Rightarrow> (Inl e, d)
      | None \<Rightarrow> (Inr (), d\<lparr>dbAPIKeys := row_update keyID i (\<lambda>r. r\<lparr>keyLastUsedAt := Some now\<rparr>) (dbAPIKeys d)\<rparr>))"

section \<open>SSH keys\<close>

definition CreateSSHKey :: "conn \<Rightarrow> Time \<Rightarrow> SSHKey \<Rightarrow> db \<Rightarrow> SSHKey dbres" where
  "CreateSSHKey c now k d =
     (let k = k\<lparr>sshCreatedAt := now, sshLastRotatedAt := now\<rparr>
      in case sql_exec c (\<not> row_mem sshID (sshID k) (dbSSHKeys d)) True of
           Some f \<Rightarrow> (Inl (insert_error ''SSH key already exists'' ''insert ssh key'' f), d)
         | None \<Rightarrow> (Inr k, d\<lparr>dbSSHKeys := dbSSHKeys d @ [k]\<rparr>))"

definition GetSSHKey :: "conn \<Rightarrow> ID \<Rightarrow> db \<Rightarrow> SSHKey result" where
  "GetSSHKey c i d = sql_row c ''get ssh key'' (row_find sshID i (dbSSHKeys d))"

definition ListSSHKeys :: "conn \<Rightarrow> ListParams \<Rightarrow> db \<Rightarrow> (SSHKey list \<times> int) result" where
  "ListSSHKeys c p d = sql_list c ''list ssh keys'' p (newest_first sshCreatedAt (dbSSHKeys d))"

definition UpdateSSHKey :: "conn \<Rightarrow> SSHKey \<Rightarrow> db \<Rightarrow> unit dbres" where
  "UpdateSSHKey c k d =
     (case sql_change c (exec_error ''update ssh key'') True True (row_mem sshID (sshID k) (dbSSHKeys d)) of
        Some e \<Rightarrow> (Inl e, d)
      | None \<Rightarrow> (Inr (), d\<lparr>dbSSHKeys := row_update sshID (sshID k)
                   (\<lambda>r. k\<lparr>sshCreatedAt := sshCreatedAt r\<rparr>) (dbSSHKeys d)\<rparr>))"

definition DeleteSSHKey :: "conn \<Rightarrow> ID \<Rightarrow> db \<Rightarrow> unit dbres" where
  "DeleteSSHKey c i d =
     (case sql_change c (exec_error ''delete ssh key'') True (\<not> row_mem nodeSSHKeyID (Some i) (dbNodes d))
             (row_mem sshID i (dbSSHKeys d)) of
        Some e \<Rightarrow> (Inl e, d)
      | None \<Rightarrow> (Inr (), d\<lparr>dbSSHKeys := row_delete sshID i (dbSSHKeys d)\<rparr>))"

section \<open>Nodes\<close>

text \<open>
  The inserts of the child rows of one parent: the first duplicate violates the
  primary key of the child table.
\<close>

definition child_error :: "string \<Rightarrow> 'a list \<Rightarrow> error option" where
  "child_error label xs =
     (if distinct xs then None else Some (Wrapf label (Errorf (sql_message Unique))))"

definition node_defaults :: "Time \<Rightarrow> Node \<Rightarrow> Node" where
  "node_defaults now n =
     (let n = n\<lparr>nodeCreatedAt := now, nodeUpdatedAt := now\<rparr>;
          n = (if nodeStatus n = NodeStatusOther '''' then n\<lparr>nodeStatus := NodeStatusPending\<rparr> else n);
          n = (if nodeSSHPort n = 0 then n\<lparr>nodeSSHPort := 22\<rparr> else n)
      in n)"

definition CreateNode :: "conn \<Rightarrow> Time \<Rightarrow> Node \<Rightarrow> db \<Rightarrow> Node dbres" where
  "CreateNode c now n d =
     (let n = node_defaults now n
      in case sql_exec c (\<not> row_mem nodeID (nodeID n) (dbNodes d))
                (ref_opt tenantID (nodeTenantID n) (dbTenants d) \<and> ref_opt sshID (nodeSSHKeyID n) (dbSSHKeys d)) of
           Some f \<Rightarrow> (Inl (insert_error ''node already exists'' ''insert node'' f), d)
         | None \<Rightarrow>
             (case child_error ''insert capability'' (nodeCapabilities n) of
                Some e \<Rightarrow> (Inl e, d)
              | None \<Rightarrow> (Inr n, d\<lparr>dbNodes := dbNodes d @ [n\<lparr>nodeLastHeartbeat := None, nodeLastConfigSync := None\<rparr>]\<rparr>)))"

definition GetNode :: "conn \<Rightarrow> ID \<Rightarrow> db \<Rightarrow> Node result" where
  "GetNode c i d = sql_row c ''get node'' (row_find nodeID i (dbNodes d))"

definition tenant_nodes :: "ID option \<Rightarrow> db \<Rightarrow> Node list" where
  "tenant_nodes tenant d =
     (case tenant of Some t \<Rightarrow> filter (\<lambda>n. nodeTenantID n = Some t) (dbNodes d) | None \<Rightarrow> dbNodes d)"

definition ListNodes :: "conn \<Rightarrow> ID option \<Rightarrow> ListParams \<Rightarrow> db \<Rightarrow> (Node list \<times> int) result" where
  "ListNodes c tenant p d = sql_list c ''list nodes'' p (newest_first nodeCreatedAt (tenant_nodes tenant d))"

text \<open>
  The branch of \<open>ListNodes\<close> for a cursor that decodes to a time and the text of an
  identifier: \<open>ORDER BY created_at DESC, id DESC\<close> past that position.  \<open>idstr\<close> is the
  text form of an identifier, by which SQL compares the key column.
\<close>

definition ListNodes_cursor ::
  "(ID \<Rightarrow> string) \<Rightarrow> conn \<Rightarrow> ID option \<Rightarrow> Time \<times> string \<Rightarrow> int \<Rightarrow> db \<Rightarrow> (Node list \<times> int) result" where
  "ListNodes_cursor idstr c tenant cursor limit d =
     (let limit = (if limit \<le> 0 then DefaultLimit else limit);
          tot = int (length (tenant_nodes tenant d));
          after = filter (\<lambda>n. nodeCreatedAt n < fst cursor \<or>
                              nodeCreatedAt n = fst cursor \<and> idstr (nodeID n) < snd cursor) (tenant_nodes tenant d);
          rows = rev (sort_key (\<lambda>n. nodeCreatedAt n) (sort_key (\<lambda>n. idstr (nodeID n)) after))
      in sql_query c ''list nodes'' (take (nat limit) rows, tot))"

definition UpdateNode :: "conn \<Rightarrow> Time \<Rightarrow> Node \<Rightarrow> db \<Rightarrow> Node dbres" where
  "UpdateNode c now n d =
     (let n = n\<lparr>nodeUpdatedAt := now\<rparr>
      in case sql_change c (exec_error ''update node'') True
                (ref_opt tenantID (nodeTenantID n) (dbTenants d) \<and> ref_opt sshID (nodeSSHKeyID n) (dbSSHKeys d))
                (row_mem nodeID (nodeID n) (dbNodes d)) of
           Some e \<Rightarrow> (Inl e, d)
         | None \<Rightarrow>
             (case child_error ''insert capability'' (nodeCapabilities n) of
                Some e \<Rightarrow> (Inl e, d)
              | None \<Rightarrow> (Inr n, d\<lparr>dbNodes := row_update nodeID (nodeID n)
                           (\<lambda>r. n\<lparr>nodeLastHeartbeat := nodeLastHeartbeat r, nodeLastConfigSync := nodeLastConfigSync r,
                                  nodeCreatedAt := nodeCreatedAt r\<rparr>) (dbNodes d)\<rparr>)))"

text \<open>Deleting a node cascades to its group memberships; sessions and jobs restrict.\<close>

definition DeleteNode :: "conn \<Rightarrow> ID \<Rightarrow> db \<Rightarrow> unit dbres" where
  "DeleteNode c i d =
     (case sql_change c (exec_error ''delete node'') True
             (\<not> row_mem bgpNodeID i (dbBGP d) \<and> \<not> row_mem jobNodeID i (dbJobs d)) (row_mem nodeID i (dbNodes d)) of
        Some e \<Rightarrow> (Inl e, d)
      | None \<Rightarrow> (Inr (), d\<lparr>dbNodes := row_delete nodeID i (dbNodes d),
                          dbMembers := (if connFK c then row_delete snd i (dbMembers d) else dbMembers d)\<rparr>))"

definition UpdateNodeHeartbeat :: "conn \<Rightarrow> Time \<Rightarrow> ID \<Rightarrow> db \<Rightarrow> unit dbres" where
  "UpdateNodeHeartbeat c now i d =
     (case sql_change c (exec_error ''update heartbeat'') True True (row_mem nodeID i (dbNodes d)) of
        Some e \<Rightarrow> (Inl e, d)
      | None \<Rightarrow> (Inr (), d\<lparr>dbNodes := row_update nodeID i
                   (\<lambda>r. r\<lparr>nodeLastHeartbeat := Some now, nodeStatus := NodeStatusOnline, nodeUpdatedAt := now\<rparr>)
                   (dbNodes d)\<rparr>))"

definition UpdateNodeConfigSync :: "conn \<Rightarrow> Time \<Rightarrow> ID \<Rightarrow> db \<Rightarrow> unit dbres" where
  "UpdateNodeConfigSync c now i d =
     (case sql_change c (exec_error ''update node config sync'') True True (row_mem nodeID i (dbNodes d)) of
        Some e \<Rightarrow> (Inl e, d)
      | None \<Rightarrow> (Inr (), d\<lparr>dbNodes := row_update nodeID i
                   (\<lambda>r. r\<lparr>nodeLastConfigSync := Some now, nodeUpdatedAt := now\<rparr>) (dbNodes d)\<rparr>))"

section \<open>Node groups\<close>

definition CreateNodeGroup :: "conn \<Rightarrow> Time \<Rightarrow> NodeGroup \<Rightarrow> db \<Rightarrow> NodeGroup dbres" where
  "CreateNodeGroup c now g d =
     (let g = g\<lparr>groupCreatedAt := now, groupUpdatedAt := now\<rparr>
      in case sql_exec c (\<not> row_mem groupID (groupID g) (dbGroups d)) (row_mem tenantID (groupTenantID g) (dbTenants d)) of
           Some f \<Rightarrow> (Inl (insert_error ''node group already exists'' ''insert node group'' f), d)
         | None \<Rightarrow> (Inr g, d\<lparr>dbGroups := dbGroups d @ [g]\<rparr>))"

definition GetNodeGroup :: "conn \<Rightarrow> ID \<Rightarrow> db \<Rightarrow> NodeGroup result" where
  "GetNodeGroup c i d = sql_row c ''get node group'' (row_find groupID i (dbGroups d))"

definition ListNodeGroups :: "conn \<Rightarrow> ID \<Rightarrow> ListParams \<Rightarrow> db \<Rightarrow> (NodeGroup list \<times> int) result" where
  "ListNodeGroups c tenant p d =
     sql_list c ''list node groups'' p
       (newest_first groupCreatedAt (filter (\<lambda>g. groupTenantID g = tenant) (dbGroups d)))"

definition UpdateNodeGroup :: "conn \<Rightarrow> Time \<Rightarrow> NodeGroup \<Rightarrow> db \<Rightarrow> NodeGroup dbres" where
  "UpdateNodeGroup c now g d =
     (let g = g\<lparr>groupUpdatedAt := now\<rparr>
      in case sql_change c (exec_error ''update node group'') True True (row_mem groupID (groupID g) (dbGroups d)) of
           Some e \<Rightarrow> (Inl e, d)
         | None \<Rightarrow> (Inr g, d\<lparr>dbGroups := row_update groupID (groupID g)
                      (\<lambda>r. r\<lparr>groupName := groupName g, groupDescription := groupDescription g,
                             groupUpdatedAt := groupUpdatedAt g\<rparr>) (dbGroups d)\<rparr>))"

definition DeleteNodeGroup :: "conn \<Rightarrow> ID \<Rightarrow> db \<Rightarrow> unit dbres" where
  "DeleteNodeGroup c i d =
     (case sql_change c (exec_error ''delete node group'') True
             (\<not> row_mem (zoneNodeGroupID \<circ> fst) (Some i) (dbZones d) \<and> \<not> row_mem siteNodeGroupID (Some i) (dbSites d) \<and>
              \<not> row_mem routeNodeGroupID (Some i) (dbRoutes d)) (row_mem groupID i (dbGroups d)) of
        Some e \<Rightarrow> (Inl e, d)
      | None \<Rightarrow> (Inr (), d\<lparr>dbGroups := row_delete groupID i (dbGroups d),
                          dbMembers := (if connFK c then row_delete fst i (dbMembers d) else dbMembers d)\<rparr>))"

definition AddNodeToGroup :: "conn \<Rightarrow> ID \<Rightarrow> ID \<Rightarrow> db \<Rightarrow> unit dbres" where
  "AddNodeToGroup c gid nid d =
     (case sql_exec c ((gid, nid) \<notin> set (dbMembers d))
             (row_mem groupID gid (dbGroups d) \<and> row_mem nodeID nid (dbNodes d)) of
        Some f \<Rightarrow> (Inl (insert_error ''node already in group'' ''add node to group'' f), d)
      | None \<Rightarrow> (Inr (), d\<lparr>dbMembers := dbMembers d @ [(gid, nid)]\<rparr>))"

definition RemoveNodeFromGroup :: "conn \<Rightarrow> ID \<Rightarrow> ID \<Rightarrow> db \<Rightarrow> unit dbres" where
  "RemoveNodeFromGroup c gid nid d =
     (case sql_change c (exec_error ''remove node from group'') True True ((gid, nid) \<in> set (dbMembers d)) of
        Some e \<Rightarrow> (Inl e, d)
      | None \<Rightarrow> (Inr (), d\<lparr>dbMembers := filter (\<lambda>m. m \<noteq> (gid, nid)) (dbMembers d)\<rparr>))"

text \<open>The two joins with the membership table; the first leaves the capabilities out.\<close>

definition ListGroupNodes :: "conn \<Rightarrow> ID \<Rightarrow> db \<Rightarrow> Node list result" where
  "ListGroupNodes c gid d =
     sql_query c ''list group nodes''
       (sort_key nodeName (map (\<lambda>n. n\<lparr>nodeCapabilities := []\<rparr>)
          (filter (\<lambda>n. (gid, nodeID n) \<in> set (dbMembers d)) (dbNodes d))))"

definition ListNodeGroups_ByNode :: "conn \<Rightarrow> ID \<Rightarrow> db \<Rightarrow> NodeGroup list result" where
  "ListNodeGroups_ByNode c nid d =
     sql_query c ''list node groups by node''
       (sort_key groupName (filter (\<lambda>g. (groupID g, nid) \<in> set (dbMembers d)) (dbGroups d)))"

section \<open>Gateways\<close>

definition gateway_defaults :: "Time \<Rightarrow> Gateway \<Rightarrow> Gateway" where
  "gateway_defaults now g =
     (let g = g\<lparr>gwCreatedAt := now, gwUpdatedAt := now\<rparr>;
          g = (if gwStatus g = GatewayStatusOther '''' then g\<lparr>gwStatus := GatewayStatusPending\<rparr> else g)
      in g)"

definition CreateGateway :: "conn \<Rightarrow> Time \<Rightarrow> Gateway \<Rightarrow> db \<Rightarrow> Gateway dbres" where
  "CreateGateway c now g d =
     (let g = gateway_defaults now g
      in case sql_exec c (\<not> row_mem gwID (gwID g) (dbGateways d)) (row_mem tenantID (gwTenantID g) (dbTenants d)) of
           Some f \<Rightarrow> (Inl (insert_error ''gateway already exists'' ''insert gateway'' f), d)
         | None \<Rightarrow> (Inr g, d\<lparr>dbGateways := dbGateways d @ [g\<lparr>gwLastHeartbeat := None, gwLastConfigSync := None\<rparr>]\<rparr>))"

definition GetGateway :: "conn \<Rightarrow> ID \<Rightarrow> db \<Rightarrow> Gateway result" where
  "GetGateway c i d = sql_row c ''get gateway'' (row_find gwID i (dbGateways d))"

definition ListGateways :: "conn \<Rightarrow> ID option \<Rightarrow> ListParams \<Rightarrow> db \<Rightarrow> (Gateway list \<times> int) result" where
  "ListGateways c tenant p d =
     sql_list c ''list gateways'' p (newest_first gwCreatedAt
       (case tenant of Some t \<Rightarrow> filter (\<lambda>g. gwTenantID g = t) (dbGateways d) | None \<Rightarrow> dbGateways d))"

definition UpdateGateway :: "conn \<Rightarrow> Time \<Rightarrow> Gateway \<Rightarrow> db \<Rightarrow> Gateway dbres" where
  "UpdateGateway c now g d =
     (let g = g\<lparr>gwUpdatedAt := now\<rparr>
      in case sql_change c (exec_error ''update gateway'') True True (row_mem gwID (gwID g) (dbGateways d)) of
           Some e \<Rightarrow> (Inl e, d)
         | None \<Rightarrow> (Inr g, d\<lparr>dbGateways := row_update gwID (gwID g)
                      (\<lambda>r. g\<lparr>gwTenantID := gwTenantID r, gwLastHeartbeat := gwLastHeartbeat r,
                             gwLastConfigSync := gwLastConfigSync r, gwCreatedAt := gwCreatedAt r\<rparr>) (dbGateways d)\<rparr>))"

definition DeleteGateway :: "conn \<Rightarrow> ID \<Rightarrow> db \<Rightarrow> unit dbres" where
  "DeleteGateway c i d =
     (case sql_change c (exec_error ''delete gateway'') True (\<not> row_mem routeGatewayID i (dbRoutes d))
             (row_mem gwID i (dbGateways d)) of
        Some e \<Rightarrow> (Inl e, d)
      | None \<Rightarrow> (Inr (), d\<lparr>dbGateways := row_delete gwID i (dbGateways d)\<rparr>))"

definition UpdateGatewayHeartbeat :: "conn \<Rightarrow> Time \<Rightarrow> ID \<Rightarrow> db \<Rightarrow> unit dbres" where
  "UpdateGatewayHeartbeat c now i d =
     (case sql_change c (exec_error ''update gateway heartbeat'') True True (row_mem gwID i (dbGateways d)) of
        Some e \<Rightarrow> (Inl e, d)
      | None \<Rightarrow> (Inr (), d\<lparr>dbGateways := row_update gwID i
                   (\<lambda>r. r\<lparr>gwLastHeartbeat := Some now, gwStatus := GatewayStatusOnline, gwUpdatedAt := now\<rparr>)
                   (dbGateways d)\<rparr>))"

definition UpdateGatewayConfigSync :: "conn \<Rightarrow> Time \<Rightarrow> ID \<Rightarrow> db \<Rightarrow> unit dbres" where
  "UpdateGatewayConfigSync c now i d =
     (case sql_change c (exec_error ''update gateway config sync'') True True (row_mem gwID i (dbGateways d)) of
        Some e \<Rightarrow> (Inl e, d)
      | None \<Rightarrow> (Inr (), d\<lparr>dbGateways := row_update gwID i
                   (\<lambda>r. r\<lparr>gwLastConfigSync := Some now, gwUpdatedAt := now\<rparr>) (dbGateways d)\<rparr>))"

section \<open>WireGuard peers, enrollment tokens, provisioning jobs\<close>

text \<open>The zero time of Go is the argument \<open>0\<close> of the model's clock.\<close>

definition peer_defaults :: "Time \<Rightarrow> WireGuardPeer \<Rightarrow> WireGuardPeer" where
  "peer_defaults now p =
     (let p = p\<lparr>peerCreatedAt := now, peerUpdatedAt := now\<rparr>;
          p = (if peerLastRotatedAt p = 0 then p\<lparr>peerLastRotatedAt := now\<rparr> else p)
      in p)"

definition CreateWireGuardPeer :: "conn \<Rightarrow> Time \<Rightarrow> WireGuardPeer \<Rightarrow> db \<Rightarrow> WireGuardPeer dbres" where
  "CreateWireGuardPeer c now p d =
     (let p = peer_defaults now p
      in case sql_exec c (\<not> row_mem peerID (peerID p) (dbPeers d)) True of
           Some f \<Rightarrow> (Inl (insert_error ''wireguard peer already exists'' ''insert wireguard peer'' f), d)
         | None \<Rightarrow>
             (case child_error ''insert allowed ip'' (peerAllowedIPs p) of
                Some e \<Rightarrow> (Inl e, d)
              | None \<Rightarrow> (Inr p, d\<lparr>dbPeers := dbPeers d @ [p]\<rparr>)))"

definition GetWireGuardPeer :: "conn \<Rightarrow> ID \<Rightarrow> db \<Rightarrow> WireGuardPeer result" where
  "GetWireGuardPeer c i d = sql_row c ''get wireguard peer'' (row_find peerID i (dbPeers d))"

definition GetWireGuardPeerByOwner :: "conn \<Rightarrow> PeerOwnerType \<Rightarrow> ID \<Rightarrow> db \<Rightarrow> WireGuardPeer result" where
  "GetWireGuardPeerByOwner c ownerType ownerID d =
     sql_row c ''get wireguard peer by owner''
       (find (\<lambda>p. peerOwnerType p = ownerType \<and> peerOwnerID p = ownerID) (dbPeers d))"

definition ListWireGuardPeers :: "conn \<Rightarrow> ListParams \<Rightarrow> db \<Rightarrow> (WireGuardPeer list \<times> int) result" where
  "ListWireGuardPeers c p d = sql_list c ''list wireguard peers'' p (newest_first peerCreatedAt (dbPeers d))"

definition UpdateWireGuardPeer :: "conn \<Rightarrow> Time \<Rightarrow> WireGuardPeer \<Rightarrow> db \<Rightarrow> WireGuardPeer dbres" where
  "UpdateWireGuardPeer c now p d =
     (let p = p\<lparr>peerUpdatedAt := now\<rparr>
      in case sql_change c (exec_error ''update wireguard peer'') True True (row_mem peerID (peerID p) (dbPeers d)) of
           Some e \<Rightarrow> (Inl e, d)
         | None \<Rightarrow>
             (case child_error ''insert allowed ip'' (peerAllowedIPs p) of
                Some e \<Rightarrow> (Inl e, d)
              | None \<Rightarrow> (Inr p, d\<lparr>dbPeers := row_update peerID (peerID p)
                           (\<lambda>r. p\<lparr>peerOwnerType := peerOwnerType r, peerOwnerID := peerOwnerID r,
                                  peerCreatedAt := peerCreatedAt r\<rparr>) (dbPeers d)\<rparr>)))"

definition DeleteWireGuardPeer :: "conn \<Rightarrow> ID \<Rightarrow> db \<Rightarrow> unit dbres" where
  "DeleteWireGuardPeer c i d =
     (case sql_change c (exec_error ''delete wireguard peer'') True True (row_mem peerID i (dbPeers d)) of
        Some e \<Rightarrow> (Inl e, d)
      | None \<Rightarrow> (Inr (), d\<lparr>dbPeers := row_delete peerID i (dbPeers d)\<rparr>))"

definition CreateEnrollmentToken :: "conn \<Rightarrow> Time \<Rightarrow> EnrollmentToken \<Rightarrow> db \<Rightarrow> EnrollmentToken dbres" where
  "CreateEnrollmentToken c now t d =
     (let t = t\<lparr>tokCreatedAt := now\<rparr>
      in case sql_exec c (\<not> row_mem tokID (tokID t) (dbTokens d) \<and> \<not> row_mem tokToken (tokToken t) (dbTokens d))
                (row_mem tenantID (tokTenantID t) (dbTenants d)) of
           Some f \<Rightarrow> (Inl (insert_error ''enrollment token already exists'' ''insert enrollment token'' f), d)
         | None \<Rightarrow> (Inr t, d\<lparr>dbTokens := dbTokens d @ [t\<lparr>tokUsedAt := None\<rparr>]\<rparr>))"

definition GetEnrollmentToken :: "conn \<Rightarrow> string \<Rightarrow> db \<Rightarrow> EnrollmentToken result" where
  "GetEnrollmentToken c token d = sql_row c ''get enrollment token'' (row_find tokToken token (dbTokens d))"

text \<open>\<open>UPDATE ... WHERE id = ? AND used_at IS NULL\<close>: a second use finds no row.\<close>

definition MarkEnrollmentTokenUsed :: "conn \<Rightarrow> Time \<Rightarrow> ID \<Rightarrow> db \<Rightarrow> unit dbres" where
  "MarkEnrollmentTokenUsed c now i d =
     (case sql_change c (exec_error ''mark enrollment token used'') True True
             (list_ex (\<lambda>t. tokID t = i \<and> tokUsedAt t = None) (dbTokens d)) of
        Some e \<Rightarrow> (Inl e, d)
      | None \<Rightarrow> (Inr (), d\<lparr>dbTokens := map (\<lambda>t. if tokID t = i \<and> tokUsedAt t = None
                   then t\<lparr>tokUsedAt := Some now\<rparr> else t) (dbTokens d)\<rparr>))"

definition job_defaults :: "Time \<Rightarrow> ProvisioningJob \<Rightarrow> ProvisioningJob" where
  "job_defaults now j =
     (let j = j\<lparr>jobCreatedAt := now, jobUpdatedAt := now\<rparr>;
          j = (if jobStatus j = ProvisionStatusOther '''' then j\<lparr>jobStatus := ProvisionStatusPending\<rparr> else j)
      in j)"

definition CreateProvisioningJob :: "conn \<Rightarrow> Time \<Rightarrow> ProvisioningJob \<Rightarrow> db \<Rightarrow> ProvisioningJob dbres" where
  "CreateProvisioningJob c now j d =
     (let j = job_defaults now j
      in case sql_exec c (\<not> row_mem jobID (jobID j) (dbJobs d))
                (row_mem nodeID (jobNodeID j) (dbNodes d) \<and> ref_opt tenantID (jobTenantID j) (dbTenants d)) of
           Some f \<Rightarrow> (Inl (insert_error ''provisioning job already exists'' ''insert provisioning job'' f), d)
         | None \<Rightarrow> (Inr j, d\<lparr>dbJobs := dbJobs d @ [j]\<rparr>))"

definition GetProvisioningJob :: "conn \<Rightarrow> ID \<Rightarrow> db \<Rightarrow> ProvisioningJob result" where
  "GetProvisioningJob c i d = sql_row c ''get provisioning job'' (row_find jobID i (dbJobs d))"

definition ListProvisioningJobs :: "conn \<Rightarrow> ID option \<Rightarrow> ListParams \<Rightarrow> db \<Rightarrow> (ProvisioningJob list \<times> int) result" where
  "ListProvisioningJobs c node p d =
     sql_list c ''list provisioning jobs'' p (newest_first jobCreatedAt
       (case node of Some n \<Rightarrow> filter (\<lambda>j. jobNodeID j = n) (dbJobs d) | None \<Rightarrow> dbJobs d))"

definition UpdateProvisioningJob :: "conn \<Rightarrow> Time \<Rightarrow> ProvisioningJob \<Rightarrow> db \<Rightarrow> ProvisioningJob dbres" where
  "UpdateProvisioningJob c now j d =
     (let j = j\<lparr>jobUpdatedAt := now\<rparr>
      in case sql_change c (exec_error ''update provisioning job'') True True (row_mem jobID (jobID j) (dbJobs d)) of
           Some e \<Rightarrow> (Inl e, d)
         | None \<Rightarrow> (Inr j, d\<lparr>dbJobs := row_update jobID (jobID j)
                      (\<lambda>r. r\<lparr>jobStatus := jobStatus j, jobCurrentStep := jobCurrentStep j, jobSteps := jobSteps j,
                             jobError := jobError j, jobStartedAt := jobStartedAt j,
                             jobCompletedAt := jobCompletedAt j, jobUpdatedAt := jobUpdatedAt j\<rparr>) (dbJobs d)\<rparr>))"

definition active_job :: "ProvisioningJob \<Rightarrow> bool" where
  "active_job j = (jobStatus j = ProvisionStatusPending \<or> jobStatus j = ProvisionStatusRunning)"

definition GetActiveProvisioningJob :: "conn \<Rightarrow> ID \<Rightarrow> db \<Rightarrow> ProvisioningJob result" where
  "GetActiveProvisioningJob c node d =
     sql_row c ''get active provisioning job''
       (case newest_first jobCreatedAt (filter (\<lambda>j. jobNodeID j = node \<and> active_job j) (dbJobs d)) of
          [] \<Rightarrow> None | j # _ \<Rightarrow> Some j)"

section \<open>IP allocations and BGP sessions\<close>

definition ip_defaults :: "Time \<Rightarrow> IPAllocation \<Rightarrow> IPAllocation" where
  "ip_defaults now a =
     (let a = a\<lparr>ipCreatedAt := now, ipUpdatedAt := now\<rparr>;
          a = (if ipStatus a = IPAllocationStatusOther '''' then a\<lparr>ipStatus := IPAllocationPending\<rparr> else a)
      in a)"

definition CreateIPAllocation :: "conn \<Rightarrow> Time \<Rightarrow> IPAllocation \<Rightarrow> db \<Rightarrow> IPAllocation dbres" where
  "CreateIPAllocation c now a d =
     (let a = ip_defaults now a
      in case sql_exec c (\<not> row_mem ipID (ipID a) (dbIPs d)) (row_mem tenantID (ipTenantID a) (dbTenants d)) of
           Some f \<Rightarrow> (Inl (insert_error ''ip allocation already exists'' ''insert ip allocation'' f), d)
         | None \<Rightarrow> (Inr a, d\<lparr>dbIPs := dbIPs d @ [a]\<rparr>))"

definition GetIPAllocation :: "conn \<Rightarrow> ID \<Rightarrow> db \<Rightarrow> IPAllocation result" where
  "GetIPAllocation c i d = sql_row c ''get ip allocation'' (row_find ipID i (dbIPs d))"

definition ListIPAllocations :: "conn \<Rightarrow> ID \<Rightarrow> ListParams \<Rightarrow> db \<Rightarrow> (IPAllocation list \<times> int) result" where
  "ListIPAllocations c tenant p d =
     sql_list c ''list ip allocations'' p
       (newest_first ipCreatedAt (filter (\<lambda>a. ipTenantID a = tenant) (dbIPs d)))"

definition UpdateIPAllocation :: "conn \<Rightarrow> Time \<Rightarrow> IPAllocation \<Rightarrow> db \<Rightarrow> IPAllocation dbres" where
  "UpdateIPAllocation c now a d =
     (let a = a\<lparr>ipUpdatedAt := now\<rparr>
      in case sql_change c (exec_error ''update ip allocation'') True True (row_mem ipID (ipID a) (dbIPs d)) of
           Some e \<Rightarrow> (Inl e, d)
         | None \<Rightarrow> (Inr a, d\<lparr>dbIPs := row_update ipID (ipID a)
                      (\<lambda>r. a\<lparr>ipTenantID := ipTenantID r, ipCreatedAt := ipCreatedAt r\<rparr>) (dbIPs d)\<rparr>))"

definition DeleteIPAllocation :: "conn \<Rightarrow> ID \<Rightarrow> db \<Rightarrow> unit dbres" where
  "DeleteIPAllocation c i d =
     (case sql_change c (exec_error ''delete ip allocation'') True True (row_mem ipID i (dbIPs d)) of
        Some e \<Rightarrow> (Inl e, d)
      | None \<Rightarrow> (Inr (), d\<lparr>dbIPs := row_delete ipID i (dbIPs d)\<rparr>))"

definition bgp_defaults :: "Time \<Rightarrow> BGPSession \<Rightarrow> BGPSession" where
  "bgp_defaults now s =
     (let s = s\<lparr>bgpCreatedAt := now, bgpUpdatedAt := now\<rparr>;
          s = (if bgpStatus s = BGPSessionStatusOther '''' then s\<lparr>bgpStatus := BGPSessionConfigured\<rparr> else s)
      in s)"

definition CreateBGPSession :: "conn \<Rightarrow> Time \<Rightarrow> BGPSession \<Rightarrow> db \<Rightarrow> BGPSession dbres" where
  "CreateBGPSession c now s d =
     (let s = bgp_defaults now s
      in case sql_exec c (\<not> row_mem bgpID (bgpID s) (dbBGP d)) (row_mem nodeID (bgpNodeID s) (dbNodes d)) of
           Some f \<Rightarrow> (Inl (insert_error ''bgp session already exists'' ''insert bgp session'' f), d)
         | None \<Rightarrow>
             (case child_error ''insert announced prefix'' (bgpAnnouncedPrefixes s) of
                Some e \<Rightarrow> (Inl e, d)
              | None \<Rightarrow> (Inr s, d\<lparr>dbBGP := dbBGP d @ [s]\<rparr>)))"

definition GetBGPSession :: "conn \<Rightarrow> ID \<Rightarrow> db \<Rightarrow> BGPSession result" where
  "GetBGPSession c i d = sql_row c ''get bgp session'' (row_find bgpID i (dbBGP d))"

definition ListBGPSessions :: "conn \<Rightarrow> ID \<Rightarrow> ListParams \<Rightarrow> db \<Rightarrow> (BGPSession list \<times> int) result" where
  "ListBGPSessions c node p d =
     sql_list c ''list bgp sessions'' p (newest_first bgpCreatedAt (filter (\<lambda>s. bgpNodeID s = node) (dbBGP d)))"

definition UpdateBGPSession :: "conn \<Rightarrow> Time \<Rightarrow> BGPSession \<Rightarrow> db \<Rightarrow> BGPSession dbres" where
  "UpdateBGPSession c now s d =
     (let s = s\<lparr>bgpUpdatedAt := now\<rparr>
      in case sql_change c (exec_error ''update bgp session'') True True (row_mem bgpID (bgpID s) (dbBGP d)) of
           Some e \<Rightarrow> (Inl e, d)
         | None \<Rightarrow>
             (case child_error ''insert announced prefix'' (bgpAnnouncedPrefixes s) of
                Some e \<Rightarrow> (Inl e, d)
              | None \<Rightarrow> (Inr s, d\<lparr>dbBGP := row_update bgpID (bgpID s)
                           (\<lambda>r. s\<lparr>bgpNodeID := bgpNodeID r, bgpCreatedAt := bgpCreatedAt r\<rparr>) (dbBGP d)\<rparr>)))"

definition DeleteBGPSession :: "conn \<Rightarrow> ID \<Rightarrow> db \<Rightarrow> unit dbres" where
  "DeleteBGPSession c i d =
     (case sql_change c (exec_error ''delete bgp session'') True True (row_mem bgpID i (dbBGP d)) of
        Some e \<Rightarrow> (Inl e, d)
      | None \<Rightarrow> (Inr (), d\<lparr>dbBGP := row_delete bgpID i (dbBGP d)\<rparr>))"

section \<open>DNS zones and records\<close>

definition zone_defaults :: "Time \<Rightarrow> DNSZone \<Rightarrow> DNSZone" where
  "zone_defaults now z =
     (let z = z\<lparr>zoneCreatedAt := now, zoneUpdatedAt := now\<rparr>;
          z = (if zoneSerial z = 0 then z\<lparr>zoneSerial := 1\<rparr> else z);
          z = (if zoneTTL z = 0 then z\<lparr>zoneTTL := 3600\<rparr> else z);
          z = (if zoneStatus z = DNSZoneStatusOther '''' then z\<lparr>zoneStatus := DNSZoneActive\<rparr> else z)
      in z)"

definition CreateDNSZone :: "conn \<Rightarrow> Time \<Rightarrow> DNSZone \<Rightarrow> db \<Rightarrow> DNSZone dbres" where
  "CreateDNSZone c now z d =
     (let z = zone_defaults now z
      in case sql_exec c (\<not> row_mem (zoneID \<circ> fst) (zoneID z) (dbZones d))
                (row_mem tenantID (zoneTenantID z) (dbTenants d) \<and> ref_opt groupID (zoneNodeGroupID z) (dbGroups d)) of
           Some f \<Rightarrow> (Inl (insert_error ''dns zone already exists'' ''insert dns zone'' f), d)
         | None \<Rightarrow> (Inr z, d\<lparr>dbZones := dbZones d @ [(z, uint (zoneSerial z))]\<rparr>))"

text \<open>
  Reading a zone row: the serial column must fit the unsigned 32-bit field, or the
  scan fails.
\<close>

definition scan_zone :: "string \<Rightarrow> DNSZone \<times> int \<Rightarrow> DNSZone result" where
  "scan_zone label row =
     (case row of (z, serial) \<Rightarrow>
        if 0 \<le> serial \<and> serial < 2 ^ 32 then Inr (z\<lparr>zoneSerial := word_of_int serial\<rparr>)
        else Inl (Wrapf label (Errorf ''sql: Scan error: value out of range'')))"

definition GetDNSZone :: "conn \<Rightarrow> ID \<Rightarrow> db \<Rightarrow> DNSZone result" where
  "GetDNSZone c i d =
     (case sql_row c ''get dns zone'' (row_find (zoneID \<circ> fst) i (dbZones d)) of
        Inl e \<Rightarrow> Inl e
      | Inr row \<Rightarrow> scan_zone ''get dns zone'' row)"

text \<open>The row loop of a list operation stops at the first row that cannot be scanned.\<close>

fun scan_zones :: "(DNSZone \<times> int) list \<Rightarrow> DNSZone list result" where
  "scan_zones [] = Inr []"
| "scan_zones (row # rows) =
     (case scan_zone ''scan dns zone'' row of
        Inl e \<Rightarrow> Inl e
      | Inr z \<Rightarrow> (case scan_zones rows of Inl e \<Rightarrow> Inl e | Inr zs \<Rightarrow> Inr (z # zs)))"

definition ListDNSZones :: "conn \<Rightarrow> ID \<Rightarrow> ListParams \<Rightarrow> db \<Rightarrow> (DNSZone list \<times> int) result" where
  "ListDNSZones c tenant p d =
     (case sql_list c ''list dns zones'' p
             (sort_key (zoneName \<circ> fst) (filter (\<lambda>r. zoneTenantID (fst r) = tenant) (dbZones d))) of
        Inl e \<Rightarrow> Inl e
      | Inr (rows, tot) \<Rightarrow> (case scan_zones rows of Inl e \<Rightarrow> Inl e | Inr zs \<Rightarrow> Inr (zs, tot)))"

definition UpdateDNSZone :: "conn \<Rightarrow> Time \<Rightarrow> DNSZone \<Rightarrow> db \<Rightarrow> DNSZone dbres" where
  "UpdateDNSZone c now z d =
     (let z = z\<lparr>zoneUpdatedAt := now\<rparr>
      in case sql_change c (exec_error ''update dns zone'') True (ref_opt groupID (zoneNodeGroupID z) (dbGroups d))
                (row_mem (zoneID \<circ> fst) (zoneID z) (dbZones d)) of
           Some e \<Rightarrow> (Inl e, d)
         | None \<Rightarrow> (Inr z, d\<lparr>dbZones := row_update (zoneID \<circ> fst) (zoneID z)
                      (\<lambda>r. (z\<lparr>zoneTenantID := zoneTenantID (fst r), zoneSerial := zoneSerial (fst r),
                              zoneCreatedAt := zoneCreatedAt (fst r)\<rparr>, snd r)) (dbZones d)\<rparr>))"

definition DeleteDNSZone :: "conn \<Rightarrow> ID \<Rightarrow> db \<Rightarrow> unit dbres" where
  "DeleteDNSZone c i d =
     (case sql_change c (exec_error ''delete dns zone'') True True (row_mem (zoneID \<circ> fst) i (dbZones d)) of
        Some e \<Rightarrow> (Inl e, d)
      | None \<Rightarrow> (Inr (), d\<lparr>dbZones := row_delete (zoneID \<circ> fst) i (dbZones d),
                          dbRecords := (if connFK c then row_delete recZoneID i (dbRecords d) else dbRecords d)\<rparr>))"

definition IncrementDNSZoneSerial :: "conn \<Rightarrow> Time \<Rightarrow> ID \<Rightarrow> db \<Rightarrow> unit dbres" where
  "IncrementDNSZoneSerial c now i d =
     (case sql_change c (exec_error ''increment dns zone serial'') True True (row_mem (zoneID \<circ> fst) i (dbZones d)) of
        Some e \<Rightarrow> (Inl e, d)
      | None \<Rightarrow> (Inr (), d\<lparr>dbZones := row_update (zoneID \<circ> fst) i
                   (\<lambda>r. ((fst r)\<lparr>zoneUpdatedAt := now\<rparr>, snd r + 1)) (dbZones d)\<rparr>))"

definition CreateDNSRecord :: "conn \<Rightarrow> Time \<Rightarrow> DNSRecord \<Rightarrow> db \<Rightarrow> DNSRecord dbres" where
  "CreateDNSRecord c now r d =
     (let r = r\<lparr>recCreatedAt := now, recUpdatedAt := now\<rparr>
      in case sql_exec c (\<not> row_mem recID (recID r) (dbRecords d)) (row_mem (zoneID \<circ> fst) (recZoneID r) (dbZones d)) of
           Some f \<Rightarrow> (Inl (insert_error ''dns record already exists'' ''insert dns record'' f), d)
         | None \<Rightarrow> (Inr r, d\<lparr>dbRecords := dbRecords d @ [r]\<rparr>))"

definition GetDNSRecord :: "conn \<Rightarrow> ID \<Rightarrow> db \<Rightarrow> DNSRecord result" where
  "GetDNSRecord c i d = sql_row c ''get dns record'' (row_find recID i (dbRecords d))"

text \<open>The text of a record type, by which the list is ordered.\<close>

definition type_string :: "DNSRecordType \<Rightarrow> string" where
  "type_string t = (case t of
     DNSRecordTypeA \<Rightarrow> ''A'' | DNSRecordTypeAAAA \<Rightarrow> ''AAAA'' | DNSRecordTypeCNAME \<Rightarrow> ''CNAME''
   | DNSRecordTypeMX \<Rightarrow> ''MX'' | DNSRecordTypeTXT \<Rightarrow> ''TXT'' | DNSRecordTypeNS \<Rightarrow> ''NS''
   | DNSRecordTypeSRV \<Rightarrow> ''SRV'' | DNSRecordTypeCAA \<Rightarrow> ''CAA'' | DNSRecordTypePTR \<Rightarrow> ''PTR''
   | DNSRecordTypeOther s \<Rightarrow> s)"

definition ListDNSRecords :: "conn \<Rightarrow> ID \<Rightarrow> ListParams \<Rightarrow> db \<Rightarrow> (DNSRecord list \<times> int) result" where
  "ListDNSRecords c zone p d =
     sql_list c ''list dns records'' p
       (sort_key recName (sort_key (type_string \<circ> recType) (filter (\<lambda>r. recZoneID r = zone) (dbRecords d))))"

definition UpdateDNSRecord :: "conn \<Rightarrow> Time \<Rightarrow> DNSRecord \<Rightarrow> db \<Rightarrow> DNSRecord dbres" where
  "UpdateDNSRecord c now r d =
     (let r = r\<lparr>recUpdatedAt := now\<rparr>
      in case sql_change c (exec_error ''update dns record'') True True (row_mem recID (recID r) (dbRecords d)) of
           Some e \<Rightarrow> (Inl e, d)
         | None \<Rightarrow> (Inr r, d\<lparr>dbRecords := row_update recID (recID r)
                      (\<lambda>x. r\<lparr>recZoneID := recZoneID x, recCreatedAt := recCreatedAt x\<rparr>) (dbRecords d)\<rparr>))"

definition DeleteDNSRecord :: "conn \<Rightarrow> ID \<Rightarrow> db \<Rightarrow> unit dbres" where
  "DeleteDNSRecord c i d =
     (case sql_change c (exec_error ''delete dns record'') True True (row_mem recID i (dbRecords d)) of
        Some e \<Rightarrow> (Inl e, d)
      | None \<Rightarrow> (Inr (), d\<lparr>dbRecords := row_delete recID i (dbRecords d)\<rparr>))"

section \<open>CDN sites and origins\<close>

definition site_defaults :: "Time \<Rightarrow> CDNSite \<Rightarrow> CDNSite" where
  "site_defaults now s =
     (let s = s\<lparr>siteCreatedAt := now, siteUpdatedAt := now\<rparr>;
          s = (if siteStatus s = CDNSiteStatusOther '''' then s\<lparr>siteStatus := CDNSiteActive\<rparr> else s);
          s = (if siteCacheTTL s = 0 then s\<lparr>siteCacheTTL := 3600\<rparr> else s)
      in s)"

definition CreateCDNSite :: "conn \<Rightarrow> Time \<Rightarrow> CDNSite \<Rightarrow> db \<Rightarrow> CDNSite dbres" where
  "CreateCDNSite c now s d =
     (let s = site_defaults now s
      in case sql_exec c (\<not> row_mem siteID (siteID s) (dbSites d))
                (row_mem tenantID (siteTenantID s) (dbTenants d) \<and> ref_opt groupID (siteNodeGroupID s) (dbGroups d)) of
           Some f \<Rightarrow> (Inl (insert_error ''cdn site already exists'' ''insert cdn site'' f), d)
         | None \<Rightarrow>
             (case child_error ''insert cdn site domain'' (siteDomains s) of
                Some e \<Rightarrow> (Inl e, d)
              | None \<Rightarrow> (Inr s, d\<lparr>dbSites := dbSites d @ [s]\<rparr>)))"

text \<open>\<open>SELECT domain ... ORDER BY domain ASC\<close>.\<close>

definition loadCDNSiteDomains :: "CDNSite \<Rightarrow> CDNSite" where
  "loadCDNSiteDomains s = s\<lparr>siteDomains := sort (siteDomains s)\<rparr>"

definition GetCDNSite :: "conn \<Rightarrow> ID \<Rightarrow> db \<Rightarrow> CDNSite result" where
  "GetCDNSite c i d = sql_row c ''get cdn site'' (map_option loadCDNSiteDomains (row_find siteID i (dbSites d)))"

definition ListCDNSites :: "conn \<Rightarrow> ID \<Rightarrow> ListParams \<Rightarrow> db \<Rightarrow> (CDNSite list \<times> int) result" where
  "ListCDNSites c tenant p d =
     sql_list c ''list cdn sites'' p
       (map loadCDNSiteDomains (sort_key siteName (filter (\<lambda>s. siteTenantID s = tenant) (dbSites d))))"

definition UpdateCDNSite :: "conn \<Rightarrow> Time \<Rightarrow> CDNSite \<Rightarrow> db \<Rightarrow> CDNSite dbres" where
  "UpdateCDNSite c now s d =
     (let s = s\<lparr>siteUpdatedAt := now\<rparr>
      in case sql_change c (exec_error ''update cdn site'') True (ref_opt groupID (siteNodeGroupID s) (dbGroups d))
                (row_mem siteID (siteID s) (dbSites d)) of
           Some e \<Rightarrow> (Inl e, d)
         | None \<Rightarrow>
             (case child_error ''insert cdn site domain'' (siteDomains s) of
                Some e \<Rightarrow> (Inl e, d)
              | None \<Rightarrow> (Inr s, d\<lparr>dbSites := row_update siteID (siteID s)
                           (\<lambda>r. s\<lparr>siteTenantID := siteTenantID r, siteCreatedAt := siteCreatedAt r\<rparr>) (dbSites d)\<rparr>)))"

definition DeleteCDNSite :: "conn \<Rightarrow> ID \<Rightarrow> db \<Rightarrow> unit dbres" where
  "DeleteCDNSite c i d =
     (case sql_change c (exec_error ''delete cdn site'') True True (row_mem siteID i (dbSites d)) of
        Some e \<Rightarrow> (Inl e, d)
      | None \<Rightarrow> (Inr (), d\<lparr>dbSites := row_delete siteID i (dbSites d),
                          dbOrigins := (if connFK c then row_delete originSiteID i (dbOrigins d) else dbOrigins d)\<rparr>))"

definition origin_defaults :: "Time \<Rightarrow> CDNOrigin \<Rightarrow> CDNOrigin" where
  "origin_defaults now a =
     (let a = a\<lparr>originCreatedAt := now, originUpdatedAt := now\<rparr>;
          a = (if originStatus a = CDNOriginStatusOther '''' then a\<lparr>originStatus := CDNOriginUnknown\<rparr> else a);
          a = (if originWeight a = 0 then a\<lparr>originWeight := 1\<rparr> else a);
          a = (if originScheme a = CDNOriginSchemeOther '''' then a\<lparr>originScheme := CDNOriginHTTPS\<rparr> else a)
      in a)"

definition CreateCDNOrigin :: "conn \<Rightarrow> Time \<Rightarrow> CDNOrigin \<Rightarrow> db \<Rightarrow> CDNOrigin dbres" where
  "CreateCDNOrigin c now a d =
     (let a = origin_defaults now a
      in case sql_exec c (\<not> row_mem originID (originID a) (dbOrigins d)) (row_mem siteID (originSiteID a) (dbSites d)) of
           Some f \<Rightarrow> (Inl (insert_error ''cdn origin already exists'' ''insert cdn origin'' f), d)
         | None \<Rightarrow> (Inr a, d\<lparr>dbOrigins := dbOrigins d @ [a]\<rparr>))"

definition GetCDNOrigin :: "conn \<Rightarrow> ID \<Rightarrow> db \<Rightarrow> CDNOrigin result" where
  "GetCDNOrigin c i d = sql_row c ''get cdn origin'' (row_find originID i (dbOrigins d))"

definition ListCDNOrigins :: "conn \<Rightarrow> ID \<Rightarrow> ListParams \<Rightarrow> db \<Rightarrow> (CDNOrigin list \<times> int) result" where
  "ListCDNOrigins c site p d =
     sql_list c ''list cdn origins'' p (sort_key originAddress (filter (\<lambda>a. originSiteID a = site) (dbOrigins d)))"

definition UpdateCDNOrigin :: "conn \<Rightarrow> Time \<Rightarrow> CDNOrigin \<Rightarrow> db \<Rightarrow> CDNOrigin dbres" where
  "UpdateCDNOrigin c now a d =
     (let a = a\<lparr>originUpdatedAt := now\<rparr>
      in case sql_change c (exec_error ''update cdn origin'') True True (row_mem originID (originID a) (dbOrigins d)) of
           Some e \<Rightarrow> (Inl e, d)
         | None \<Rightarrow> (Inr a, d\<lparr>dbOrigins := row_update originID (originID a)
                      (\<lambda>r. a\<lparr>originSiteID := originSiteID r, originCreatedAt := originCreatedAt r\<rparr>) (dbOrigins d)\<rparr>))"

definition DeleteCDNOrigin :: "conn \<Rightarrow> ID \<Rightarrow> db \<Rightarrow> unit dbres" where
  "DeleteCDNOrigin c i d =
     (case sql_change c (exec_error ''delete cdn origin'') True True (row_mem originID i (dbOrigins d)) of
        Some e \<Rightarrow> (Inl e, d)
      | None \<Rightarrow> (Inr (), d\<lparr>dbOrigins := row_delete originID i (dbOrigins d)\<rparr>))"

section \<open>Routes\<close>

definition route_defaults :: "Time \<Rightarrow> Route \<Rightarrow> Route" where
  "route_defaults now r =
     (let r = r\<lparr>routeCreatedAt := now, routeUpdatedAt := now\<rparr>;
          r = (if routeStatus r = RouteStatusOther '''' then r\<lparr>routeStatus := RouteStatusActive\<rparr> else r)
      in r)"

definition CreateRoute :: "conn \<Rightarrow> Time \<Rightarrow> Route \<Rightarrow> db \<Rightarrow> Route dbres" where
  "CreateRoute c now r d =
     (let r = route_defaults now r
      in case sql_exec c (\<not> row_mem routeID (routeID r) (dbRoutes d))
                (row_mem tenantID (routeTenantID r) (dbTenants d) \<and> row_mem gwID (routeGatewayID r) (dbGateways d) \<and>
                 ref_opt groupID (routeNodeGroupID r) (dbGroups d)) of
           Some f \<Rightarrow> (Inl (insert_error ''route already exists'' ''insert route'' f), d)
         | None \<Rightarrow> (Inr r, d\<lparr>dbRoutes := dbRoutes d @ [r]\<rparr>))"

definition GetRoute :: "conn \<Rightarrow> ID \<Rightarrow> db \<Rightarrow> Route result" where
  "GetRoute c i d = sql_row c ''get route'' (row_find routeID i (dbRoutes d))"

definition ListRoutes :: "conn \<Rightarrow> ID \<Rightarrow> ListParams \<Rightarrow> db \<Rightarrow> (Route list \<times> int) result" where
  "ListRoutes c tenant p d =
     sql_list c ''list routes'' p (sort_key routeName (filter (\<lambda>r. routeTenantID r = tenant) (dbRoutes d)))"

definition UpdateRoute :: "conn \<Rightarrow> Time \<Rightarrow> Route \<Rightarrow> db \<Rightarrow> Route dbres" where
  "UpdateRoute c now r d =
     (let r = r\<lparr>routeUpdatedAt := now\<rparr>
      in case sql_change c (exec_error ''update route'') True
                (row_mem gwID (routeGatewayID r) (dbGateways d) \<and> ref_opt groupID (routeNodeGroupID r) (dbGroups d))
                (row_mem routeID (routeID r) (dbRoutes d)) of
           Some e \<Rightarrow> (Inl e, d)
         | None \<Rightarrow> (Inr r, d\<lparr>dbRoutes := row_update routeID (routeID r)
                      (\<lambda>x. r\<lparr>routeTenantID := routeTenantID x, routeCreatedAt := routeCreatedAt x\<rparr>) (dbRoutes d)\<rparr>))"

definition DeleteRoute :: "conn \<Rightarrow> ID \<Rightarrow> db \<Rightarrow> unit dbres" where
  "DeleteRoute c i d =
     (case sql_change c (exec_error ''delete route'') True True (row_mem routeID i (dbRoutes d)) of
        Some e \<Rightarrow> (Inl e, d)
      | None \<Rightarrow> (Inr (), d\<lparr>dbRoutes := row_delete routeID i (dbRoutes d)\<rparr>))"

definition ListRoutesByGateway :: "conn \<Rightarrow> ID \<Rightarrow> db \<Rightarrow> Route list result" where
  "ListRoutesByGateway c gw d =
     sql_query c ''list routes by gateway''
       (sort_key routeName (filter (\<lambda>r. routeGatewayID r = gw \<and> routeStatus r = RouteStatusActive) (dbRoutes d)))"

section \<open>Migrations\<close>

text \<open>
  \<open>Migrate\<close> over the numbered migrations.  The schema is abstract here: \<open>apply\<close> runs
  the DDL of one migration on it and may fail; \<open>applied\<close> is the table of recorded
  versions.  \<open>crash\<close> gives, per version, whether recording it fails after the DDL ran.
\<close>

record 's migration_state =
  msSchema :: 's
  msApplied :: "nat list"

fun Migrate_loop ::
  "('m \<Rightarrow> 's \<Rightarrow> 's result) \<Rightarrow> (nat \<Rightarrow> bool) \<Rightarrow> nat \<Rightarrow> 'm list \<Rightarrow> 's migration_state
   \<Rightarrow> unit result \<times> 's migration_state" where
  "Migrate_loop apply crash i [] st = (Inr (), st)"
| "Migrate_loop apply crash i (m # ms) st =
     (let version = i + 1
      in if version \<in> set (msApplied st) then Migrate_loop apply crash (i + 1) ms st
         else (case apply m (msSchema st) of
                 Inl e \<Rightarrow> (Inl (Wrapf ''migration'' e), st)
               | Inr s' \<Rightarrow>
                   if crash version then (Inl (Errorf ''record schema version''), st\<lparr>msSchema := s'\<rparr>)
                   else Migrate_loop apply crash (i + 1) ms
                          (st\<lparr>msSchema := s', msApplied := msApplied st @ [version]\<rparr>)))"

definition Migrate ::
  "('m \<Rightarrow> 's \<Rightarrow> 's result) \<Rightarrow> (nat \<Rightarrow> bool) \<Rightarrow> 'm list \<Rightarrow> 's migration_state
   \<Rightarrow> unit result \<times> 's migration_state" where
  "Migrate apply crash migrations st = Migrate_loop apply crash 0 migrations st"

definition SchemaVersion :: "'s migration_state \<Rightarrow> nat" where
  "SchemaVersion st = foldr max (msApplied st) 0"

section \<open>Facts on rows and statements\<close>

lemma row_mem_iff [table_simps]: "row_mem key k rows \<longleftrightarrow> k \<in> key ` set rows"
  by (auto simp: row_mem_def list_ex_iff)

lemma ref_opt_iff [table_simps]: "ref_opt key r rows \<longleftrightarrow> (\<forall>k. r = Some k \<longrightarrow> k \<in> key ` set rows)"
  by (cases r) (auto simp: ref_opt_def table_simps)

lemma row_find_SomeD: "row_find key k rows = Some r \<Longrightarrow> r \<in> set rows \<and> key r = k"
  unfolding row_find_def by (rule find_SomeD)

lemma row_find_None_iff [simp]: "row_find key k rows = None \<longleftrightarrow> k \<notin> key ` set rows"
  by (auto simp: row_find_def find_None_iff)

lemma row_find_append [simp]:
  "row_find key k (xs @ ys) = (case row_find key k xs of None \<Rightarrow> row_find key k ys | Some r \<Rightarrow> Some r)"
  by (induction xs) (auto simp: row_find_def)

lemma row_find_Cons [simp]:
  "row_find key k (x # xs) = (if key x = k then Some x else row_find key k xs)"
  "row_find key k [] = None"
  by (auto simp: row_find_def)

lemma row_find_update:
  assumes "\<And>r. key r = k \<Longrightarrow> key (f r) = k"
  shows "row_find key j (row_update key k f rows) =
           (if j = k then map_option f (row_find key k rows) else row_find key j rows)"
  by (induction rows) (auto simp: row_update_def assms)

lemma row_find_delete:
  "row_find key j (row_delete key k rows) = (if j = k then None else row_find key j rows)"
  by (induction rows) (auto simp: row_delete_def)

lemma row_update_keys:
  assumes "\<And>r. key r = k \<Longrightarrow> g (f r) = g r"
  shows "map g (row_update key k f rows) = map g rows"
  by (auto simp: row_update_def assms)

lemma set_row_update [table_simps]:
  "set (row_update key k f rows) = (\<lambda>r. if key r = k then f r else r) ` set rows"
  by (simp add: row_update_def)

lemma set_row_delete [table_simps]: "set (row_delete key k rows) = {r \<in> set rows. key r \<noteq> k}"
  by (auto simp: row_delete_def)

lemma distinct_row_delete [simp]: "distinct (map g rows) \<Longrightarrow> distinct (map g (row_delete key k rows))"
  unfolding row_delete_def by (rule distinct_map_filter)

lemma row_find_mem_Some: "row_mem key k rows \<Longrightarrow> \<exists>r. row_find key k rows = Some r"
  by (metis row_find_None_iff not_None_eq row_mem_iff)

text \<open>A statement without a driver failure.\<close>

lemma sql_exec_None_iff [simp]:
  "sql_exec c unique refs = None \<longleftrightarrow> connErr c = None \<and> unique \<and> (connFK c \<longrightarrow> refs)"
  by (auto simp: sql_exec_def split: option.split)

lemma sql_change_None_iff [simp]:
  "sql_change c report unique refs hit = None \<longleftrightarrow>
     connErr c = None \<and> hit \<and> unique \<and> (connFK c \<longrightarrow> refs)"
  by (auto simp: sql_change_def sql_exec_def split: option.split)

lemma child_error_None_iff [simp]: "child_error label xs = None \<longleftrightarrow> distinct xs"
  by (simp add: child_error_def)

lemma sql_row_Inr_iff [simp]: "sql_row c label x = Inr r \<longleftrightarrow> connErr c = None \<and> x = Some r"
  by (auto simp: sql_row_def split: option.split)

lemma sql_row_NotFound_iff: "sql_row c label x = Inl ErrNotFound \<longleftrightarrow> connErr c = None \<and> x = None"
  by (auto simp: sql_row_def split: option.split)

lemma sql_query_Inr_iff [simp]: "sql_query c label x = Inr y \<longleftrightarrow> connErr c = None \<and> y = x"
  by (auto simp: sql_query_def split: option.split)

lemma isUniqueViolation_simps [simp]:
  "isUniqueViolation (Some Unique)" "\<not> isUniqueViolation (Some ForeignKey)" "\<not> isUniqueViolation None"
  by (simp_all add: isUniqueViolation_def sql_message_def contains_def)

lemma searchString_iff: "searchString s p \<longleftrightarrow> sublist p s"
proof (induction s)
  case (Cons x s)
  have "take (length p) (x # s) = p \<longleftrightarrow> prefix p (x # s)"
    by (metis append_eq_conv_conj prefix_def)
  then show ?case using Cons by (simp add: sublist_Cons_right)
qed simp

text \<open>Filling in defaults leaves the key and the other columns alone.\<close>

lemma node_defaults_simps [simp]:
  "nodeID (node_defaults now n) = nodeID n" "nodeTenantID (node_defaults now n) = nodeTenantID n"
  "nodeWireGuardIP (node_defaults now n) = nodeWireGuardIP n" "nodeCapabilities (node_defaults now n) = nodeCapabilities n"
  "nodeSSHKeyID (node_defaults now n) = nodeSSHKeyID n"
  by (simp_all add: node_defaults_def Let_def)

lemma defaults_keys [simp]:
  "tenantID (tenant_defaults now t) = tenantID t" "userID (user_defaults now u) = userID u"
  "gwID (gateway_defaults now g) = gwID g" "peerID (peer_defaults now p) = peerID p"
  "jobID (job_defaults now j) = jobID j" "ipID (ip_defaults now a) = ipID a" "bgpID (bgp_defaults now s) = bgpID s"
  "zoneID (zone_defaults now z) = zoneID z" "siteID (site_defaults now x) = siteID x"
  "originID (origin_defaults now y) = originID y" "routeID (route_defaults now r) = routeID r"
  by (simp_all add: tenant_defaults_def user_defaults_def gateway_defaults_def peer_defaults_def job_defaults_def
      ip_defaults_def bgp_defaults_def zone_defaults_def site_defaults_def origin_defaults_def route_defaults_def Let_def)

section \<open>Audit events\<close>

definition CreateAuditEvent :: "conn \<Rightarrow> AuditEvent \<Rightarrow> db \<Rightarrow> unit dbres" where
  "CreateAuditEvent c e d =
     (case sql_exec c (\<not> row_mem auditID (auditID e) (dbAudit d)) True of
        Some f \<Rightarrow> (Inl (exec_error ''insert audit event'' f), d)
      | None \<Rightarrow> (Inr (), d\<lparr>dbAudit := dbAudit d @ [e]\<rparr>))"

definition ListAuditEvents :: "conn \<Rightarrow> ID option \<Rightarrow> ListParams \<Rightarrow> db \<Rightarrow> (AuditEvent list \<times> int) result" where
  "ListAuditEvents c tenant p d =
     sql_list c ''list audit events'' p (newest_first auditTimestamp
       (case tenant of Some t \<Rightarrow> filter (\<lambda>e. auditTenantID e = Some t) (dbAudit d) | None \<Rightarrow> dbAudit d))"

end
