(* ===== verification/EF_Schema.thy ===== *)
theory EF_Schema
  imports EF_Storage
begin

text \<open>
  The constraints of the SQL schema (\<open>migrations\<close> in \<open>sqlite/sqlite.go\<close>) as an
  invariant of the database, every store operation that changes it as a step, and
  the keyed-store contract that the services rely on.
\<close>

section \<open>The constraints\<close>

text \<open>The primary keys and the \<open>UNIQUE\<close> columns.\<close>

definition keys_ok :: "db \<Rightarrow> bool" where
  "keys_ok d \<longleftrightarrow>
     distinct (map tenantID (dbTenants d)) \<and> distinct (map tenantName (dbTenants d)) \<and>
     distinct (map tenantSlug (dbTenants d)) \<and>
     distinct (map userID (dbUsers d)) \<and> distinct (map userEmail (dbUsers d)) \<and>
     distinct (map keyID (dbAPIKeys d)) \<and> distinct (map sshID (dbSSHKeys d)) \<and>
     distinct (map nodeID (dbNodes d)) \<and> distinct (map groupID (dbGroups d)) \<and> distinct (dbMembers d) \<and>
     distinct (map gwID (dbGateways d)) \<and> distinct (map peerID (dbPeers d)) \<and>
     distinct (map ipID (dbIPs d)) \<and> distinct (map bgpID (dbBGP d)) \<and>
     distinct (map (zoneID \<circ> fst) (dbZones d)) \<and> distinct (map recID (dbRecords d)) \<and>
     distinct (map siteID (dbSites d)) \<and> distinct (map originID (dbOrigins d)) \<and>
     distinct (map routeID (dbRoutes d)) \<and>
     distinct (map tokID (dbTokens d)) \<and> distinct (map tokToken (dbTokens d)) \<and>
     distinct (map jobID (dbJobs d)) \<and> distinct (map auditID (dbAudit d))"

text \<open>The primary keys of the child tables, which make the child rows of a parent distinct.\<close>

definition children_ok :: "db \<Rightarrow> bool" where
  "children_ok d \<longleftrightarrow>
     (\<forall>n \<in> set (dbNodes d). distinct (nodeCapabilities n)) \<and>
     (\<forall>p \<in> set (dbPeers d). distinct (peerAllowedIPs p)) \<and>
     (\<forall>s \<in> set (dbBGP d). distinct (bgpAnnouncedPrefixes s)) \<and>
     (\<forall>s \<in> set (dbSites d). distinct (siteDomains s))"

text \<open>The \<open>REFERENCES\<close> clauses.\<close>

definition refs_ok :: "db \<Rightarrow> bool" where
  "refs_ok d \<longleftrightarrow>
     (\<forall>u \<in> set (dbUsers d). ref_opt tenantID (userTenantID u) (dbTenants d)) \<and>
     (\<forall>k \<in> set (dbAPIKeys d). row_mem tenantID (keyTenantID k) (dbTenants d) \<and> row_mem userID (keyUserID k) (dbUsers d)) \<and>
     (\<forall>n \<in> set (dbNodes d). ref_opt tenantID (nodeTenantID n) (dbTenants d) \<and> ref_opt sshID (nodeSSHKeyID n) (dbSSHKeys d)) \<and>
     (\<forall>g \<in> set (dbGroups d). row_mem tenantID (groupTenantID g) (dbTenants d)) \<and>
     (\<forall>m \<in> set (dbMembers d). row_mem groupID (fst m) (dbGroups d) \<and> row_mem nodeID (snd m) (dbNodes d)) \<and>
     (\<forall>g \<in> set (dbGateways d). row_mem tenantID (gwTenantID g) (dbTenants d)) \<and>
     (\<forall>a \<in> set (dbIPs d). row_mem tenantID (ipTenantID a) (dbTenants d)) \<and>
     (\<forall>s \<in> set (dbBGP d). row_mem nodeID (bgpNodeID s) (dbNodes d)) \<and>
     (\<forall>r \<in> set (dbZones d). row_mem tenantID (zoneTenantID (fst r)) (dbTenants d) \<and>
                            ref_opt groupID (zoneNodeGroupID (fst r)) (dbGroups d)) \<and>
     (\<forall>r \<in> set (dbRecords d). row_mem (zoneID \<circ> fst) (recZoneID r) (dbZones d)) \<and>
     (\<forall>s \<in> set (dbSites d). row_mem tenantID (siteTenantID s) (dbTenants d) \<and>
                            ref_opt groupID (siteNodeGroupID s) (dbGroups d)) \<and>
     (\<forall>a \<in> set (dbOrigins d). row_mem siteID (originSiteID a) (dbSites d)) \<and>
     (\<forall>r \<in> set (dbRoutes d). row_mem tenantID (routeTenantID r) (dbTenants d) \<and>
        row_mem gwID (routeGatewayID r) (dbGateways d) \<and> ref_opt groupID (routeNodeGroupID r) (dbGroups d)) \<and>
     (\<forall>t \<in> set (dbTokens d). row_mem tenantID (tokTenantID t) (dbTenants d)) \<and>
     (\<forall>j \<in> set (dbJobs d). row_mem nodeID (jobNodeID j) (dbNodes d) \<and> ref_opt tenantID (jobTenantID j) (dbTenants d))"

definition db_ok :: "db \<Rightarrow> bool" where
  "db_ok d \<longleftrightarrow> keys_ok d \<and> children_ok d \<and> refs_ok d"

lemmas db_ok_defs = db_ok_def keys_ok_def children_ok_def refs_ok_def

section \<open>One changed table\<close>

text \<open>
  The lemmas below say which constraints the new contents of one table have to
  satisfy; all other constraints carry over.
\<close>

lemma db_ok_empty [simp]: "db_ok empty_db"
  by (simp add: db_ok_defs empty_db_def)

text \<open>The shape of an insert, an update and a delete on the key columns.\<close>

lemma distinct_append_key [simp]:
  "distinct (map g (rows @ [x])) \<longleftrightarrow> distinct (map g rows) \<and> g x \<notin> g ` set rows"
  by auto

lemma row_mem_append [simp]: "row_mem key k (rows @ [x]) \<longleftrightarrow> row_mem key k rows \<or> key x = k"
  by (auto simp: table_simps)

lemma ref_opt_append: "ref_opt key r rows \<Longrightarrow> ref_opt key r (rows @ xs)"
  by (auto simp: table_simps)

lemma row_mem_update:
  assumes "\<And>r. key r = k \<Longrightarrow> key' (f r) = key' r"
  shows "row_mem key' j (row_update key k f rows) \<longleftrightarrow> row_mem key' j rows"
  using row_update_keys [of key k key' f rows, OF assms] unfolding row_mem_iff by (metis set_map)

lemma ref_opt_update:
  assumes "\<And>r. key r = k \<Longrightarrow> key' (f r) = key' r"
  shows "ref_opt key' j (row_update key k f rows) \<longleftrightarrow> ref_opt key' j rows"
  by (cases j) (simp_all add: ref_opt_def row_mem_update assms)

lemma row_mem_delete:
  "row_mem key j (row_delete key k rows) \<longleftrightarrow> row_mem key j rows \<and> j \<noteq> k"
  by (auto simp: table_simps)

lemma ref_opt_delete:
  "ref_opt key r (row_delete key k rows) \<longleftrightarrow> ref_opt key r rows \<and> r \<noteq> Some k"
  by (cases r) (auto simp: ref_opt_def row_mem_delete)

lemma distinct_row_delete_rows [simp]: "distinct rows \<Longrightarrow> distinct (row_delete key k rows)"
  by (simp add: row_delete_def)

lemma not_row_mem: "\<not> row_mem key k rows \<longleftrightarrow> (\<forall>r \<in> set rows. key r \<noteq> k)"
  by (auto simp: table_simps)

text \<open>An update that writes a \<open>UNIQUE\<close> column.\<close>

lemma distinct_row_update_unique:
  assumes "distinct (map key rows)" "distinct (map g rows)"
    and "\<And>r. g (f r) = v" "\<not> row_mem g v (row_delete key k rows)"
  shows "distinct (map g (row_update key k f rows))"
  using assms
proof (induction rows)
  case (Cons x xs)
  show ?case
  proof (cases "key x = k")
    case True
    then have "k \<notin> key ` set xs" using Cons.prems(1) by auto
    then have "\<forall>r \<in> set xs. key r \<noteq> k" by blast
    then have "row_update key k f xs = xs" "row_delete key k (x # xs) = xs"
      using True by (auto simp: row_update_def row_delete_def map_idI)
    then show ?thesis using Cons.prems True by (simp add: row_update_def row_mem_iff)
  next
    case False
    then have "g x \<noteq> v" "\<not> row_mem g v (row_delete key k xs)"
      using Cons.prems(4) by (auto simp: row_delete_def row_mem_iff)
    then show ?thesis using Cons False by (auto simp: row_update_def split: if_splits)
  qed
qed (simp add: row_update_def)

lemma zone_row_update:
  assumes "\<And>z s. zoneID z = k \<Longrightarrow> zoneID (fst (f (z, s))) = k"
  shows "map (zoneID \<circ> fst) (row_update (zoneID \<circ> fst) k f rows) = map (zoneID \<circ> fst) rows"
    and "row_mem (zoneID \<circ> fst) j (row_update (zoneID \<circ> fst) k f rows) \<longleftrightarrow> row_mem (zoneID \<circ> fst) j rows"
proof -
  have key: "(zoneID \<circ> fst) (f r) = (zoneID \<circ> fst) r" if "(zoneID \<circ> fst) r = k" for r
    using that assms [of "fst r" "snd r"] by simp
  show "map (zoneID \<circ> fst) (row_update (zoneID \<circ> fst) k f rows) = map (zoneID \<circ> fst) rows"
    by (rule row_update_keys) (rule key)
  show "row_mem (zoneID \<circ> fst) j (row_update (zoneID \<circ> fst) k f rows) \<longleftrightarrow> row_mem (zoneID \<circ> fst) j rows"
    by (rule row_mem_update) (rule key)
qed

lemma token_keys:
  "tokID \<circ> (\<lambda>t. if P t then t\<lparr>tokUsedAt := u\<rparr> else t) = tokID"
  "tokToken \<circ> (\<lambda>t. if P t then t\<lparr>tokUsedAt := u\<rparr> else t) = tokToken"
  by (auto simp: fun_eq_iff)

lemmas insert_simps = tenant_unique_def db_ok_defs row_mem_iff ref_opt_append
lemmas update_simps = tenant_unique_def db_ok_defs row_update_keys row_mem_update ref_opt_update set_row_update
lemmas delete_simps = tenant_unreferenced_def db_ok_defs row_mem_delete ref_opt_delete not_row_mem set_row_delete

text \<open>
  An operation computes its row by a chain of \<open>let\<close>s and then runs its statements;
  the constraints hold for whatever row it computes.
\<close>

lemma db_ok_Let: "(\<And>x. db_ok (snd (f x))) \<Longrightarrow> db_ok (snd (Let a f))"
  by simp

lemma db_ok_case:
  assumes "db_ok d" "t = None \<Longrightarrow> db_ok (snd r)"
  shows "db_ok (snd (case t of Some f \<Rightarrow> (e f, d) | None \<Rightarrow> r))"
  using assms by (cases t) auto

lemmas step_intros = db_ok_Let db_ok_case

lemma CreateNode_db_ok: "db_ok d \<Longrightarrow> connFK c \<Longrightarrow> db_ok (snd (CreateNode c now n d))"
  unfolding CreateNode_def
  by (intro step_intros) (auto simp: insert_simps)

lemma UpdateNode_db_ok: "db_ok d \<Longrightarrow> connFK c \<Longrightarrow> db_ok (snd (UpdateNode c now n d))"
  unfolding UpdateNode_def
  by (intro step_intros) (auto simp: update_simps)

lemma DeleteNode_db_ok: "db_ok d \<Longrightarrow> connFK c \<Longrightarrow> db_ok (snd (DeleteNode c i d))"
  unfolding DeleteNode_def
  by (intro step_intros) (auto simp: delete_simps)

lemma CreateTenant_db_ok: "db_ok d \<Longrightarrow> connFK c \<Longrightarrow> db_ok (snd (CreateTenant c now t d))"
  unfolding CreateTenant_def
  by (intro step_intros) (auto simp: insert_simps)

lemma UpdateTenant_db_ok: "db_ok d \<Longrightarrow> connFK c \<Longrightarrow> db_ok (snd (UpdateTenant c now t d))"
  unfolding UpdateTenant_def
  by (intro step_intros)
    (auto simp: update_simps intro!: distinct_row_update_unique [where key = tenantID])

lemma DeleteTenant_db_ok: "db_ok d \<Longrightarrow> connFK c \<Longrightarrow> db_ok (snd (DeleteTenant c i d))"
  unfolding DeleteTenant_def
  by (intro step_intros) (auto simp: delete_simps)

lemma CreateUser_db_ok: "db_ok d \<Longrightarrow> connFK c \<Longrightarrow> db_ok (snd (CreateUser c now u d))"
  unfolding CreateUser_def
  by (intro step_intros) (auto simp: insert_simps)

lemma UpdateUser_db_ok: "db_ok d \<Longrightarrow> connFK c \<Longrightarrow> db_ok (snd (UpdateUser c now u d))"
  unfolding UpdateUser_def
  by (intro step_intros)
    (auto simp: update_simps intro!: distinct_row_update_unique [where key = userID])

lemma DeleteUser_db_ok: "db_ok d \<Longrightarrow> connFK c \<Longrightarrow> db_ok (snd (DeleteUser c i d))"
  unfolding DeleteUser_def
  by (intro step_intros) (auto simp: delete_simps)

lemma CreateAPIKey_db_ok: "db_ok d \<Longrightarrow> connFK c \<Longrightarrow> db_ok (snd (CreateAPIKey c now k d))"
  unfolding CreateAPIKey_def
  by (intro step_intros) (auto simp: insert_simps)

lemma DeleteAPIKey_db_ok: "db_ok d \<Longrightarrow> connFK c \<Longrightarrow> db_ok (snd (DeleteAPIKey c i d))"
  unfolding DeleteAPIKey_def
  by (intro step_intros) (auto simp: delete_simps)

lemma UpdateAPIKeyLastUsed_db_ok: "db_ok d \<Longrightarrow> connFK c \<Longrightarrow> db_ok (snd (UpdateAPIKeyLastUsed c now i d))"
  unfolding UpdateAPIKeyLastUsed_def
  by (intro step_intros) (auto simp: update_simps)

lemma CreateSSHKey_db_ok: "db_ok d \<Longrightarrow> connFK c \<Longrightarrow> db_ok (snd (CreateSSHKey c now k d))"
  unfolding CreateSSHKey_def
  by (intro step_intros) (auto simp: insert_simps)

lemma UpdateSSHKey_db_ok: "db_ok d \<Longrightarrow> connFK c \<Longrightarrow> db_ok (snd (UpdateSSHKey c k d))"
  unfolding UpdateSSHKey_def
  by (intro step_intros) (auto simp: update_simps)

lemma DeleteSSHKey_db_ok: "db_ok d \<Longrightarrow> connFK c \<Longrightarrow> db_ok (snd (DeleteSSHKey c i d))"
  unfolding DeleteSSHKey_def
  by (intro step_intros) (auto simp: delete_simps)

lemma UpdateNodeHeartbeat_db_ok: "db_ok d \<Longrightarrow> connFK c \<Longrightarrow> db_ok (snd (UpdateNodeHeartbeat c now i d))"
  unfolding UpdateNodeHeartbeat_def
  by (intro step_intros) (auto simp: update_simps)

lemma UpdateNodeConfigSync_db_ok: "db_ok d \<Longrightarrow> connFK c \<Longrightarrow> db_ok (snd (UpdateNodeConfigSync c now i d))"
  unfolding UpdateNodeConfigSync_def
  by (intro step_intros) (auto simp: update_simps)

lemma CreateNodeGroup_db_ok: "db_ok d \<Longrightarrow> connFK c \<Longrightarrow> db_ok (snd (CreateNodeGroup c now g d))"
  unfolding CreateNodeGroup_def
  by (intro step_intros) (auto simp: insert_simps)

lemma UpdateNodeGroup_db_ok: "db_ok d \<Longrightarrow> connFK c \<Longrightarrow> db_ok (snd (UpdateNodeGroup c now g d))"
  unfolding UpdateNodeGroup_def
  by (intro step_intros) (auto simp: update_simps)

lemma DeleteNodeGroup_db_ok: "db_ok d \<Longrightarrow> connFK c \<Longrightarrow> db_ok (snd (DeleteNodeGroup c i d))"
  unfolding DeleteNodeGroup_def
  by (intro step_intros) (auto simp: delete_simps)

lemma AddNodeToGroup_db_ok: "db_ok d \<Longrightarrow> connFK c \<Longrightarrow> db_ok (snd (AddNodeToGroup c gid nid d))"
  unfolding AddNodeToGroup_def
  by (intro step_intros) (auto simp: insert_simps)

lemma RemoveNodeFromGroup_db_ok: "db_ok d \<Longrightarrow> connFK c \<Longrightarrow> db_ok (snd (RemoveNodeFromGroup c gid nid d))"
  unfolding RemoveNodeFromGroup_def
  by (intro step_intros) (auto simp: delete_simps)

lemma CreateGateway_db_ok: "db_ok d \<Longrightarrow> connFK c \<Longrightarrow> db_ok (snd (CreateGateway c now g d))"
  unfolding CreateGateway_def
  by (intro step_intros) (auto simp: insert_simps)

lemma UpdateGateway_db_ok: "db_ok d \<Longrightarrow> connFK c \<Longrightarrow> db_ok (snd (UpdateGateway c now g d))"
  unfolding UpdateGateway_def
  by (intro step_intros) (auto simp: update_simps)

lemma DeleteGateway_db_ok: "db_ok d \<Longrightarrow> connFK c \<Longrightarrow> db_ok (snd (DeleteGateway c i d))"
  unfolding DeleteGateway_def
  by (intro step_intros) (auto simp: delete_simps)

lemma UpdateGatewayHeartbeat_db_ok: "db_ok d \<Longrightarrow> connFK c \<Longrightarrow> db_ok (snd (UpdateGatewayHeartbeat c now i d))"
  unfolding UpdateGatewayHeartbeat_def
  by (intro step_intros) (auto simp: update_simps)

lemma UpdateGatewayConfigSync_db_ok: "db_ok d \<Longrightarrow> connFK c \<Longrightarrow> db_ok (snd (UpdateGatewayConfigSync c now i d))"
  unfolding UpdateGatewayConfigSync_def
  by (intro step_intros) (auto simp: update_simps)

lemma CreateWireGuardPeer_db_ok: "db_ok d \<Longrightarrow> connFK c \<Longrightarrow> db_ok (snd (CreateWireGuardPeer c now p d))"
  unfolding CreateWireGuardPeer_def
  by (intro step_intros) (auto simp: insert_simps)

lemma UpdateWireGuardPeer_db_ok: "db_ok d \<Longrightarrow> connFK c \<Longrightarrow> db_ok (snd (UpdateWireGuardPeer c now p d))"
  unfolding UpdateWireGuardPeer_def
  by (intro step_intros) (auto simp: update_simps)

lemma DeleteWireGuardPeer_db_ok: "db_ok d \<Longrightarrow> connFK c \<Longrightarrow> db_ok (snd (DeleteWireGuardPeer c i d))"
  unfolding DeleteWireGuardPeer_def
  by (intro step_intros) (auto simp: delete_simps)

lemma CreateEnrollmentToken_db_ok: "db_ok d \<Longrightarrow> connFK c \<Longrightarrow> db_ok (snd (CreateEnrollmentToken c now t d))"
  unfolding CreateEnrollmentToken_def
  by (intro step_intros) (auto simp: insert_simps)

lemma MarkEnrollmentTokenUsed_db_ok: "db_ok d \<Longrightarrow> connFK c \<Longrightarrow> db_ok (snd (MarkEnrollmentTokenUsed c now i d))"
  unfolding MarkEnrollmentTokenUsed_def
  by (intro step_intros) (auto simp: update_simps token_keys)

lemma CreateProvisioningJob_db_ok: "db_ok d \<Longrightarrow> connFK c \<Longrightarrow> db_ok (snd (CreateProvisioningJob c now j d))"
  unfolding CreateProvisioningJob_def
  by (intro step_intros) (auto simp: insert_simps)

lemma UpdateProvisioningJob_db_ok: "db_ok d \<Longrightarrow> connFK c \<Longrightarrow> db_ok (snd (UpdateProvisioningJob c now j d))"
  unfolding UpdateProvisioningJob_def
  by (intro step_intros) (auto simp: update_simps)

lemma CreateIPAllocation_db_ok: "db_ok d \<Longrightarrow> connFK c \<Longrightarrow> db_ok (snd (CreateIPAllocation c now a d))"
  unfolding CreateIPAllocation_def
  by (intro step_intros) (auto simp: insert_simps)

lemma UpdateIPAllocation_db_ok: "db_ok d \<Longrightarrow> connFK c \<Longrightarrow> db_ok (snd (UpdateIPAllocation c now a d))"
  unfolding UpdateIPAllocation_def
  by (intro step_intros) (auto simp: update_simps)

lemma DeleteIPAllocation_db_ok: "db_ok d \<Longrightarrow> connFK c \<Longrightarrow> db_ok (snd (DeleteIPAllocation c i d))"
  unfolding DeleteIPAllocation_def
  by (intro step_intros) (auto simp: delete_simps)

lemma CreateBGPSession_db_ok: "db_ok d \<Longrightarrow> connFK c \<Longrightarrow> db_ok (snd (CreateBGPSession c now s d))"
  unfolding CreateBGPSession_def
  by (intro step_intros) (auto simp: insert_simps)

lemma UpdateBGPSession_db_ok: "db_ok d \<Longrightarrow> connFK c \<Longrightarrow> db_ok (snd (UpdateBGPSession c now s d))"
  unfolding UpdateBGPSession_def
  by (intro step_intros) (auto simp: update_simps)

lemma DeleteBGPSession_db_ok: "db_ok d \<Longrightarrow> connFK c \<Longrightarrow> db_ok (snd (DeleteBGPSession c i d))"
  unfolding DeleteBGPSession_def
  by (intro step_intros) (auto simp: delete_simps)

lemma CreateDNSZone_db_ok: "db_ok d \<Longrightarrow> connFK c \<Longrightarrow> db_ok (snd (CreateDNSZone c now z d))"
  unfolding CreateDNSZone_def
  by (intro step_intros) (auto simp: insert_simps)

lemma UpdateDNSZone_db_ok: "db_ok d \<Longrightarrow> connFK c \<Longrightarrow> db_ok (snd (UpdateDNSZone c now z d))"
  unfolding UpdateDNSZone_def
  by (intro step_intros) (auto simp: update_simps zone_row_update)

lemma DeleteDNSZone_db_ok: "db_ok d \<Longrightarrow> connFK c \<Longrightarrow> db_ok (snd (DeleteDNSZone c i d))"
  unfolding DeleteDNSZone_def
  by (intro step_intros) (auto simp: delete_simps)

lemma IncrementDNSZoneSerial_db_ok: "db_ok d \<Longrightarrow> connFK c \<Longrightarrow> db_ok (snd (IncrementDNSZoneSerial c now i d))"
  unfolding IncrementDNSZoneSerial_def
  by (intro step_intros) (auto simp: update_simps)

lemma CreateDNSRecord_db_ok: "db_ok d \<Longrightarrow> connFK c \<Longrightarrow> db_ok (snd (CreateDNSRecord c now r d))"
  unfolding CreateDNSRecord_def
  by (intro step_intros) (auto simp: insert_simps)

lemma UpdateDNSRecord_db_ok: "db_ok d \<Longrightarrow> connFK c \<Longrightarrow> db_ok (snd (UpdateDNSRecord c now r d))"
  unfolding UpdateDNSRecord_def
  by (intro step_intros) (auto simp: update_simps)

lemma DeleteDNSRecord_db_ok: "db_ok d \<Longrightarrow> connFK c \<Longrightarrow> db_ok (snd (DeleteDNSRecord c i d))"
  unfolding DeleteDNSRecord_def
  by (intro step_intros) (auto simp: delete_simps)

lemma CreateCDNSite_db_ok: "db_ok d \<Longrightarrow> connFK c \<Longrightarrow> db_ok (snd (CreateCDNSite c now s d))"
  unfolding CreateCDNSite_def
  by (intro step_intros) (auto simp: insert_simps)

lemma UpdateCDNSite_db_ok: "db_ok d \<Longrightarrow> connFK c \<Longrightarrow> db_ok (snd (UpdateCDNSite c now s d))"
  unfolding UpdateCDNSite_def
  by (intro step_intros) (auto simp: update_simps)

lemma DeleteCDNSite_db_ok: "db_ok d \<Longrightarrow> connFK c \<Longrightarrow> db_ok (snd (DeleteCDNSite c i d))"
  unfolding DeleteCDNSite_def
  by (intro step_intros) (auto simp: delete_simps)

lemma CreateCDNOrigin_db_ok: "db_ok d \<Longrightarrow> connFK c \<Longrightarrow> db_ok (snd (CreateCDNOrigin c now a d))"
  unfolding CreateCDNOrigin_def
  by (intro step_intros) (auto simp: insert_simps)

lemma UpdateCDNOrigin_db_ok: "db_ok d \<Longrightarrow> connFK c \<Longrightarrow> db_ok (snd (UpdateCDNOrigin c now a d))"
  unfolding UpdateCDNOrigin_def
  by (intro step_intros) (auto simp: update_simps)

lemma DeleteCDNOrigin_db_ok: "db_ok d \<Longrightarrow> connFK c \<Longrightarrow> db_ok (snd (DeleteCDNOrigin c i d))"
  unfolding DeleteCDNOrigin_def
  by (intro step_intros) (auto simp: delete_simps)

lemma CreateRoute_db_ok: "db_ok d \<Longrightarrow> connFK c \<Longrightarrow> db_ok (snd (CreateRoute c now r d))"
  unfolding CreateRoute_def
  by (intro step_intros) (auto simp: insert_simps)

lemma UpdateRoute_db_ok: "db_ok d \<Longrightarrow> connFK c \<Longrightarrow> db_ok (snd (UpdateRoute c now r d))"
  unfolding UpdateRoute_def
  by (intro step_intros) (auto simp: update_simps)

lemma DeleteRoute_db_ok: "db_ok d \<Longrightarrow> connFK c \<Longrightarrow> db_ok (snd (DeleteRoute c i d))"
  unfolding DeleteRoute_def
  by (intro step_intros) (auto simp: delete_simps)

lemma CreateAuditEvent_db_ok: "db_ok d \<Longrightarrow> connFK c \<Longrightarrow> db_ok (snd (CreateAuditEvent c e d))"
  unfolding CreateAuditEvent_def
  by (intro step_intros) (auto simp: insert_simps)

section \<open>Every operation as a step\<close>

text \<open>
  \<open>store_step ok d d'\<close>: some store operation, run on a connection that satisfies \<open>ok\<close>,
  takes the database from \<open>d\<close> to \<open>d'\<close> (which is \<open>d\<close> when the call fails).
\<close>

inductive store_step :: "(conn \<Rightarrow> bool) \<Rightarrow> db \<Rightarrow> db \<Rightarrow> bool" for ok where
  createTenant: "ok c \<Longrightarrow> store_step ok d (snd (CreateTenant c now t d))"
| updateTenant: "ok c \<Longrightarrow> store_step ok d (snd (UpdateTenant c now t d))"
| deleteTenant: "ok c \<Longrightarrow> store_step ok d (snd (DeleteTenant c i d))"
| createUser: "ok c \<Longrightarrow> store_step ok d (snd (CreateUser c now u d))"
| updateUser: "ok c \<Longrightarrow> store_step ok d (snd (UpdateUser c now u d))"
| deleteUser: "ok c \<Longrightarrow> store_step ok d (snd (DeleteUser c i d))"
| createAPIKey: "ok c \<Longrightarrow> store_step ok d (snd (CreateAPIKey c now k d))"
| deleteAPIKey: "ok c \<Longrightarrow> store_step ok d (snd (DeleteAPIKey c i d))"
| updateAPIKeyLastUsed: "ok c \<Longrightarrow> store_step ok d (snd (UpdateAPIKeyLastUsed c now i d))"
| createSSHKey: "ok c \<Longrightarrow> store_step ok d (snd (CreateSSHKey c now k d))"
| updateSSHKey: "ok c \<Longrightarrow> store_step ok d (snd (UpdateSSHKey c k d))"
| deleteSSHKey: "ok c \<Longrightarrow> store_step ok d (snd (DeleteSSHKey c i d))"
| createNode: "ok c \<Longrightarrow> store_step ok d (snd (CreateNode c now n d))"
| updateNode: "ok c \<Longrightarrow> store_step ok d (snd (UpdateNode c now n d))"
| deleteNode: "ok c \<Longrightarrow> store_step ok d (snd (DeleteNode c i d))"
| updateNodeHeartbeat: "ok c \<Longrightarrow> store_step ok d (snd (UpdateNodeHeartbeat c now i d))"
| updateNodeConfigSync: "ok c \<Longrightarrow> store_step ok d (snd (UpdateNodeConfigSync c now i d))"
| createNodeGroup: "ok c \<Longrightarrow> store_step ok d (snd (CreateNodeGroup c now g d))"
| updateNodeGroup: "ok c \<Longrightarrow> store_step ok d (snd (UpdateNodeGroup c now g d))"
| deleteNodeGroup: "ok c \<Longrightarrow> store_step ok d (snd (DeleteNodeGroup c i d))"
| addNodeToGroup: "ok c \<Longrightarrow> store_step ok d (snd (AddNodeToGroup c gid nid d))"
| removeNodeFromGroup: "ok c \<Longrightarrow> store_step ok d (snd (RemoveNodeFromGroup c gid nid d))"
| createGateway: "ok c \<Longrightarrow> store_step ok d (snd (CreateGateway c now g d))"
| updateGateway: "ok c \<Longrightarrow> store_step ok d (snd (UpdateGateway c now g d))"
| deleteGateway: "ok c \<Longrightarrow> store_step ok d (snd (DeleteGateway c i d))"
| updateGatewayHeartbeat: "ok c \<Longrightarrow> store_step ok d (snd (UpdateGatewayHeartbeat c now i d))"
| updateGatewayConfigSync: "ok c \<Longrightarrow> store_step ok d (snd (UpdateGatewayConfigSync c now i d))"
| createWireGuardPeer: "ok c \<Longrightarrow> store_step ok d (snd (CreateWireGuardPeer c now p d))"
| updateWireGuardPeer: "ok c \<Longrightarrow> store_step ok d (snd (UpdateWireGuardPeer c now p d))"
| deleteWireGuardPeer: "ok c \<Longrightarrow> store_step ok d (snd (DeleteWireGuardPeer c i d))"
| createEnrollmentToken: "ok c \<Longrightarrow> store_step ok d (snd (CreateEnrollmentToken c now t d))"
| markEnrollmentTokenUsed: "ok c \<Longrightarrow> store_step ok d (snd (MarkEnrollmentTokenUsed c now i d))"
| createProvisioningJob: "ok c \<Longrightarrow> store_step ok d (snd (CreateProvisioningJob c now j d))"
| updateProvisioningJob: "ok c \<Longrightarrow> store_step ok d (snd (UpdateProvisioningJob c now j d))"
| createIPAllocation: "ok c \<Longrightarrow> store_step ok d (snd (CreateIPAllocation c now a d))"
| updateIPAllocation: "ok c \<Longrightarrow> store_step ok d (snd (UpdateIPAllocation c now a d))"
| deleteIPAllocation: "ok c \<Longrightarrow> store_step ok d (snd (DeleteIPAllocation c i d))"
| createBGPSession: "ok c \<Longrightarrow> store_step ok d (snd (CreateBGPSession c now s d))"
| updateBGPSession: "ok c \<Longrightarrow> store_step ok d (snd (UpdateBGPSession c now s d))"
| deleteBGPSession: "ok c \<Longrightarrow> store_step ok d (snd (DeleteBGPSession c i d))"
| createDNSZone: "ok c \<Longrightarrow> store_step ok d (snd (CreateDNSZone c now z d))"
| updateDNSZone: "ok c \<Longrightarrow> store_step ok d (snd (UpdateDNSZone c now z d))"
| deleteDNSZone: "ok c \<Longrightarrow> store_step ok d (snd (DeleteDNSZone c i d))"
| incrementDNSZoneSerial: "ok c \<Longrightarrow> store_step ok d (snd (IncrementDNSZoneSerial c now i d))"
| createDNSRecord: "ok c \<Longrightarrow> store_step ok d (snd (CreateDNSRecord c now r d))"
| updateDNSRecord: "ok c \<Longrightarrow> store_step ok d (snd (UpdateDNSRecord c now r d))"
| deleteDNSRecord: "ok c \<Longrightarrow> store_step ok d (snd (DeleteDNSRecord c i d))"
| createCDNSite: "ok c \<Longrightarrow> store_step ok d (snd (CreateCDNSite c now s d))"
| updateCDNSite: "ok c \<Longrightarrow> store_step ok d (snd (UpdateCDNSite c now s d))"
| deleteCDNSite: "ok c \<Longrightarrow> store_step ok d (snd (DeleteCDNSite c i d))"
| createCDNOrigin: "ok c \<Longrightarrow> store_step ok d (snd (CreateCDNOrigin c now a d))"
| updateCDNOrigin: "ok c \<Longrightarrow> store_step ok d (snd (UpdateCDNOrigin c now a d))"
| deleteCDNOrigin: "ok c \<Longrightarrow> store_step ok d (snd (DeleteCDNOrigin c i d))"
| createRoute: "ok c \<Longrightarrow> store_step ok d (snd (CreateRoute c now r d))"
| updateRoute: "ok c \<Longrightarrow> store_step ok d (snd (UpdateRoute c now r d))"
| deleteRoute: "ok c \<Longrightarrow> store_step ok d (snd (DeleteRoute c i d))"
| createAuditEvent: "ok c \<Longrightarrow> store_step ok d (snd (CreateAuditEvent c e d))"

lemmas op_db_ok =
  CreateTenant_db_ok
  UpdateTenant_db_ok
  DeleteTenant_db_ok
  CreateUser_db_ok
  UpdateUser_db_ok
  DeleteUser_db_ok
  CreateAPIKey_db_ok
  DeleteAPIKey_db_ok
  UpdateAPIKeyLastUsed_db_ok
  CreateSSHKey_db_ok
  UpdateSSHKey_db_ok
  DeleteSSHKey_db_ok
  CreateNode_db_ok
  UpdateNode_db_ok
  DeleteNode_db_ok
  UpdateNodeHeartbeat_db_ok
  UpdateNodeConfigSync_db_ok
  CreateNodeGroup_db_ok
  UpdateNodeGroup_db_ok
  DeleteNodeGroup_db_ok
  AddNodeToGroup_db_ok
  RemoveNodeFromGroup_db_ok
  CreateGateway_db_ok
  UpdateGateway_db_ok
  DeleteGateway_db_ok
  UpdateGatewayHeartbeat_db_ok
  UpdateGatewayConfigSync_db_ok
  CreateWireGuardPeer_db_ok
  UpdateWireGuardPeer_db_ok
  DeleteWireGuardPeer_db_ok
  CreateEnrollmentToken_db_ok
  MarkEnrollmentTokenUsed_db_ok
  CreateProvisioningJob_db_ok
  UpdateProvisioningJob_db_ok
  CreateIPAllocation_db_ok
  UpdateIPAllocation_db_ok
  DeleteIPAllocation_db_ok
  CreateBGPSession_db_ok
  UpdateBGPSession_db_ok
  DeleteBGPSession_db_ok
  CreateDNSZone_db_ok
  UpdateDNSZone_db_ok
  DeleteDNSZone_db_ok
  IncrementDNSZoneSerial_db_ok
  CreateDNSRecord_db_ok
  UpdateDNSRecord_db_ok
  DeleteDNSRecord_db_ok
  CreateCDNSite_db_ok
  UpdateCDNSite_db_ok
  DeleteCDNSite_db_ok
  CreateCDNOrigin_db_ok
  UpdateCDNOrigin_db_ok
  DeleteCDNOrigin_db_ok
  CreateRoute_db_ok
  UpdateRoute_db_ok
  DeleteRoute_db_ok
  CreateAuditEvent_db_ok

lemma store_step_db_ok: "store_step connFK d d' \<Longrightarrow> db_ok d \<Longrightarrow> db_ok d'"
  by (induction rule: store_step.induct) (auto intro: op_db_ok)

text \<open>
  C1: the schema is an invariant.  In every database that store operations reach
  from the empty one on connections that enforce foreign keys, whatever the driver
  does, primary keys and unique columns are unique, the child rows of a parent are
  distinct and every reference points to a row that exists.
\<close>

theorem reachable_db_ok:
  assumes "(store_step connFK)\<^sup>*\<^sup>* empty_db d"
  shows "db_ok d"
  using assms by (induction rule: rtranclp_induct) (auto intro: store_step_db_ok)

section \<open>The keyed-store contract\<close>

text \<open>
  A sequence of calls on one table, each on a connection of its own, with whether
  each one succeeded; and what the successful ones mean for a finite map.
\<close>

datatype 'a kop = KCreate Time 'a | KUpdate Time 'a | KDelete ID

fun kv_run ::
  "(conn \<Rightarrow> Time \<Rightarrow> 'a \<Rightarrow> db \<Rightarrow> 'a dbres) \<Rightarrow> (conn \<Rightarrow> Time \<Rightarrow> 'a \<Rightarrow> db \<Rightarrow> 'a dbres) \<Rightarrow>
   (conn \<Rightarrow> ID \<Rightarrow> db \<Rightarrow> unit dbres) \<Rightarrow> (conn \<times> 'a kop) list \<Rightarrow> db \<Rightarrow> bool list \<times> db" where
  "kv_run create update delete [] d = ([], d)"
| "kv_run create update delete ((c, op) # ops) d =
     (case (case op of
              KCreate now x \<Rightarrow> map_prod is_ok (\<lambda>d. d) (create c now x d)
            | KUpdate now x \<Rightarrow> map_prod is_ok (\<lambda>d. d) (update c now x d)
            | KDelete i \<Rightarrow> map_prod is_ok (\<lambda>d. d) (delete c i d)) of
        (ok, d') \<Rightarrow> (case kv_run create update delete ops d' of (oks, d'') \<Rightarrow> (ok # oks, d'')))"

fun kv_spec ::
  "('a \<Rightarrow> ID) \<Rightarrow> (Time \<Rightarrow> 'a \<Rightarrow> 'a) \<Rightarrow> (Time \<Rightarrow> 'a \<Rightarrow> 'a \<Rightarrow> 'a) \<Rightarrow> 'a kop \<times> bool \<Rightarrow>
   (ID \<rightharpoonup> 'a) \<Rightarrow> (ID \<rightharpoonup> 'a)" where
  "kv_spec key ins upd (op, ok) m =
     (if \<not> ok then m
      else (case op of
              KCreate now x \<Rightarrow> m(key x \<mapsto> ins now x)
            | KUpdate now x \<Rightarrow> m(key x := map_option (upd now x) (m (key x)))
            | KDelete i \<Rightarrow> m(i := None)))"

text \<open>
  What a service may assume of the operations on one table: \<open>view\<close> is the table as
  a finite map, \<open>ins\<close> the row that a create stores, \<open>upd\<close> the row that an update makes
  of its argument and the old row.
\<close>

locale keyed_store =
  fixes view :: "db \<Rightarrow> ID \<Rightarrow> 'a option"
    and key :: "'a \<Rightarrow> ID"
    and ins :: "Time \<Rightarrow> 'a \<Rightarrow> 'a"
    and upd :: "Time \<Rightarrow> 'a \<Rightarrow> 'a \<Rightarrow> 'a"
    and get :: "conn \<Rightarrow> ID \<Rightarrow> db \<Rightarrow> 'a result"
    and create :: "conn \<Rightarrow> Time \<Rightarrow> 'a \<Rightarrow> db \<Rightarrow> 'a dbres"
    and update :: "conn \<Rightarrow> Time \<Rightarrow> 'a \<Rightarrow> db \<Rightarrow> 'a dbres"
    and delete :: "conn \<Rightarrow> ID \<Rightarrow> db \<Rightarrow> unit dbres"
  assumes get_view: "connErr c = None \<Longrightarrow> get c i d = (case view d i of None \<Rightarrow> Inl ErrNotFound | Some r \<Rightarrow> Inr r)"
    and create_ok: "fst (create c now x d) = Inr y \<Longrightarrow>
      view d (key x) = None \<and> view (snd (create c now x d)) = (view d)(key x \<mapsto> ins now x)"
    and create_fail: "fst (create c now x d) = Inl e \<Longrightarrow> snd (create c now x d) = d"
    and update_ok: "fst (update c now x d) = Inr y \<Longrightarrow>
      \<exists>r. view d (key x) = Some r \<and> view (snd (update c now x d)) = (view d)(key x \<mapsto> upd now x r)"
    and update_fail: "fst (update c now x d) = Inl e \<Longrightarrow> snd (update c now x d) = d"
    and update_missing: "connErr c = None \<Longrightarrow> view d (key x) = None \<Longrightarrow> fst (update c now x d) = Inl ErrNotFound"
    and delete_ok: "fst (delete c i d) = Inr u \<Longrightarrow>
      view d i \<noteq> None \<and> view (snd (delete c i d)) = (view d)(i := None)"
    and delete_fail: "fst (delete c i d) = Inl e \<Longrightarrow> snd (delete c i d) = d"
    and delete_missing: "connErr c = None \<Longrightarrow> view d i = None \<Longrightarrow> fst (delete c i d) = Inl ErrNotFound"
    and key_ins: "key (ins now x) = key x"
    and key_upd: "key (upd now x r) = key x"
begin

lemma get_after_create:
  "fst (create c now x d) = Inr y \<Longrightarrow> connErr c' = None \<Longrightarrow>
     get c' (key x) (snd (create c now x d)) = Inr (ins now x)"
  by (drule create_ok) (simp add: get_view)

lemma get_after_delete:
  "fst (delete c i d) = Inr u \<Longrightarrow> connErr c' = None \<Longrightarrow> get c' i (snd (delete c i d)) = Inl ErrNotFound"
  by (drule delete_ok) (simp add: get_view)

lemma delete_twice:
  "fst (delete c i d) = Inr u \<Longrightarrow> connErr c' = None \<Longrightarrow> fst (delete c' i (snd (delete c i d))) = Inl ErrNotFound"
  by (drule delete_ok) (simp add: delete_missing)

text \<open>A successful create is undone by a successful delete, as far as lookups can tell.\<close>

lemma create_delete_view:
  assumes "fst (create c now x d) = Inr y" "fst (delete c' (key x) (snd (create c now x d))) = Inr u"
  shows "view (snd (delete c' (key x) (snd (create c now x d)))) = view d"
  using create_ok [OF assms(1)] delete_ok [OF assms(2)] by (auto simp: fun_eq_iff)

text \<open>No operation changes the row of another key, whether it succeeds or not.\<close>

lemma frame:
  "j \<noteq> key x \<Longrightarrow> view (snd (create c now x d)) j = view d j"
  "j \<noteq> key x \<Longrightarrow> view (snd (update c now x d)) j = view d j"
  "j \<noteq> i \<Longrightarrow> view (snd (delete c i d)) j = view d j"
proof -
  show "view (snd (create c now x d)) j = view d j" if "j \<noteq> key x"
    using that create_ok [of c now x d] create_fail [of c now x d] by (cases "fst (create c now x d)") auto
  show "view (snd (update c now x d)) j = view d j" if "j \<noteq> key x"
    using that update_ok [of c now x d] update_fail [of c now x d] by (cases "fst (update c now x d)") fastforce+
  show "view (snd (delete c i d)) j = view d j" if "j \<noteq> i"
    using that delete_ok [of c i d] delete_fail [of c i d] by (cases "fst (delete c i d)") auto
qed

text \<open>Any sequence of calls is the sequence of its successful calls on the map.\<close>

lemma run_refines:
  "view (snd (kv_run create update delete ops d)) =
     fold (kv_spec key ins upd) (zip (map snd ops) (fst (kv_run create update delete ops d))) (view d)"
proof (induction ops arbitrary: d)
  case (Cons a ops)
  obtain c op where a: "a = (c, op)" by (cases a)
  define res where "res = (case op of
              KCreate now x \<Rightarrow> map_prod is_ok (\<lambda>d. d) (create c now x d)
            | KUpdate now x \<Rightarrow> map_prod is_ok (\<lambda>d. d) (update c now x d)
            | KDelete i \<Rightarrow> map_prod is_ok (\<lambda>d. d) (delete c i d))"
  have one: "view (snd res) = kv_spec key ins upd (op, fst res) (view d)"
  proof (cases op)
    case (KCreate now x)
    then show ?thesis using create_ok [of c now x d] create_fail [of c now x d]
      by (cases "fst (create c now x d)") (auto simp: res_def)
  next
    case (KUpdate now x)
    then show ?thesis using update_ok [of c now x d] update_fail [of c now x d]
      by (cases "fst (update c now x d)") (auto simp: res_def)
  next
    case (KDelete i)
    then show ?thesis using delete_ok [of c i d] delete_fail [of c i d]
      by (cases "fst (delete c i d)") (auto simp: res_def)
  qed
  have "kv_run create update delete (a # ops) d =
          (fst res # fst (kv_run create update delete ops (snd res)), snd (kv_run create update delete ops (snd res)))"
    by (simp add: a res_def split: prod.split)
  then show ?case using Cons.IH [of "snd res"] one by (simp add: a del: kv_run.simps kv_spec.simps)
qed simp

end

lemma stmt_ok:
  "connErr c = None \<Longrightarrow> unique \<Longrightarrow> (connFK c \<longrightarrow> refs) \<Longrightarrow> sql_exec c unique refs = None"
  "connErr c = None \<Longrightarrow> hit \<Longrightarrow> unique \<Longrightarrow> (connFK c \<longrightarrow> refs) \<Longrightarrow> sql_change c report unique refs hit = None"
  "distinct xs \<Longrightarrow> child_error label xs = None"
  by simp_all

lemma fst_case_Inr [simp]:
  "fst (case t of None \<Rightarrow> r | Some f \<Rightarrow> (Inl (e f), d)) = Inr y \<longleftrightarrow> t = None \<and> fst r = Inr y"
  by (cases t) auto

lemma snd_case_fail:
  "fst (case t of None \<Rightarrow> r | Some f \<Rightarrow> (Inl (e f), d)) = Inl e' \<Longrightarrow> (fst r = Inl e' \<Longrightarrow> snd r = d)
   \<Longrightarrow> snd (case t of None \<Rightarrow> r | Some f \<Rightarrow> (Inl (e f), d)) = d"
  by (cases t) auto

lemma sql_change_missing: "connErr c = None \<Longrightarrow> sql_change c report unique refs False = Some ErrNotFound"
  by (simp add: sql_change_def sql_exec_def)

text \<open>A table as a map after each kind of change.\<close>

lemma row_find_insert:
  assumes "\<not> row_mem key (key x) rows"
  shows "(\<lambda>j. row_find key j (rows @ [x])) = (\<lambda>j. row_find key j rows)(key x \<mapsto> x)"
proof
  fix j
  have "row_find key (key x) rows = None" using assms by (simp add: row_mem_iff)
  then show "row_find key j (rows @ [x]) = ((\<lambda>j. row_find key j rows)(key x \<mapsto> x)) j"
    by (cases "row_find key j rows"; cases "j = key x") (simp_all del: row_find_None_iff)
qed

lemma row_find_update_fun:
  assumes "row_mem key k rows" "\<And>r. key (f r) = k"
  shows "\<exists>r. row_find key k rows = Some r \<and>
           (\<lambda>j. row_find key j (row_update key k f rows)) = (\<lambda>j. row_find key j rows)(k \<mapsto> f r)"
  using row_find_mem_Some [OF assms(1)] by (auto simp: fun_eq_iff row_find_update assms(2))

lemma row_find_delete_fun:
  "(\<lambda>j. row_find key j (row_delete key k rows)) = (\<lambda>j. row_find key j rows)(k := None)"
  by (auto simp: fun_eq_iff row_find_delete)

interpretation node_store: keyed_store "\<lambda>d i. row_find nodeID i (dbNodes d)" nodeID
  "\<lambda>now n. (node_defaults now n)\<lparr>nodeLastHeartbeat := None, nodeLastConfigSync := None\<rparr>"
  "\<lambda>now n r. n\<lparr>nodeUpdatedAt := now, nodeLastHeartbeat := nodeLastHeartbeat r,
     nodeLastConfigSync := nodeLastConfigSync r, nodeCreatedAt := nodeCreatedAt r\<rparr>"
  GetNode CreateNode UpdateNode DeleteNode
proof (standard, goal_cases)
  case (1 c i d)
  then show ?case by (simp add: GetNode_def sql_row_def)
next
  case (2 c now x d y)
  then have ok: "\<not> row_mem nodeID (nodeID x) (dbNodes d)" "connErr c = None" "distinct (nodeCapabilities x)"
    "connFK c \<longrightarrow> ref_opt tenantID (nodeTenantID x) (dbTenants d) \<and> ref_opt sshID (nodeSSHKeyID x) (dbSSHKeys d)"
    by (simp_all add: CreateNode_def Let_def)
  show ?case
    using row_find_insert [of nodeID "(node_defaults now x)\<lparr>nodeLastHeartbeat := None, nodeLastConfigSync := None\<rparr>" "dbNodes d"] ok
    by (simp add: CreateNode_def Let_def stmt_ok row_mem_iff del: row_find_append)
next
  case (3 c now x d e)
  then show ?case unfolding CreateNode_def Let_def by (elim snd_case_fail) auto
next
  case (4 c now x d y)
  then have ok: "row_mem nodeID (nodeID x) (dbNodes d)" "connErr c = None" "distinct (nodeCapabilities x)"
    "connFK c \<longrightarrow> ref_opt tenantID (nodeTenantID x) (dbTenants d) \<and> ref_opt sshID (nodeSSHKeyID x) (dbSSHKeys d)"
    by (simp_all add: UpdateNode_def Let_def)
  show ?case
    using row_find_update_fun [OF ok(1), of "\<lambda>r. x\<lparr>nodeUpdatedAt := now, nodeLastHeartbeat := nodeLastHeartbeat r,
      nodeLastConfigSync := nodeLastConfigSync r, nodeCreatedAt := nodeCreatedAt r\<rparr>"] ok
    by (simp add: UpdateNode_def Let_def stmt_ok)
next
  case (5 c now x d e)
  then show ?case unfolding UpdateNode_def Let_def by (elim snd_case_fail) auto
next
  case (6 c d x now)
  then show ?case by (simp add: UpdateNode_def Let_def row_mem_iff sql_change_missing)
next
  case (7 c i d u)
  then show ?case by (simp add: DeleteNode_def row_mem_iff row_find_delete_fun stmt_ok)
next
  case (8 c i d e)
  then show ?case unfolding DeleteNode_def by (elim snd_case_fail) auto
next
  case (9 c d i)
  then show ?case by (simp add: DeleteNode_def row_mem_iff sql_change_missing)
qed simp_all

interpretation record_store: keyed_store "\<lambda>d i. row_find recID i (dbRecords d)" recID
  "\<lambda>now r. r\<lparr>recCreatedAt := now, recUpdatedAt := now\<rparr>"
  "\<lambda>now r x. r\<lparr>recUpdatedAt := now, recZoneID := recZoneID x, recCreatedAt := recCreatedAt x\<rparr>"
  GetDNSRecord CreateDNSRecord UpdateDNSRecord DeleteDNSRecord
proof (standard, goal_cases)
  case (1 c i d)
  then show ?case by (simp add: GetDNSRecord_def sql_row_def)
next
  case (2 c now x d y)
  then have ok: "\<not> row_mem recID (recID x) (dbRecords d)" "connErr c = None"
    "connFK c \<longrightarrow> row_mem (zoneID \<circ> fst) (recZoneID x) (dbZones d)"
    by (simp_all add: CreateDNSRecord_def Let_def)
  show ?case
    using row_find_insert [of recID "x\<lparr>recCreatedAt := now, recUpdatedAt := now\<rparr>" "dbRecords d"] ok
    by (simp add: CreateDNSRecord_def Let_def stmt_ok row_mem_iff del: row_find_append)
next
  case (3 c now x d e)
  then show ?case unfolding CreateDNSRecord_def Let_def by (elim snd_case_fail) auto
next
  case (4 c now x d y)
  then have ok: "row_mem recID (recID x) (dbRecords d)" "connErr c = None"
    by (simp_all add: UpdateDNSRecord_def Let_def)
  show ?case
    using row_find_update_fun [OF ok(1), of "\<lambda>r. x\<lparr>recUpdatedAt := now, recZoneID := recZoneID r, recCreatedAt := recCreatedAt r\<rparr>"] ok
    by (simp add: UpdateDNSRecord_def Let_def stmt_ok)
next
  case (5 c now x d e)
  then show ?case unfolding UpdateDNSRecord_def Let_def by (elim snd_case_fail) auto
next
  case (6 c d x now)
  then show ?case by (simp add: UpdateDNSRecord_def Let_def row_mem_iff sql_change_missing)
next
  case (7 c i d u)
  then show ?case by (simp add: DeleteDNSRecord_def row_mem_iff row_find_delete_fun stmt_ok)
next
  case (8 c i d e)
  then show ?case unfolding DeleteDNSRecord_def by (elim snd_case_fail) auto
next
  case (9 c d i)
  then show ?case by (simp add: DeleteDNSRecord_def row_mem_iff sql_change_missing)
qed simp_all


section \<open>Sample calls\<close>

definition fk_conn :: conn where "fk_conn = \<lparr>connFK = True, connErr = None\<rparr>"
definition plain_conn :: conn where "plain_conn = \<lparr>connFK = False, connErr = None\<rparr>"

definition sample_tenant :: Tenant where
  "sample_tenant = \<lparr>tenantID = 7, tenantName = ''acme'', tenantSlug = ''acme'', tenantStatus = TenantStatusActive,
     tenantSettings = '''', tenantCreatedAt = 0, tenantUpdatedAt = 0\<rparr>"

definition sample_node :: "ID \<Rightarrow> Node" where
  "sample_node i = \<lparr>nodeID = i, nodeTenantID = Some 7, nodeName = ''n'', nodeHostname = ''h'', nodePublicIP = ''192.0.2.1'',
     nodeWireGuardIP = '''', nodeWireGuardIPv6 = '''', nodeStatus = NodeStatusPending, nodeRegion = '''',
     nodeProvider = '''', nodeSSHPort = 22, nodeSSHUser = ''root'', nodeSSHKeyID = None, nodeBinaryVersion = '''',
     nodeLastHeartbeat = None, nodeLastConfigSync = None, nodeCapabilities = [CapabilityDNS], nodeMetadata = '''',
     nodeCreatedAt = 0, nodeUpdatedAt = 0\<rparr>"

text \<open>A tenant with one node.\<close>

definition sample_db :: db where
  "sample_db = snd (CreateNode fk_conn 2 (sample_node 1) (snd (CreateTenant fk_conn 1 sample_tenant empty_db)))"

lemmas sample_defs = sample_db_def sample_node_def sample_tenant_def fk_conn_def plain_conn_def empty_db_def

lemma sample_db_reachable: "(store_step connFK)\<^sup>*\<^sup>* empty_db sample_db"
proof -
  have "store_step connFK empty_db (snd (CreateTenant fk_conn 1 sample_tenant empty_db))"
    by (rule createTenant) (simp add: fk_conn_def)
  moreover have "store_step connFK (snd (CreateTenant fk_conn 1 sample_tenant empty_db)) sample_db"
    unfolding sample_db_def by (rule createNode) (simp add: fk_conn_def)
  ultimately show ?thesis by (meson converse_rtranclp_into_rtranclp r_into_rtranclp)
qed

lemma sample_db_rows:
  "map tenantID (dbTenants sample_db) = [7] \<and> map nodeID (dbNodes sample_db) = [1] \<and>
   map nodeTenantID (dbNodes sample_db) = [Some 7]"
  by (simp add: sample_defs CreateTenant_def CreateNode_def tenant_defaults_def node_defaults_def Let_def stmt_ok
      tenant_unique_def row_mem_def ref_opt_def)

theorem reachable_db_ok_witness:
  "db_ok sample_db \<and> map nodeTenantID (dbNodes sample_db) = [Some 7]"
  using reachable_db_ok [OF sample_db_reachable] sample_db_rows by simp


section \<open>Keyset pagination\<close>

lemma filter_past_index:
  assumes "sorted_wrt (\<lambda>a b. f a > f b) rows" "0 < k" "k \<le> length rows"
  shows "filter (\<lambda>n. f n < (f (rows ! (k - 1)) :: int)) rows = drop k rows"
proof -
  have ne: "take k rows \<noteq> []" "min (length rows) k = k" using assms(2,3) by auto
  have last: "rows ! (k - 1) = last (take k rows)" "take k rows \<noteq> []"
    using last_conv_nth [OF ne(1)] ne assms(2) by simp_all
  have parts: "sorted_wrt (\<lambda>a b. f a > f b) (take k rows)"
    "\<forall>x \<in> set (take k rows). \<forall>y \<in> set (drop k rows). f x > f y"
    using assms(1) sorted_wrt_append [of "\<lambda>a b. f a > f b" "take k rows" "drop k rows"] by auto
  have "f (last (take k rows)) \<le> f x" if "x \<in> set (take k rows)" for x
  proof -
    obtain ys where ys: "take k rows = ys @ [last (take k rows)]" using last(2) by (metis append_butlast_last_id)
    then have "\<forall>y \<in> set ys. f y > f (last (take k rows))" using parts(1) by (metis list.set_intros(1) sorted_wrt_append)
    then show ?thesis using that ys by (metis Un_iff empty_iff empty_set less_le order_refl set_ConsD set_append)
  qed
  then have "filter (\<lambda>n. f n < f (rows ! (k - 1))) (take k rows) = []"
    unfolding last(1) by (auto simp: filter_empty_conv not_less)
  moreover have "filter (\<lambda>n. f n < f (rows ! (k - 1))) (drop k rows) = drop k rows"
    using parts(2) last unfolding last(1) by (auto simp: filter_id_conv)
  ultimately show ?thesis by (metis append_Nil append_take_drop_id filter_append)
qed

lemma newest_first_strict:
  assumes "inj_on created (set rows)" "distinct rows"
  shows "sorted_wrt (\<lambda>a b. created a > created b) (newest_first created rows)"
proof -
  let ?g = "\<lambda>r. - created r"
  have "sorted (map ?g (sort_key ?g rows))" by (rule sorted_sort_key)
  moreover have "distinct (map ?g (sort_key ?g rows))"
    using assms by (auto simp: distinct_map inj_on_def)
  ultimately have "sorted_wrt (<) (map ?g (sort_key ?g rows))" by (simp add: strict_sorted_iff)
  then show ?thesis by (simp add: newest_first_def sorted_wrt_map)
qed

text \<open>
  C26: following cursors visits every node once.  For nodes with distinct creation times,
  the cursor made from the \<open>k\<close>-th node of the listing returns the nodes that come right
  after it, up to the limit, and the same total; so pages chained by their last node
  are the listing cut into pieces, with nothing skipped or repeated.
\<close>

theorem cursor_continues_listing:
  assumes "inj_on nodeCreatedAt (set (tenant_nodes tenant d))" "distinct (tenant_nodes tenant d)"
    and "rows = newest_first nodeCreatedAt (tenant_nodes tenant d)" "0 < k" "k \<le> length rows" "0 < limit"
    and "connErr c = None"
  shows "ListNodes c tenant \<lparr>lpOffset = 0, lpLimit = limit\<rparr> d = Inr (take (nat limit) rows, int (length rows)) \<and>
         ListNodes_cursor idstr c tenant (nodeCreatedAt (rows ! (k - 1)), idstr (nodeID (rows ! (k - 1)))) limit d =
           Inr (take (nat limit) (drop k rows), int (length rows))"
proof -
  let ?ns = "tenant_nodes tenant d" and ?x = "rows ! (k - 1)"
  have mem: "?x \<in> set ?ns" using assms(3-5) by (metis Suc_diff_1 Suc_le_lessD newest_first_def nth_mem set_sort)
  have "filter (\<lambda>n. nodeCreatedAt n < nodeCreatedAt ?x \<or>
          nodeCreatedAt n = nodeCreatedAt ?x \<and> idstr (nodeID n) < idstr (nodeID ?x)) ?ns =
        filter (\<lambda>n. nodeCreatedAt n < nodeCreatedAt ?x) ?ns" (is "?after = ?older")
    using inj_onD [OF assms(1)] mem by (intro filter_cong) auto
  moreover have "rev (sort_key nodeCreatedAt (sort_key (\<lambda>n. idstr (nodeID n)) ?older)) =
        newest_first nodeCreatedAt ?older"
    unfolding newest_first_def
  proof (rule sort_key_inj_key_eq [symmetric])
    show "inj_on (\<lambda>r. - nodeCreatedAt r) (set ?older)" using assms(1) by (auto simp: inj_on_def)
    have "sorted (map nodeCreatedAt (sort_key nodeCreatedAt (sort_key (\<lambda>n. idstr (nodeID n)) ?older)))"
      by (rule sorted_sort_key)
    then show "sorted (map (\<lambda>r. - nodeCreatedAt r) (rev (sort_key nodeCreatedAt (sort_key (\<lambda>n. idstr (nodeID n)) ?older))))"
      by (simp add: sorted_wrt_map sorted_wrt_rev)
  qed simp
  moreover have "newest_first nodeCreatedAt ?older = drop k rows"
    using filter_past_index [OF newest_first_strict [OF assms(1,2)], of k] assms(3-5)
    by (simp add: newest_first_def filter_sort)
  ultimately show ?thesis
    using assms(3,6,7)
    by (simp add: ListNodes_def ListNodes_cursor_def sql_list_def page_def Let_def newest_first_def)
qed

theorem cursor_continues_listing_witness:
  "ListNodes_cursor (\<lambda>i. if i = 2 then ''b'' else ''a'') fk_conn None (5, ''b'') 10
     (empty_db\<lparr>dbNodes := [(sample_node 1)\<lparr>nodeCreatedAt := 4\<rparr>, (sample_node 2)\<lparr>nodeCreatedAt := 5\<rparr>]\<rparr>) =
   Inr ([(sample_node 1)\<lparr>nodeCreatedAt := 4\<rparr>], 2)"
proof -
  let ?a = "(sample_node 1)\<lparr>nodeCreatedAt := 4\<rparr>" and ?b = "(sample_node 2)\<lparr>nodeCreatedAt := 5\<rparr>"
  let ?d = "empty_db\<lparr>dbNodes := [?a, ?b]\<rparr>"
  have ns: "tenant_nodes None ?d = [?a, ?b]" by (simp add: tenant_nodes_def)
  have ab: "?a \<noteq> ?b" by (auto dest: arg_cong [of _ _ nodeCreatedAt])
  have rows: "newest_first nodeCreatedAt [?a, ?b] = [?b, ?a]" by (simp add: newest_first_def)
  have hyp: "inj_on nodeCreatedAt (set (tenant_nodes None ?d))" "distinct (tenant_nodes None ?d)"
    "[?b, ?a] = newest_first nodeCreatedAt (tenant_nodes None ?d)" "connErr fk_conn = None"
    using ab by (simp_all add: ns rows fk_conn_def)
  have "ListNodes_cursor (\<lambda>i. if i = 2 then ''b'' else ''a'') fk_conn None (5, ''b'') 10 ?d =
      Inr (take 10 (drop 1 [?b, ?a]), int (length [?b, ?a]))"
    using cursor_continues_listing [OF hyp(1-3), of 1 10 fk_conn "\<lambda>i. if i = 2 then ''b'' else ''a''"] hyp(4)
    by (simp add: sample_node_def)
  then show ?thesis by simp
qed

section \<open>Zone serials\<close>

text \<open>
  a zone's serial number counts by one and does not wrap.  On connections that
  work, incrementing the serial of a zone that reads with serial \<open>s\<close> makes it read with
  serial \<open>s + 1\<close>, all other zones unchanged; but the SQL column is wider than the Go
  field, so after the increment at \<open>2^32 - 1\<close> the zone can no longer be read.
\<close>

theorem IncrementDNSZoneSerial_reads:
  assumes "connErr c = None" "GetDNSZone c i d = Inr z"
    and "IncrementDNSZoneSerial c now i d = (res, d')"
  shows "res = Inr () \<and>
         (if zoneSerial z = - 1
          then GetDNSZone c i d' = Inl (Wrapf ''get dns zone'' (Errorf ''sql: Scan error: value out of range''))
          else GetDNSZone c i d' = Inr (z\<lparr>zoneSerial := zoneSerial z + 1, zoneUpdatedAt := now\<rparr>) \<and>
               unat (zoneSerial z + 1) = unat (zoneSerial z) + 1) \<and>
         (\<forall>j. j \<noteq> i \<longrightarrow> GetDNSZone c j d' = GetDNSZone c j d)"
proof -
  let ?f = "\<lambda>r :: DNSZone \<times> int. ((fst r)\<lparr>zoneUpdatedAt := now\<rparr>, snd r + 1)"
  obtain z0 s where row: "row_find (zoneID \<circ> fst) i (dbZones d) = Some (z0, s)"
    and z: "z = z0\<lparr>zoneSerial := word_of_int s\<rparr>" "0 \<le> s" "s < 2 ^ 32"
    using assms(1,2) by (auto simp: GetDNSZone_def sql_row_def scan_zone_def split: option.splits if_splits)
  have mem: "row_mem (zoneID \<circ> fst) i (dbZones d)"
    using row_find_SomeD [OF row] unfolding row_mem_iff by force
  have d': "res = Inr ()" "d' = d\<lparr>dbZones := row_update (zoneID \<circ> fst) i ?f (dbZones d)\<rparr>"
    using assms(1,3) mem by (simp_all add: IncrementDNSZoneSerial_def stmt_ok split: option.splits)
  have look: "row_find (zoneID \<circ> fst) j (dbZones d') =
      (if j = i then Some (z0\<lparr>zoneUpdatedAt := now\<rparr>, s + 1) else row_find (zoneID \<circ> fst) j (dbZones d))" for j
    unfolding d'(2) using row by (cases "j = i"; simp; subst row_find_update) auto
  have u: "uint (zoneSerial z) = s" using z by (simp add: uint_word_of_int)
  have top: "zoneSerial z = - 1 \<longleftrightarrow> s = 2 ^ 32 - 1"
    unfolding word_uint_eq_iff u by (simp add: unsigned_minus_1_eq_mask mask_eq_exp_minus_1)
  have others: "\<forall>j. j \<noteq> i \<longrightarrow> GetDNSZone c j d' = GetDNSZone c j d"
    using look by (simp add: GetDNSZone_def)
  have here: "GetDNSZone c i d' = scan_zone ''get dns zone'' (z0\<lparr>zoneUpdatedAt := now\<rparr>, s + 1)"
    using look [of i] assms(1) by (simp add: GetDNSZone_def sql_row_def)
  show ?thesis
  proof (cases "zoneSerial z = - 1")
    case True
    then show ?thesis using d'(1) others top by (simp add: here scan_zone_def)
  next
    case False
    then have "s + 1 < 2 ^ 32" using top z by linarith
    moreover have succ: "zoneSerial z + 1 = word_of_int (s + 1)" using z by simp
    ultimately have "uint (zoneSerial z + 1) = uint (zoneSerial z) + 1"
      using z(2) unfolding succ u uint_word_of_int by simp
    then have "unat (zoneSerial z + 1) = unat (zoneSerial z) + 1"
      using z(2) u by (simp add: unat_eq_nat_uint nat_add_distrib)
    moreover note succ \<open>s + 1 < 2 ^ 32\<close>
    ultimately show ?thesis using d'(1) others z False by (simp add: here scan_zone_def)
  qed
qed

definition sample_zone :: DNSZone where
  "sample_zone = \<lparr>zoneID = 3, zoneTenantID = 7, zoneName = ''example.com'', zoneStatus = DNSZoneActive, zoneSerial = 1,
     zoneTTL = 3600, zoneNodeGroupID = None, zoneTransferAllowedIPs = [], zoneCreatedAt = 0, zoneUpdatedAt = 0\<rparr>"

theorem IncrementDNSZoneSerial_reads_witness:
  "GetDNSZone fk_conn 3 (snd (IncrementDNSZoneSerial fk_conn 9 3 (empty_db\<lparr>dbZones := [(sample_zone, 4294967295)]\<rparr>))) =
     Inl (Wrapf ''get dns zone'' (Errorf ''sql: Scan error: value out of range''))"
proof -
  let ?d = "empty_db\<lparr>dbZones := [(sample_zone, 4294967295)]\<rparr>"
  have "GetDNSZone fk_conn 3 ?d = Inr (sample_zone\<lparr>zoneSerial := - 1\<rparr>)"
    by (simp add: GetDNSZone_def sql_row_def fk_conn_def scan_zone_def sample_zone_def)
  from IncrementDNSZoneSerial_reads [OF _ this prod.collapse [symmetric]] show ?thesis
    by (simp add: fk_conn_def)
qed

section \<open>Migrations\<close>

lemma Migrate_loop_done:
  assumes "\<forall>k < length ms. i + k + 1 \<in> set (msApplied st)"
  shows "Migrate_loop apply crash i ms st = (Inr (), st)"
  using assms
proof (induction ms arbitrary: i)
  case (Cons m ms)
  have "i + 1 \<in> set (msApplied st)" using Cons.prems by (metis add_0_right length_greater_0_conv list.distinct(1))
  moreover have "\<forall>k < length ms. (i + 1) + k + 1 \<in> set (msApplied st)"
    using Cons.prems by (metis Suc_less_eq add.assoc add.commute length_Cons plus_1_eq_Suc)
  ultimately show ?case using Cons.IH [of "i + 1"] by simp
qed simp

lemma Migrate_loop_ok:
  assumes "Migrate_loop apply crash i ms st = (Inr (), st')"
  shows "set (msApplied st') = set (msApplied st) \<union> {i + 1 .. i + length ms}"
  using assms
proof (induction ms arbitrary: i st)
  case (Cons m ms)
  have range: "{i + 1 .. i + length (m # ms)} = insert (i + 1) {(i + 1) + 1 .. (i + 1) + length ms}" by auto
  show ?case
  proof (cases "i + 1 \<in> set (msApplied st)")
    case True
    then have "Migrate_loop apply crash (i + 1) ms st = (Inr (), st')" using Cons.prems by simp
    then show ?thesis using Cons.IH [of "i + 1" st] True unfolding range by blast
  next
    case False
    then obtain s' where "Migrate_loop apply crash (i + 1) ms (st\<lparr>msSchema := s', msApplied := msApplied st @ [i + 1]\<rparr>) = (Inr (), st')"
      using Cons.prems by (auto simp: Let_def split: sum.splits if_splits)
    then show ?thesis using Cons.IH [of "i + 1" "st\<lparr>msSchema := s', msApplied := msApplied st @ [i + 1]\<rparr>"]
      unfolding range by simp
  qed
qed simp

text \<open>
  migrations run once.  After a run that succeeds every version is recorded, and any
  later run succeeds without touching the schema, whatever the statements would do.  But
  a migration and its record are two separate statements: when recording a version
  fails after a migration that cannot be applied twice (a column that already exists),
  every later run fails at that version and changes nothing.
\<close>

theorem Migrate_once:
  "(\<forall>st'. Migrate apply crash ms st = (Inr (), st') \<longrightarrow>
      {1 .. length ms} \<subseteq> set (msApplied st') \<and>
      (\<forall>apply' crash'. Migrate apply' crash' ms st' = (Inr (), st'))) \<and>
   (\<forall>m schema s' e crash'. apply m schema = Inr s' \<and> apply m s' = Inl e \<and> crash 1 \<longrightarrow>
      (case Migrate apply crash (m # ms) \<lparr>msSchema = schema, msApplied = []\<rparr> of
         (res, st') \<Rightarrow> \<not> is_ok res \<and> Migrate apply crash' (m # ms) st' = (Inl (Wrapf ''migration'' e), st')))"
proof -
  have "Migrate apply' crash' ms st' = (Inr (), st') \<and> {1 .. length ms} \<subseteq> set (msApplied st')"
    if "Migrate apply crash ms st = (Inr (), st')" for st' apply' crash'
  proof -
    have "{1 .. length ms} \<subseteq> set (msApplied st')"
      using Migrate_loop_ok [OF that [unfolded Migrate_def]] by auto
    moreover from this have "\<forall>k < length ms. 0 + k + 1 \<in> set (msApplied st')" by (simp add: subset_eq)
    ultimately show ?thesis using Migrate_loop_done [of ms 0 st' apply' crash'] by (simp add: Migrate_def)
  qed
  then show ?thesis by (auto simp: Migrate_def Let_def)
qed

text \<open>A migration that adds a column, on a schema that is its list of columns.\<close>

definition add_column :: "string \<Rightarrow> string list \<Rightarrow> string list result" where
  "add_column col cols = (if col \<in> set cols then Inl (Errorf ''duplicate column name'') else Inr (cols @ [col]))"

theorem Migrate_once_witness:
  "Migrate add_column (\<lambda>v. False) [''waf_mode'']
     (snd (Migrate add_column (\<lambda>v. True) [''waf_mode''] \<lparr>msSchema = [''id''], msApplied = []\<rparr>)) =
   (Inl (Wrapf ''migration'' (Errorf ''duplicate column name'')), \<lparr>msSchema = [''id'', ''waf_mode''], msApplied = []\<rparr>) \<and>
   (\<forall>apply'. Migrate apply' (\<lambda>v. False) [''waf_mode'']
     (snd (Migrate add_column (\<lambda>v. False) [''waf_mode''] \<lparr>msSchema = [''id''], msApplied = []\<rparr>)) =
     (Inr (), \<lparr>msSchema = [''id'', ''waf_mode''], msApplied = [1]\<rparr>))"
proof -
  have a: "add_column ''waf_mode'' [''id''] = Inr [''id'', ''waf_mode'']"
    "add_column ''waf_mode'' [''id'', ''waf_mode''] = Inl (Errorf ''duplicate column name'')"
    by (simp_all add: add_column_def)
  have r: "Migrate add_column (\<lambda>v. False) [''waf_mode''] \<lparr>msSchema = [''id''], msApplied = []\<rparr> =
      (Inr (), \<lparr>msSchema = [''id'', ''waf_mode''], msApplied = [1]\<rparr>)"
    by (simp add: Migrate_def a)
  have "Migrate add_column (\<lambda>v. True) [''waf_mode''] \<lparr>msSchema = [''id''], msApplied = []\<rparr> =
      (Inl (Errorf ''record schema version''), \<lparr>msSchema = [''id'', ''waf_mode''], msApplied = []\<rparr>)"
    by (simp add: Migrate_def a)
  then have "Migrate add_column (\<lambda>v. False) [''waf_mode'']
     (snd (Migrate add_column (\<lambda>v. True) [''waf_mode''] \<lparr>msSchema = [''id''], msApplied = []\<rparr>)) =
     (Inl (Wrapf ''migration'' (Errorf ''duplicate column name'')), \<lparr>msSchema = [''id'', ''waf_mode''], msApplied = []\<rparr>)"
    using Migrate_once [of add_column "\<lambda>v. True" "[]" "\<lparr>msSchema = [''id''], msApplied = []\<rparr>", THEN conjunct2, rule_format,
        of "''waf_mode''" "[''id'']" "[''id'', ''waf_mode'']" "Errorf ''duplicate column name''" "\<lambda>v. False"] a
    by simp
  moreover have "Migrate apply' (\<lambda>v. False) [''waf_mode'']
     (snd (Migrate add_column (\<lambda>v. False) [''waf_mode''] \<lparr>msSchema = [''id''], msApplied = []\<rparr>)) =
     (Inr (), \<lparr>msSchema = [''id'', ''waf_mode''], msApplied = [1]\<rparr>)" for apply'
    using Migrate_once [of add_column "\<lambda>v. False", THEN conjunct1, rule_format, OF r, THEN conjunct2, rule_format, of apply' "\<lambda>v. False"] r by simp
  ultimately show ?thesis by blast
qed

end
