(* ===== verification/EF_Provisioning.thy ===== *)
theory EF_Provisioning
  imports EF_Overlay EF_Schema
begin

text \<open>
  \<open>internal/provisioning\<close>: the pipelines of the lifecycle actions, their steps and the
  job that records them.

  What a step meets outside the process is its environment, a \<open>step_env\<close>: the outcome
  of each store call by its place in the code, the remote host (connection, command
  output, upload), the local binary, random bytes, fresh identifiers and the clock.
  \<open>secrets.Store\<close> and the generator of WireGuard configurations enter through the
  functions the provisioner calls.  A step mutates the node it was given and the
  database; the only step that may not return is the allocation of an overlay
  address, so a step's value is an \<open>option\<close>.
\<close>

section \<open>Pipelines\<close>

definition PipelineFor :: "ProvisioningAction \<Rightarrow> ProvisioningStep list" where
  "PipelineFor action = (case action of
     ProvisionActionEnroll \<Rightarrow>
       [StepValidateSSH, StepUploadBinary, StepWriteConfig, StepInstallSystemd, StepStartService,
        StepGenerateWGKeys, StepConfigureWireGuard, StepWaitEnrollment, StepVerifyOnline]
   | ProvisionActionUpgrade \<Rightarrow>
       [StepValidateSSH, StepBackupBinary, StepUploadBinary, StepStopService, StepAtomicSwap,
        StepStartService, StepVerifyOnline]
   | ProvisionActionStart \<Rightarrow> [StepSendCommand]
   | ProvisionActionStop \<Rightarrow> [StepSendCommand]
   | ProvisionActionRestart \<Rightarrow> [StepSendCommand]
   | ProvisionActionReprovision \<Rightarrow>
       [StepValidateSSH, StepUploadBinary, StepWriteConfig, StepInstallSystemd, StepStartService,
        StepGenerateWGKeys, StepConfigureWireGuard, StepWaitEnrollment, StepVerifyOnline]
   | ProvisionActionDecommission \<Rightarrow> [StepSendCommand, StepCleanup]
   | ProvisionActionOther _ \<Rightarrow> [])"

section \<open>The provisioner and its environment\<close>

record Target =
  tgtHost :: string
  tgtPort :: int
  tgtUser :: string
  tgtPrivateKey :: string

record DefaultProvisioner =
  pListenPort :: int
  pSubnet :: string
  pAddress :: string
  pIPv6Subnet :: string
  pIPv6Address :: string
  pExtURL :: string
  pBinaryPath :: string
  pHasConfigGen :: bool

record step_env =
  seDB :: "string \<Rightarrow> conn"
  seNow :: Time
  seDuration :: int
  seNewID :: ID
  seConnect :: "Target \<Rightarrow> unit result"
  seRun :: "string \<Rightarrow> string \<times> error option"
  seUpload :: "error option"
  seBinarySize :: "int result"
  seRandKey :: "8 word list result"
  seRandPSK :: "8 word list result"
  seRandToken :: "string result"
  seX25519 :: "8 word list \<Rightarrow> 8 word list result"
  seBase64 :: "8 word list \<Rightarrow> string"
  seEncrypt :: "string \<Rightarrow> string result"
  seDecrypt :: "string \<Rightarrow> string result"
  seWGConfig :: "string result"

text \<open>What a step returns to the pipeline: its output and its error, if any.\<close>

type_synonym step_out = "string \<times> error option"

definition step_fail :: "string \<Rightarrow> error \<Rightarrow> step_out" where
  "step_fail output e = (output, Some e)"

definition step_done :: "string \<Rightarrow> step_out" where
  "step_done output = (output, None)"

definition nl :: string where "nl = [CHR 0x0A]"

section \<open>Enrollment tokens and generated files\<close>

definition EnrollmentTokenTTL :: Duration where "EnrollmentTokenTTL = 1 * Hour"

definition GenerateEnrollmentToken :: "step_env \<Rightarrow> ID \<Rightarrow> ID \<Rightarrow> db \<Rightarrow> EnrollmentToken dbres" where
  "GenerateEnrollmentToken env tenant target d =
     (case seRandToken env of
        Inl e \<Rightarrow> (Inl (Wrapf ''generate token'' e), d)
      | Inr tokenStr \<Rightarrow>
          (let token = \<lparr>tokID = seNewID env, tokTenantID = tenant, tokTargetType = EnrollmentTargetNode,
                        tokTargetID = target, tokToken = tokenStr, tokExpiresAt = seNow env + EnrollmentTokenTTL,
                        tokUsedAt = None, tokCreatedAt = 0\<rparr>
           in case CreateEnrollmentToken (seDB env ''create token'') (seNow env) token d of
                (Inl e, d') \<Rightarrow> (Inl (Wrapf ''store enrollment token'' e), d')
              | (Inr t, d') \<Rightarrow> (Inr t, d')))"

definition GenerateNodeConfig :: "string \<Rightarrow> string \<Rightarrow> string \<Rightarrow> string" where
  "GenerateNodeConfig controllerAddr enrollmentToken dataDir =
     ''role: node'' @ nl @ ''log_level: info'' @ nl @ ''node:'' @ nl @
     ''  controller_addr: '' @ go_quote controllerAddr @ nl @
     ''  enrollment_token: '' @ go_quote enrollmentToken @ nl @
     ''  data_dir: '' @ go_quote dataDir @ nl"

definition GenerateSystemdUnit :: string where
  "GenerateSystemdUnit =
     Join [''[Unit]'', ''Description=EdgeFabric Agent'', ''After=network-online.target'', ''Wants=network-online.target'', '''',
           ''[Service]'', ''Type=simple'', ''ExecStart=/usr/local/bin/edgefabric --config /etc/edgefabric/config.yaml'',
           ''Restart=on-failure'', ''RestartSec=5'', ''LimitNOFILE=65535'', '''', ''[Install]'', ''WantedBy=multi-user.target''] nl"

section \<open>Steps\<close>

definition connectToNode :: "step_env \<Rightarrow> Node \<Rightarrow> db \<Rightarrow> Target result" where
  "connectToNode env n d =
     (case nodeSSHKeyID n of
        None \<Rightarrow> Inl (Errorf ''node has no SSH key assigned'')
      | Some kid \<Rightarrow>
          (case GetSSHKey (seDB env ''get ssh key'') kid d of
             Inl e \<Rightarrow> Inl (Wrapf ''get SSH key'' e)
           | Inr key \<Rightarrow>
               (case seDecrypt env (sshPrivateKey key) of
                  Inl e \<Rightarrow> Inl (Wrapf ''decrypt SSH private key'' e)
                | Inr privateKeyPEM \<Rightarrow>
                    (let target = \<lparr>tgtHost = nodePublicIP n, tgtPort = nodeSSHPort n, tgtUser = nodeSSHUser n,
                                   tgtPrivateKey = privateKeyPEM\<rparr>
                     in case seConnect env target of
                          Inl e \<Rightarrow> Inl (Wrapf ''SSH connect'' e)
                        | Inr _ \<Rightarrow> Inr target))))"

text \<open>A step that connects and then uses the session.\<close>

definition with_session :: "step_env \<Rightarrow> Node \<Rightarrow> db \<Rightarrow> step_out \<Rightarrow> step_out" where
  "with_session env n d body = (case connectToNode env n d of Inl e \<Rightarrow> step_fail '''' e | Inr _ \<Rightarrow> body)"

text \<open>\<open>output, err := session.Run(cmd)\<close>; an error is returned with the output.\<close>

definition run_cmd :: "step_env \<Rightarrow> string \<Rightarrow> string \<Rightarrow> (string \<Rightarrow> step_out) \<Rightarrow> step_out" where
  "run_cmd env label cmd k =
     (case seRun env cmd of
        (output, Some e) \<Rightarrow> step_fail output (Wrapf label e)
      | (output, None) \<Rightarrow> k output)"

definition stepValidateSSH :: "step_env \<Rightarrow> Node \<Rightarrow> db \<Rightarrow> step_out" where
  "stepValidateSSH env n d = with_session env n d
     (run_cmd env ''SSH validation failed'' ''echo edgefabric-ssh-ok && uname -a'' (\<lambda>output.
        if \<not> Contains output ''edgefabric-ssh-ok'' then step_fail output (Errorf ''SSH validation: unexpected output'')
        else step_done output))"

definition remoteBinaryPath :: string where "remoteBinaryPath = ''/usr/local/bin/edgefabric''"
definition remoteBinaryStaging :: string where "remoteBinaryStaging = ''/usr/local/bin/edgefabric.new''"
definition remoteBinaryBackup :: string where "remoteBinaryBackup = ''/usr/local/bin/edgefabric.bak''"

definition stepUploadBinary :: "step_env \<Rightarrow> DefaultProvisioner \<Rightarrow> Node \<Rightarrow> db \<Rightarrow> step_out" where
  "stepUploadBinary env p n d =
     (if pBinaryPath p = '''' then step_fail '''' (Errorf ''binary_path not configured on provisioner'')
      else (case seBinarySize env of
              Inl e \<Rightarrow> step_fail '''' (Wrapf (''open binary '' @ pBinaryPath p) e)
            | Inr sz \<Rightarrow> with_session env n d
                (run_cmd env ''create /usr/local/bin'' ''mkdir -p /usr/local/bin'' (\<lambda>_.
                   case seUpload env of
                     Some e \<Rightarrow> step_fail '''' (Wrapf ''upload binary via SCP'' e)
                   | None \<Rightarrow> step_done (''binary uploaded to '' @ remoteBinaryStaging @ '' ('' @ itoa sz @ '' bytes)'')))))"

definition stepBackupBinary :: "step_env \<Rightarrow> Node \<Rightarrow> db \<Rightarrow> step_out" where
  "stepBackupBinary env n d = with_session env n d
     (run_cmd env ''backup binary''
        (''if [ -f '' @ remoteBinaryPath @ '' ]; then cp '' @ remoteBinaryPath @ '' '' @ remoteBinaryBackup @
         '' && echo backed-up; else echo no-existing-binary; fi'') step_done)"

definition stepAtomicSwap :: "step_env \<Rightarrow> Node \<Rightarrow> db \<Rightarrow> step_out" where
  "stepAtomicSwap env n d = with_session env n d
     (run_cmd env ''atomic swap'' (''mv '' @ remoteBinaryStaging @ '' '' @ remoteBinaryPath)
        (\<lambda>_. step_done ''binary swapped atomically''))"

definition stepRollback :: "step_env \<Rightarrow> Node \<Rightarrow> db \<Rightarrow> step_out" where
  "stepRollback env n d = with_session env n d
     (run_cmd env ''rollback''
        (''if [ -f '' @ remoteBinaryBackup @ '' ]; then mv '' @ remoteBinaryBackup @ '' '' @ remoteBinaryPath @
         '' && systemctl restart edgefabric && echo rolled-back; else echo no-backup-available; fi'') step_done)"

definition stepWriteConfig :: "step_env \<Rightarrow> DefaultProvisioner \<Rightarrow> Node \<Rightarrow> db \<Rightarrow> step_out \<times> db" where
  "stepWriteConfig env p n d =
     (case connectToNode env n d of
        Inl e \<Rightarrow> (step_fail '''' e, d)
      | Inr _ \<Rightarrow>
          (let tenant = (case nodeTenantID n of Some t \<Rightarrow> t | None \<Rightarrow> ZeroID)
           in case GenerateEnrollmentToken env tenant (nodeID n) d of
                (Inl e, d') \<Rightarrow> (step_fail '''' (Wrapf ''generate enrollment token'' e), d')
              | (Inr token, d') \<Rightarrow>
                  (let cfg = GenerateNodeConfig (pExtURL p) (tokToken token) ''/var/lib/edgefabric'';
                       cmd = ''mkdir -p /etc/edgefabric && cat > /etc/edgefabric/config.yaml << '' @ [CHR 0x27] @ ''EFCONFIG'' @
                             [CHR 0x27] @ nl @ cfg @ nl @ ''EFCONFIG''
                   in (run_cmd env ''write config'' cmd (\<lambda>_. step_done ''config written to /etc/edgefabric/config.yaml''), d'))))"

definition stepInstallSystemd :: "step_env \<Rightarrow> Node \<Rightarrow> db \<Rightarrow> step_out" where
  "stepInstallSystemd env n d = with_session env n d
     (run_cmd env ''install systemd unit''
        (''cat > /etc/systemd/system/edgefabric.service << '' @ [CHR 0x27] @ ''EFUNIT'' @ [CHR 0x27] @ nl @
         GenerateSystemdUnit @ nl @ ''EFUNIT'' @ nl @ ''systemctl daemon-reload && systemctl enable edgefabric'')
        (\<lambda>_. step_done ''systemd unit installed and enabled''))"

definition stepStartService :: "step_env \<Rightarrow> Node \<Rightarrow> db \<Rightarrow> step_out" where
  "stepStartService env n d = with_session env n d
     (run_cmd env ''start service'' ''systemctl start edgefabric'' (\<lambda>_. step_done ''edgefabric service started''))"

definition stepStopService :: "step_env \<Rightarrow> Node \<Rightarrow> db \<Rightarrow> step_out" where
  "stepStopService env n d = with_session env n d
     (run_cmd env ''stop service'' ''systemctl stop edgefabric'' (\<lambda>_. step_done ''edgefabric service stopped''))"

text \<open>The peer record of a node and the addresses in it.\<close>

definition new_peer :: "step_env \<Rightarrow> DefaultProvisioner \<Rightarrow> Node \<Rightarrow> WireGuardKeyPair \<Rightarrow> string \<Rightarrow> string \<Rightarrow> string list \<Rightarrow> WireGuardPeer" where
  "new_peer env p n kp encPriv encPSK allowedIPs =
     \<lparr>peerID = seNewID env, peerOwnerType = PeerOwnerNode, peerOwnerID = nodeID n, peerPublicKey = kpPublicKey kp,
      peerPrivateKey = encPriv, peerPresharedKey = encPSK, peerAllowedIPs = allowedIPs,
      peerEndpoint = nodePublicIP n @ '':'' @ itoa (pListenPort p), peerLastRotatedAt = 0, peerCreatedAt = 0, peerUpdatedAt = 0\<rparr>"

text \<open>
  The part that \<open>stepGenerateWGKeys\<close> and \<open>CompleteEnrollment\<close> share: keys, their
  encryption, the two listings, the overlay addresses.  The result is the peer, the
  IPv4 address and the IPv6 address (empty when not configured).
\<close>

definition listAll :: ListParams where "listAll = \<lparr>lpOffset = 0, lpLimit = 10000\<rparr>"

definition allocate_addresses ::
  "DefaultProvisioner \<Rightarrow> WireGuardPeer list \<Rightarrow> Node list \<Rightarrow> (string \<times> string) result option" where
  "allocate_addresses p peers nodes =
     (case AllocateOverlayIP (pSubnet p) (pAddress p) peers nodes of
        None \<Rightarrow> None
      | Some (Inl e) \<Rightarrow> Some (Inl (Wrapf ''allocate overlay IP'' e))
      | Some (Inr overlayIP) \<Rightarrow>
          if pIPv6Subnet p \<noteq> '''' then
            (case AllocateOverlayIP (pIPv6Subnet p) (pIPv6Address p) peers nodes of
               None \<Rightarrow> None
             | Some (Inl e) \<Rightarrow> Some (Inl (Wrapf ''allocate overlay IPv6'' e))
             | Some (Inr overlayIPv6) \<Rightarrow> Some (Inr (overlayIP, overlayIPv6)))
          else Some (Inr (overlayIP, '''')))"

definition prepare_peer ::
  "step_env \<Rightarrow> DefaultProvisioner \<Rightarrow> Node \<Rightarrow> db \<Rightarrow> (WireGuardPeer \<times> string \<times> string) result option" where
  "prepare_peer env p n d =
     (case GenerateWireGuardKeyPair (seRandKey env) (seX25519 env) (seBase64 env) of
        Inl e \<Rightarrow> Some (Inl (Wrapf ''generate WG key pair'' e))
      | Inr kp \<Rightarrow>
     (case GeneratePresharedKey (seRandPSK env) (seBase64 env) of
        Inl e \<Rightarrow> Some (Inl (Wrapf ''generate preshared key'' e))
      | Inr psk \<Rightarrow>
     (case seEncrypt env (kpPrivateKey kp) of
        Inl e \<Rightarrow> Some (Inl (Wrapf ''encrypt WG private key'' e))
      | Inr encPriv \<Rightarrow>
     (case seEncrypt env psk of
        Inl e \<Rightarrow> Some (Inl (Wrapf ''encrypt preshared key'' e))
      | Inr encPSK \<Rightarrow>
     (case ListWireGuardPeers (seDB env ''list peers'') listAll d of
        Inl e \<Rightarrow> Some (Inl (Wrapf ''list WG peers'' e))
      | Inr (peers, _) \<Rightarrow>
     (case ListNodes (seDB env ''list nodes'') None listAll d of
        Inl e \<Rightarrow> Some (Inl (Wrapf ''list nodes'' e))
      | Inr (nodes, _) \<Rightarrow>
     (case allocate_addresses p peers nodes of
        None \<Rightarrow> None
      | Some (Inl e) \<Rightarrow> Some (Inl e)
      | Some (Inr (ip, ip6)) \<Rightarrow>
          Some (Inr (new_peer env p n kp encPriv encPSK
                       ((ip @ ''/32'') # (if pIPv6Subnet p \<noteq> '''' then [ip6 @ ''/128''] else [])), ip, ip6)))))))))"

definition stepGenerateWGKeys ::
  "step_env \<Rightarrow> DefaultProvisioner \<Rightarrow> Node \<Rightarrow> db \<Rightarrow> (step_out \<times> Node \<times> db) option" where
  "stepGenerateWGKeys env p n d =
     (case prepare_peer env p n d of
        None \<Rightarrow> None
      | Some (Inl e) \<Rightarrow> Some (step_fail '''' e, n, d)
      | Some (Inr (peer, ip, ip6)) \<Rightarrow>
          (case CreateWireGuardPeer (seDB env ''create peer'') (seNow env) peer d of
             (Inl e, d') \<Rightarrow> Some (step_fail '''' (Wrapf ''create WG peer'' e), n, d')
           | (Inr _, d') \<Rightarrow>
               (let n' = n\<lparr>nodeWireGuardIP := ip\<rparr>;
                    n' = (if ip6 \<noteq> '''' then n'\<lparr>nodeWireGuardIPv6 := ip6\<rparr> else n')
                in case UpdateNode (seDB env ''update node'') (seNow env) n' d' of
                     (Inl e, d'') \<Rightarrow> Some (step_fail '''' (Wrapf ''update node overlay IP'' e), n', d'')
                   | (Inr n'', d'') \<Rightarrow>
                       Some (step_done (''WG keys generated, overlay IP '' @ ip @ '' assigned''), n'', d''))))"

definition stepConfigureWireGuard :: "step_env \<Rightarrow> DefaultProvisioner \<Rightarrow> Node \<Rightarrow> db \<Rightarrow> step_out" where
  "stepConfigureWireGuard env p n d =
     (if \<not> pHasConfigGen p then step_done ''wireguard config sync skipped (config generator not configured)''
      else (case seWGConfig env of
              Inl e \<Rightarrow> step_fail '''' (Wrapf ''generate WG config'' e)
            | Inr wgConf \<Rightarrow> with_session env n d
                (run_cmd env ''write wg0.conf''
                   (''mkdir -p /etc/wireguard && cat > /etc/wireguard/wg0.conf << '' @ [CHR 0x27] @ ''WGCONF'' @ [CHR 0x27] @ nl @
                    wgConf @ nl @ ''WGCONF'')
                   (\<lambda>_. run_cmd env ''wg-quick up'' ''wg-quick down wg0 2>/dev/null; wg-quick up wg0''
                          (\<lambda>_. step_done ''wireguard config written and interface started'')))))"

definition stepWaitEnrollment :: step_out where
  "stepWaitEnrollment = step_done ''enrollment acknowledged (v1: auto-complete)''"

definition stepVerifyOnline :: "step_env \<Rightarrow> Node \<Rightarrow> db \<Rightarrow> step_out" where
  "stepVerifyOnline env n d = with_session env n d
     (run_cmd env ''service not active'' ''systemctl is-active edgefabric'' (\<lambda>output.
        if \<not> Contains output ''active'' then step_fail output (Errorf (''service status: '' @ output))
        else step_done ''edgefabric service verified active''))"

definition stepSendCommand :: "step_env \<Rightarrow> ProvisioningAction \<Rightarrow> Node \<Rightarrow> db \<Rightarrow> step_out" where
  "stepSendCommand env action n d = with_session env n d
     (let cmd = (case action of
                   ProvisionActionStart \<Rightarrow> ''systemctl start edgefabric''
                 | ProvisionActionStop \<Rightarrow> ''systemctl stop edgefabric''
                 | ProvisionActionDecommission \<Rightarrow> ''systemctl stop edgefabric''
                 | ProvisionActionRestart \<Rightarrow> ''systemctl restart edgefabric''
                 | ProvisionActionUpgrade \<Rightarrow> ''systemctl restart edgefabric''
                 | _ \<Rightarrow> ''systemctl status edgefabric'')
      in run_cmd env (''send command '' @ go_quote cmd) cmd (\<lambda>_. step_done (''command '' @ go_quote cmd @ '' executed'')))"

definition cleanup_cmds :: "string list" where
  "cleanup_cmds =
     [''systemctl disable edgefabric 2>/dev/null || true'', ''rm -f /etc/systemd/system/edgefabric.service'',
      ''systemctl daemon-reload'', ''rm -f /usr/local/bin/edgefabric'', ''rm -rf /etc/edgefabric'', ''rm -rf /var/lib/edgefabric'']"

definition stepCleanup :: "step_env \<Rightarrow> Node \<Rightarrow> db \<Rightarrow> step_out \<times> db" where
  "stepCleanup env n d =
     (case with_session env n d (run_cmd env ''cleanup'' (Join cleanup_cmds '' && '') step_done) of
        (output, Some e) \<Rightarrow> (step_fail output e, d)
      | (_, None) \<Rightarrow>
          (case GetWireGuardPeerByOwner (seDB env ''get peer'') PeerOwnerNode (nodeID n) d of
             Inl _ \<Rightarrow> (step_done ''node cleaned up and decommissioned'', d)
           | Inr peer \<Rightarrow> (step_done ''node cleaned up and decommissioned'',
                          snd (DeleteWireGuardPeer (seDB env ''delete peer'') (peerID peer) d))))"

definition executeStep ::
  "step_env \<Rightarrow> DefaultProvisioner \<Rightarrow> ProvisioningStep \<Rightarrow> ProvisioningAction \<Rightarrow> Node \<Rightarrow> db
   \<Rightarrow> (step_out \<times> Node \<times> db) option" where
  "executeStep env p step action n d = (case step of
     StepValidateSSH \<Rightarrow> Some (stepValidateSSH env n d, n, d)
   | StepUploadBinary \<Rightarrow> Some (stepUploadBinary env p n d, n, d)
   | StepWriteConfig \<Rightarrow> (case stepWriteConfig env p n d of (r, d') \<Rightarrow> Some (r, n, d'))
   | StepInstallSystemd \<Rightarrow> Some (stepInstallSystemd env n d, n, d)
   | StepStartService \<Rightarrow> Some (stepStartService env n d, n, d)
   | StepGenerateWGKeys \<Rightarrow> stepGenerateWGKeys env p n d
   | StepConfigureWireGuard \<Rightarrow> Some (stepConfigureWireGuard env p n d, n, d)
   | StepWaitEnrollment \<Rightarrow> Some (stepWaitEnrollment, n, d)
   | StepVerifyOnline \<Rightarrow> Some (stepVerifyOnline env n d, n, d)
   | StepStopService \<Rightarrow> Some (stepStopService env n d, n, d)
   | StepSendCommand \<Rightarrow> Some (stepSendCommand env action n d, n, d)
   | StepCleanup \<Rightarrow> (case stepCleanup env n d of (r, d') \<Rightarrow> Some (r, n, d'))
   | StepBackupBinary \<Rightarrow> Some (stepBackupBinary env n d, n, d)
   | StepAtomicSwap \<Rightarrow> Some (stepAtomicSwap env n d, n, d)
   | StepRollback \<Rightarrow> Some (stepRollback env n d, n, d)
   | StepOther s \<Rightarrow> Some (step_fail '''' (Errorf (''unknown step: '' @ s)), n, d))"

section \<open>The pipeline\<close>

fun shouldRollback_loop :: "bool \<Rightarrow> ProvisioningStep \<Rightarrow> ProvisioningStep list \<Rightarrow> bool" where
  "shouldRollback_loop backupSeen failedStep [] = False"
| "shouldRollback_loop backupSeen failedStep (s # ss) =
     (let backupSeen = (s = StepBackupBinary \<or> backupSeen)
      in if s = failedStep then backupSeen else shouldRollback_loop backupSeen failedStep ss)"

definition shouldRollback :: "ProvisioningStep list \<Rightarrow> ProvisioningStep \<Rightarrow> bool" where
  "shouldRollback ss failedStep = shouldRollback_loop False failedStep ss"

text \<open>
  The message of an error.  For an error made with \<open>%w: ...\<close> the sentinel comes after
  the detail here, where the source puts it first.
\<close>

fun error_string :: "error \<Rightarrow> string" where
  "error_string ErrNotFound = ''not found''"
| "error_string ErrAlreadyExists = ''already exists''"
| "error_string ErrConflict = ''conflict''"
| "error_string ErrValidation = ''validation error''"
| "error_string (Errorf s) = s"
| "error_string (Wrapf s e) = s @ '': '' @ error_string e"

definition step_result :: "step_env \<Rightarrow> ProvisioningStep \<Rightarrow> step_out \<Rightarrow> StepResult" where
  "step_result env step out =
     (case out of (output, err) \<Rightarrow>
        \<lparr>srStep = step, srStatus = (if err = None then ''success'' else ''failed''), srOutput = output,
         srError = (case err of None \<Rightarrow> '''' | Some e \<Rightarrow> error_string e), srStartedAt = seNow env,
         srDurationMs = seDuration env\<rparr>)"

definition step_name :: "ProvisioningStep \<Rightarrow> string" where
  "step_name s = (case s of
     StepValidateSSH \<Rightarrow> ''validate_ssh'' | StepUploadBinary \<Rightarrow> ''upload_binary'' | StepWriteConfig \<Rightarrow> ''write_config''
   | StepInstallSystemd \<Rightarrow> ''install_systemd'' | StepStartService \<Rightarrow> ''start_service''
   | StepGenerateWGKeys \<Rightarrow> ''generate_wg_keys'' | StepConfigureWireGuard \<Rightarrow> ''configure_wireguard''
   | StepWaitEnrollment \<Rightarrow> ''wait_enrollment'' | StepVerifyOnline \<Rightarrow> ''verify_online''
   | StepStopService \<Rightarrow> ''stop_service'' | StepCleanup \<Rightarrow> ''cleanup'' | StepSendCommand \<Rightarrow> ''send_command''
   | StepBackupBinary \<Rightarrow> ''backup_binary'' | StepAtomicSwap \<Rightarrow> ''atomic_swap'' | StepRollback \<Rightarrow> ''rollback''
   | StepOther s \<Rightarrow> s)"

text \<open>\<open>_ = p.jobs.UpdateProvisioningJob(ctx, job)\<close> and \<open>_ = p.nodes.UpdateNode(ctx, node)\<close>.\<close>

definition save_job :: "step_env \<Rightarrow> string \<Rightarrow> ProvisioningJob \<Rightarrow> db \<Rightarrow> db" where
  "save_job env at j d = snd (UpdateProvisioningJob (seDB env at) (seNow env) j d)"

definition save_node :: "step_env \<Rightarrow> string \<Rightarrow> Node \<Rightarrow> db \<Rightarrow> db" where
  "save_node env at n d = snd (UpdateNode (seDB env at) (seNow env) n d)"

definition updateNodeStatusAfterCompletion :: "step_env \<Rightarrow> Node \<Rightarrow> ProvisioningAction \<Rightarrow> db \<Rightarrow> db" where
  "updateNodeStatusAfterCompletion env n action d =
     save_node env ''node completed''
       (case action of
          ProvisionActionEnroll \<Rightarrow> n\<lparr>nodeStatus := NodeStatusOnline\<rparr>
        | ProvisionActionStart \<Rightarrow> n\<lparr>nodeStatus := NodeStatusOnline\<rparr>
        | ProvisionActionRestart \<Rightarrow> n\<lparr>nodeStatus := NodeStatusOnline\<rparr>
        | ProvisionActionUpgrade \<Rightarrow> n\<lparr>nodeStatus := NodeStatusOnline\<rparr>
        | ProvisionActionReprovision \<Rightarrow> n\<lparr>nodeStatus := NodeStatusOnline\<rparr>
        | ProvisionActionStop \<Rightarrow> n\<lparr>nodeStatus := NodeStatusOffline\<rparr>
        | ProvisionActionDecommission \<Rightarrow> n\<lparr>nodeStatus := NodeStatusDecommissioned\<rparr>
        | ProvisionActionOther _ \<Rightarrow> n) d"

text \<open>
  The branch for a failed step: rollback (in the environment \<open>rb\<close> it meets), the failed
  job, the node's error state.
\<close>

definition pipeline_failed ::
  "step_env \<Rightarrow> step_env \<Rightarrow> ProvisioningStep list \<Rightarrow> ProvisioningStep \<Rightarrow> error \<Rightarrow> StepResult list \<Rightarrow> ProvisioningJob
   \<Rightarrow> Node \<Rightarrow> db \<Rightarrow> db" where
  "pipeline_failed env rb ss step err results job n d =
     (let results = (if jobAction job = ProvisionActionUpgrade \<and> shouldRollback ss step
                     then results @ [step_result rb StepRollback (stepRollback rb n d)] else results);
          job = job\<lparr>jobStatus := ProvisionStatusFailed,
                    jobError := ''step '' @ step_name step @ '' failed: '' @ error_string err,
                    jobCompletedAt := Some (seNow env), jobSteps := results\<rparr>;
          d = save_job env ''job failed'' job d
      in if jobAction job = ProvisionActionEnroll then save_node env ''node failed'' (n\<lparr>nodeStatus := NodeStatusError\<rparr>) d
         else d)"

text \<open>
  The loop over the steps: \<open>ss\<close> is the whole pipeline, \<open>env k\<close> the environment of the
  \<open>k\<close>-th step; the environment after the last one is that of the closing updates.
\<close>

fun pipeline_loop ::
  "(nat \<Rightarrow> step_env) \<Rightarrow> step_env \<Rightarrow> DefaultProvisioner \<Rightarrow> ProvisioningStep list \<Rightarrow> nat \<Rightarrow> ProvisioningStep list
   \<Rightarrow> StepResult list \<Rightarrow> ProvisioningJob \<Rightarrow> Node \<Rightarrow> db \<Rightarrow> db option" where
  "pipeline_loop env rb p ss k [] results job n d =
     (let job = job\<lparr>jobStatus := ProvisionStatusCompleted, jobCompletedAt := Some (seNow (env k)), jobSteps := results\<rparr>;
          d = save_job (env k) ''job completed'' job d
      in Some (updateNodeStatusAfterCompletion (env k) n (jobAction job) d))"
| "pipeline_loop env rb p ss k (step # rest) results job n d =
     (let job = job\<lparr>jobCurrentStep := step, jobSteps := results\<rparr>;
          d = save_job (env k) ''job step'' job d
      in case executeStep (env k) p step (jobAction job) n d of
           None \<Rightarrow> None
         | Some (out, n', d') \<Rightarrow>
             (let results = results @ [step_result (env k) step out]
              in case snd out of
                   Some err \<Rightarrow> Some (pipeline_failed (env k) rb ss step err results job n' d')
                 | None \<Rightarrow> pipeline_loop env rb p ss (k + 1) rest results job n' d'))"

definition runPipeline ::
  "step_env \<Rightarrow> (nat \<Rightarrow> step_env) \<Rightarrow> step_env \<Rightarrow> DefaultProvisioner \<Rightarrow> ProvisioningJob \<Rightarrow> Node \<Rightarrow> ProvisioningStep list \<Rightarrow> db \<Rightarrow> db option" where
  "runPipeline env0 env rb p job n ss d =
     (let job = job\<lparr>jobStatus := ProvisionStatusRunning, jobStartedAt := Some (seNow env0)\<rparr>;
          d = save_job env0 ''job running'' job d
      in if jobAction job = ProvisionActionEnroll
         then (let n = n\<lparr>nodeStatus := NodeStatusEnrolling\<rparr>
               in pipeline_loop env rb p ss 0 ss [] job n (save_node env0 ''node enrolling'' n d))
         else pipeline_loop env rb p ss 0 ss [] job n d)"

section \<open>Starting an action\<close>

text \<open>
  \<open>startAction\<close> up to the creation of the job: the checks, which only read, and the
  insert.  The pipeline then runs in a goroutine of its own on the job and the node
  that were read.
\<close>

definition startAction_check :: "step_env \<Rightarrow> ID \<Rightarrow> ProvisioningAction \<Rightarrow> db \<Rightarrow> Node result" where
  "startAction_check env nid action d =
     (case GetNode (seDB env ''get node'') nid d of
        Inl e \<Rightarrow> Inl (Wrapf ''get node'' e)
      | Inr n \<Rightarrow>
          if \<not> IsValidTransition action (nodeStatus n) then Inl (Wrapf ''cannot run action in this state'' ErrConflict)
          else (case GetActiveProvisioningJob (seDB env ''active job'') nid d of
                  Inr _ \<Rightarrow> Inl (Wrapf ''node already has an active provisioning job'' ErrConflict)
                | Inl e \<Rightarrow> if e \<noteq> ErrNotFound then Inl (Wrapf ''check active job'' e) else Inr n))"

definition new_job :: "step_env \<Rightarrow> ID \<Rightarrow> ID \<Rightarrow> ProvisioningAction \<Rightarrow> Node \<Rightarrow> ProvisioningJob" where
  "new_job env nid initiatedBy action n =
     (let pipeline = PipelineFor action;
          firstStep = (case pipeline of [] \<Rightarrow> StepOther '''' | s # _ \<Rightarrow> s)
      in \<lparr>jobID = seNewID env, jobNodeID = nid, jobTenantID = nodeTenantID n, jobAction = action,
          jobStatus = ProvisionStatusPending, jobCurrentStep = firstStep, jobSteps = [], jobError = '''',
          jobInitiatedBy = initiatedBy, jobStartedAt = None, jobCompletedAt = None, jobCreatedAt = 0, jobUpdatedAt = 0\<rparr>)"

definition startAction_create :: "step_env \<Rightarrow> ID \<Rightarrow> ID \<Rightarrow> ProvisioningAction \<Rightarrow> Node \<Rightarrow> db \<Rightarrow> ProvisioningJob dbres" where
  "startAction_create env nid initiatedBy action n d =
     (case CreateProvisioningJob (seDB env ''create job'') (seNow env) (new_job env nid initiatedBy action n) d of
        (Inl e, d') \<Rightarrow> (Inl (Wrapf ''create job'' e), d')
      | (Inr j, d') \<Rightarrow> (Inr j, d'))"

definition startAction :: "step_env \<Rightarrow> ID \<Rightarrow> ID \<Rightarrow> ProvisioningAction \<Rightarrow> db \<Rightarrow> (ProvisioningJob \<times> Node) dbres" where
  "startAction env nid initiatedBy action d =
     (case startAction_check env nid action d of
        Inl e \<Rightarrow> (Inl e, d)
      | Inr n \<Rightarrow>
          (case startAction_create env nid initiatedBy action n d of
             (Inl e, d') \<Rightarrow> (Inl e, d')
           | (Inr job, d') \<Rightarrow> (Inr (job, n), d')))"

definition EnrollNode :: "step_env \<Rightarrow> ID \<Rightarrow> ID \<Rightarrow> db \<Rightarrow> (ProvisioningJob \<times> Node) dbres" where
  "EnrollNode env nid who d = startAction env nid who ProvisionActionEnroll d"
definition StartNode :: "step_env \<Rightarrow> ID \<Rightarrow> ID \<Rightarrow> db \<Rightarrow> (ProvisioningJob \<times> Node) dbres" where
  "StartNode env nid who d = startAction env nid who ProvisionActionStart d"
definition StopNode :: "step_env \<Rightarrow> ID \<Rightarrow> ID \<Rightarrow> db \<Rightarrow> (ProvisioningJob \<times> Node) dbres" where
  "StopNode env nid who d = startAction env nid who ProvisionActionStop d"
definition RestartNode :: "step_env \<Rightarrow> ID \<Rightarrow> ID \<Rightarrow> db \<Rightarrow> (ProvisioningJob \<times> Node) dbres" where
  "RestartNode env nid who d = startAction env nid who ProvisionActionRestart d"
definition UpgradeNode :: "step_env \<Rightarrow> ID \<Rightarrow> ID \<Rightarrow> db \<Rightarrow> (ProvisioningJob \<times> Node) dbres" where
  "UpgradeNode env nid who d = startAction env nid who ProvisionActionUpgrade d"
definition ReprovisionNode :: "step_env \<Rightarrow> ID \<Rightarrow> ID \<Rightarrow> db \<Rightarrow> (ProvisioningJob \<times> Node) dbres" where
  "ReprovisionNode env nid who d = startAction env nid who ProvisionActionReprovision d"
definition DecommissionNode :: "step_env \<Rightarrow> ID \<Rightarrow> ID \<Rightarrow> db \<Rightarrow> (ProvisioningJob \<times> Node) dbres" where
  "DecommissionNode env nid who d = startAction env nid who ProvisionActionDecommission d"

section \<open>Starting: guards, the job, the race\<close>

definition active_jobs :: "ID \<Rightarrow> db \<Rightarrow> ProvisioningJob list" where
  "active_jobs nid d = filter (\<lambda>j. jobNodeID j = nid \<and> active_job j) (dbJobs d)"

lemma newest_first_Nil [simp]: "newest_first at xs = [] \<longleftrightarrow> xs = []"
  unfolding newest_first_def by (metis length_0_conv length_sort)

lemma startAction_check_ok:
  assumes "startAction_check env nid action d = Inr n"
  shows "row_find nodeID nid (dbNodes d) = Some n" "IsValidTransition action (nodeStatus n)" "active_jobs nid d = []"
  using assms
  by (auto simp: startAction_check_def GetNode_def GetActiveProvisioningJob_def sql_row_def active_jobs_def
      split: sum.splits if_splits option.splits list.splits)

lemma new_job_defaults [simp]:
  "job_defaults now (new_job env nid who action n) =
     (new_job env nid who action n)\<lparr>jobCreatedAt := now, jobUpdatedAt := now\<rparr>"
  by (simp add: job_defaults_def new_job_def Let_def)

lemma new_job_sel [simp]:
  "jobID (new_job env nid who action n) = seNewID env" "jobNodeID (new_job env nid who action n) = nid"
  "jobAction (new_job env nid who action n) = action" "jobStatus (new_job env nid who action n) = ProvisionStatusPending"
  "jobTenantID (new_job env nid who action n) = nodeTenantID n"
  by (simp_all add: new_job_def Let_def)


lemma startAction_create_cases:
  obtains (fail) e where "startAction_create env nid who action n d = (Inl e, d)"
  | (ok) job where "startAction_create env nid who action n d = (Inr job, d\<lparr>dbJobs := dbJobs d @ [job]\<rparr>)"
      "jobID job = seNewID env" "jobNodeID job = nid" "jobAction job = action" "jobStatus job = ProvisionStatusPending"
      "seNewID env \<notin> jobID ` set (dbJobs d)"
proof (cases "sql_exec (seDB env ''create job'') (\<not> row_mem jobID (seNewID env) (dbJobs d))
    (row_mem nodeID nid (dbNodes d) \<and> ref_opt tenantID (nodeTenantID n) (dbTenants d))")
  case None
  let ?job = "(new_job env nid who action n)\<lparr>jobCreatedAt := seNow env, jobUpdatedAt := seNow env\<rparr>"
  have "CreateProvisioningJob (seDB env ''create job'') (seNow env) (new_job env nid who action n) d =
      (Inr ?job, d\<lparr>dbJobs := dbJobs d @ [?job]\<rparr>)"
    unfolding CreateProvisioningJob_def Let_def new_job_defaults
    by (simp add: None del: sql_exec_None_iff)
  then have "startAction_create env nid who action n d = (Inr ?job, d\<lparr>dbJobs := dbJobs d @ [?job]\<rparr>)"
    by (simp add: startAction_create_def)
  moreover have "seNewID env \<notin> jobID ` set (dbJobs d)" using None by (simp add: row_mem_iff)
  ultimately show ?thesis by (intro ok [of ?job]) simp_all
next
  case (Some f)
  then show ?thesis
    by (intro fail) (simp add: startAction_create_def CreateProvisioningJob_def Let_def)
qed

text \<open>
  C18: An action that starts was allowed in the node's stored state and found no active
  job, and afterwards its job is the node's only active one; the job is the action's,
  pending, and nothing but the job table changed.  An action that does not start
  changes nothing.
\<close>

theorem startAction_exclusive:
  "case fst (startAction env nid who action d) of
     Inl _ \<Rightarrow> snd (startAction env nid who action d) = d
   | Inr (job, n) \<Rightarrow>
       row_find nodeID nid (dbNodes d) = Some n \<and> IsValidTransition action (nodeStatus n) \<and>
       active_jobs nid d = [] \<and> active_jobs nid (snd (startAction env nid who action d)) = [job] \<and>
       jobAction job = action \<and> jobStatus job = ProvisionStatusPending \<and>
       snd (startAction env nid who action d) = d\<lparr>dbJobs := dbJobs d @ [job]\<rparr>"
proof (cases "startAction_check env nid action d")
  case (Inl e)
  then show ?thesis by (simp add: startAction_def)
next
  case check: (Inr n)
  show ?thesis
  proof (cases rule: startAction_create_cases [of env nid who action n d])
    case (fail e)
    then show ?thesis using check by (simp add: startAction_def)
  next
    case (ok job)
    then show ?thesis using check startAction_check_ok [OF check]
      by (simp add: startAction_def active_jobs_def active_job_def)
  qed
qed


section \<open>What a run of the pipeline leaves\<close>

text \<open>The steps touch no job row.\<close>

lemma snd_case_result [simp]:
  "snd (case r of (Inl e, d') \<Rightarrow> (f e, d') | (Inr x, d') \<Rightarrow> (g x, d')) = snd r"
  by (auto split: prod.split sum.split)

lemma create_token_jobs [simp]: "dbJobs (snd (CreateEnrollmentToken c now t d)) = dbJobs d"
  by (auto simp: CreateEnrollmentToken_def Let_def split: option.splits)

lemma create_peer_jobs [simp]: "dbJobs (snd (CreateWireGuardPeer c now p d)) = dbJobs d"
  by (auto simp: CreateWireGuardPeer_def Let_def split: option.splits)

lemma delete_peer_jobs [simp]: "dbJobs (snd (DeleteWireGuardPeer c i d)) = dbJobs d"
  by (auto simp: DeleteWireGuardPeer_def split: option.splits)

lemma update_node_jobs [simp]: "dbJobs (snd (UpdateNode c now n d)) = dbJobs d"
  by (auto simp: UpdateNode_def Let_def split: option.splits)

lemma save_node_jobs [simp]: "dbJobs (save_node env at n d) = dbJobs d"
  by (simp add: save_node_def)

lemma update_status_jobs [simp]: "dbJobs (updateNodeStatusAfterCompletion env n a d) = dbJobs d"
  by (simp add: updateNodeStatusAfterCompletion_def)

lemma token_jobs [simp]: "dbJobs (snd (GenerateEnrollmentToken env t n d)) = dbJobs d"
  by (auto simp: GenerateEnrollmentToken_def Let_def split: sum.split)

lemma executeStep_jobs:
  assumes "executeStep env p step a n d = Some (out, n', d')"
  shows "dbJobs d' = dbJobs d"
proof (cases step)
  case StepWriteConfig
  have "dbJobs (snd (stepWriteConfig env p n d)) = dbJobs d"
    unfolding stepWriteConfig_def Let_def by (cases "connectToNode env n d") simp_all
  with StepWriteConfig assms show ?thesis by (auto simp: executeStep_def split: prod.splits)
next
  case StepCleanup
  have "dbJobs (snd (stepCleanup env n d)) = dbJobs d"
    by (simp add: stepCleanup_def split: prod.split option.split sum.split)
  with StepCleanup assms show ?thesis by (auto simp: executeStep_def split: prod.splits)
next
  case StepGenerateWGKeys
  have "dbJobs d'' = dbJobs d" if "CreateWireGuardPeer c now q d = (r, d'')" for c now q r d''
    using create_peer_jobs [of c now q d] that by simp
  moreover have "dbJobs d'' = dbJobs e" if "UpdateNode c now m e = (r, d'')" for c now m e r d''
    using update_node_jobs [of c now m e] that by simp
  ultimately show ?thesis
    using StepGenerateWGKeys assms
    by (auto simp: executeStep_def stepGenerateWGKeys_def Let_def
        split: option.splits sum.splits prod.splits)
qed (use assms in \<open>auto simp: executeStep_def\<close>)

text \<open>
  The loop of the allocator ends for every subnet that leaves host bits and is not the
  whole address space.
\<close>

definition subnet_ends :: "string \<Rightarrow> bool" where
  "subnet_ends subnet = (case ParseCIDR subnet of
     None \<Rightarrow> True
   | Some (_, ipNet) \<Rightarrow> To4 (netIP ipNet) = None \<or> (\<exists>w n. ipNet = net4 w n \<and> 1 \<le> n))"

lemma AllocateOverlayIP_returns: "subnet_ends subnet \<Longrightarrow> \<exists>r. AllocateOverlayIP subnet c peers nodes = Some r"
proof -
  assume ends: "subnet_ends subnet"
  have "\<exists>r. alloc4_loop (net4 w n) used s (incrementIP (w AND mask32 n)) = Some r" if "1 \<le> n" for w n used s
    using alloc4_loop_spec [OF that zero_less_one, of "w AND mask32 n" w used s]
    by (auto simp: incrementIP_def)
  with ends show ?thesis
    by (auto simp: AllocateOverlayIP_def subnet_ends_def net4_def split: option.splits prod.splits)
qed

lemma executeStep_returns:
  assumes "subnet_ends (pSubnet p)" "subnet_ends (pIPv6Subnet p)"
  shows "\<exists>out n' d'. executeStep env p step a n d = Some (out, n', d')"
proof -
  have "allocate_addresses p peers nodes \<noteq> None" for peers nodes
  proof -
    obtain r1 r2 where "AllocateOverlayIP (pSubnet p) (pAddress p) peers nodes = Some r1"
      "AllocateOverlayIP (pIPv6Subnet p) (pIPv6Address p) peers nodes = Some r2"
      using assms [THEN AllocateOverlayIP_returns] by meson
    then show ?thesis by (cases r1; cases r2) (simp_all add: allocate_addresses_def)
  qed
  then have "prepare_peer env p n d \<noteq> None"
    by (simp del: not_None_eq add: prepare_peer_def split: sum.split option.split prod.split)
  then have "stepGenerateWGKeys env p n d \<noteq> None"
    by (auto simp: stepGenerateWGKeys_def Let_def split: sum.split prod.split)
  then show ?thesis
    by (cases step) (auto simp: executeStep_def split: prod.split)
qed

lemma save_job_mem [simp]: "row_mem jobID i (dbJobs (save_job env at j d)) \<longleftrightarrow> row_mem jobID i (dbJobs d)"
  by (auto simp: save_job_def UpdateProvisioningJob_def Let_def row_mem_update split: option.split)

lemma save_job_find:
  assumes "connErr (seDB env at) = None" "row_mem jobID (jobID j) (dbJobs d)"
  shows "\<exists>r. row_find jobID (jobID j) (dbJobs (save_job env at j d)) = Some r \<and>
             jobStatus r = jobStatus j \<and> jobSteps r = jobSteps j \<and> jobError r = jobError j"
proof -
  obtain r where "row_find jobID (jobID j) (dbJobs d) = Some r"
    using row_find_mem_Some [OF assms(2)] by blast
  then show ?thesis
    using assms by (auto simp: save_job_def UpdateProvisioningJob_def Let_def stmt_ok row_find_update)
qed

text \<open>
  What a job may look like when its pipeline has ended: completed with one successful
  result per step, or failed at step \<open>k\<close> with the results up to it, followed by the
  result of the rollback exactly when an upgrade failed at its backup or later.
\<close>

definition job_ended :: "ProvisioningStep list \<Rightarrow> ProvisioningAction \<Rightarrow> ProvisioningJob \<Rightarrow> bool" where
  "job_ended ss a j \<longleftrightarrow>
     jobStatus j = ProvisionStatusCompleted \<and> map srStep (jobSteps j) = ss \<and>
       (\<forall>r \<in> set (jobSteps j). srStatus r = ''success'') \<or>
     jobStatus j = ProvisionStatusFailed \<and>
       (\<exists>k rs r rb. k < length ss \<and> jobSteps j = rs @ r # rb \<and> map srStep rs = take k ss \<and>
          (\<forall>r \<in> set rs. srStatus r = ''success'') \<and> srStep r = ss ! k \<and> srStatus r = ''failed'' \<and>
          map srStep rb = (if a = ProvisionActionUpgrade \<and> StepBackupBinary \<in> set (take (Suc k) ss)
                           then [StepRollback] else []))"

lemma shouldRollback_loop_eq:
  "distinct ss \<Longrightarrow> k < length ss \<Longrightarrow>
   shouldRollback_loop b (ss ! k) ss \<longleftrightarrow> b \<or> StepBackupBinary \<in> set (take (Suc k) ss)"
proof (induction ss arbitrary: b k)
  case (Cons s ss)
  then show ?case by (cases k) (auto simp: Let_def nth_mem)
qed simp

lemma PipelineFor_distinct: "distinct (PipelineFor a)"
  by (simp add: PipelineFor_def split: ProvisioningAction.split)

lemma step_result_sel [simp]:
  "srStep (step_result env s out) = s"
  "srStatus (step_result env s out) = (if snd out = None then ''success'' else ''failed'')"
  by (simp_all add: step_result_def split: prod.split)

lemma pipeline_failed_ended:
  assumes "connErr (seDB env ''job failed'') = None" "row_mem jobID (jobID job) (dbJobs d)" "distinct ss" "k < length ss"
    and "map srStep rs = take k ss" "\<forall>r \<in> set rs. srStatus r = ''success''" "srStep r = ss ! k" "srStatus r = ''failed''"
  shows "\<exists>j. row_find jobID (jobID job) (dbJobs (pipeline_failed env rb ss (ss ! k) err (rs @ [r]) job n d)) = Some j \<and>
             job_ended ss (jobAction job) j"
proof -
  let ?rb = "if jobAction job = ProvisionActionUpgrade \<and> shouldRollback ss (ss ! k)
             then [step_result rb StepRollback (stepRollback rb n d)] else []"
  let ?job = "job\<lparr>jobStatus := ProvisionStatusFailed,
                  jobError := ''step '' @ step_name (ss ! k) @ '' failed: '' @ error_string err,
                  jobCompletedAt := Some (seNow env), jobSteps := rs @ r # ?rb\<rparr>"
  have "dbJobs (pipeline_failed env rb ss (ss ! k) err (rs @ [r]) job n d) = dbJobs (save_job env ''job failed'' ?job d)"
    by (auto simp: pipeline_failed_def Let_def)
  moreover obtain j where "row_find jobID (jobID job) (dbJobs (save_job env ''job failed'' ?job d)) = Some j"
    and j: "jobStatus j = ProvisionStatusFailed" "jobSteps j = rs @ r # ?rb"
    using save_job_find [OF assms(1), of ?job d] assms(2) by auto
  moreover have "shouldRollback ss (ss ! k) \<longleftrightarrow> StepBackupBinary \<in> set (take (Suc k) ss)"
    using shouldRollback_loop_eq [OF assms(3,4), of False] by (simp add: shouldRollback_def)
  then have "map srStep ?rb = (if jobAction job = ProvisionActionUpgrade \<and> StepBackupBinary \<in> set (take (Suc k) ss)
      then [StepRollback] else [])" by simp
  then have "job_ended ss (jobAction job) j" using assms(4-) j unfolding job_ended_def by blast
  ultimately show ?thesis by simp
qed

lemma pipeline_loop_ended:
  assumes "subnet_ends (pSubnet p)" "subnet_ends (pIPv6Subnet p)" "distinct ss"
    and conns: "\<And>i. connErr (seDB (env i) ''job failed'') = None" "\<And>i. connErr (seDB (env i) ''job completed'') = None"
    and "row_mem jobID (jobID job) (dbJobs d)" "k \<le> length ss" "map srStep results = take k ss"
    and "\<forall>r \<in> set results. srStatus r = ''success''"
  shows "\<exists>d' j. pipeline_loop env rb p ss k (drop k ss) results job n d = Some d' \<and>
           row_find jobID (jobID job) (dbJobs d') = Some j \<and> job_ended ss (jobAction job) j"
  using assms(6-)
proof (induction "drop k ss" arbitrary: k results job n d)
  case Nil
  let ?job = "job\<lparr>jobStatus := ProvisionStatusCompleted, jobCompletedAt := Some (seNow (env k)), jobSteps := results\<rparr>"
  obtain j where "row_find jobID (jobID job) (dbJobs (save_job (env k) ''job completed'' ?job d)) = Some j"
    "jobStatus j = ProvisionStatusCompleted" "jobSteps j = results"
    using save_job_find [OF conns(2), of ?job d k] Nil(2) by auto
  moreover have "k = length ss" using Nil(1,3) by simp
  ultimately show ?case using Nil(2-) by (auto simp: job_ended_def Let_def)
next
  case (Cons s rest)
  have k: "k < length ss" using Cons(2) by (cases "k < length ss") auto
  then have s: "s = ss ! k" and rest: "rest = drop (Suc k) ss" "drop k ss = s # rest"
    using Cons(2) by (simp_all add: Cons_nth_drop_Suc [symmetric])
  let ?job = "job\<lparr>jobCurrentStep := s, jobSteps := results\<rparr>"
  let ?d = "save_job (env k) ''job step'' ?job d"
  obtain out n' d' where run: "executeStep (env k) p s (jobAction job) n ?d = Some (out, n', d')"
    using executeStep_returns [OF assms(1,2)] by blast
  have mem: "row_mem jobID (jobID job) (dbJobs d')"
    using executeStep_jobs [OF run] Cons(3) by simp
  show ?case
  proof (cases "snd out")
    case None
    then show ?thesis
      using Cons(1) [OF rest(1), of ?job d' "results @ [step_result (env k) s out]" n'] mem Cons(5,6) k s run
      by (simp add: rest Let_def take_Suc_conv_app_nth)
  next
    case (Some err)
    then show ?thesis
      using pipeline_failed_ended [OF conns(1) [of k], of ?job d' ss k results "step_result (env k) s out" rb err n']
        mem assms(3) k Cons(5,6) s run
      by (auto simp add: rest Let_def)
  qed
qed

text \<open>
  C6: A pipeline always ends, and it leaves its job completed, with the successful results
  of exactly the action's steps in order, or failed, with the successful results of
  the steps before the failed one, the failed one, and the rollback when an upgrade
  failed at its backup or after it.  The store must record the closing update of the
  job, and the overlay subnets must not be the whole address space.
\<close>

theorem runPipeline_ends:
  assumes "row_mem jobID (jobID job) (dbJobs d)"
    and "subnet_ends (pSubnet p)" "subnet_ends (pIPv6Subnet p)"
    and "\<And>i. connErr (seDB (env i) ''job failed'') = None" "\<And>i. connErr (seDB (env i) ''job completed'') = None"
  shows "\<exists>d' j. runPipeline env0 env rb p job n (PipelineFor (jobAction job)) d = Some d' \<and>
           row_find jobID (jobID job) (dbJobs d') = Some j \<and> job_ended (PipelineFor (jobAction job)) (jobAction job) j"
proof -
  let ?ss = "PipelineFor (jobAction job)"
  have "\<exists>d' j'. pipeline_loop env rb p ?ss 0 ?ss [] j m e = Some d' \<and>
      row_find jobID (jobID j) (dbJobs d') = Some j' \<and> job_ended ?ss (jobAction j) j'"
    if "row_mem jobID (jobID j) (dbJobs e)" for j m e
    using pipeline_loop_ended [where env = env and p = p and ss = ?ss and k = 0 and results = "[]" and job = j and
        d = e and rb = rb and n = m] assms(2-) PipelineFor_distinct that by simp
  note this [of "job\<lparr>jobStatus := ProvisionStatusRunning, jobStartedAt := Some (seNow env0)\<rparr>"]
  with assms(1) show ?thesis by (cases "jobAction job = ProvisionActionEnroll") (simp_all add: runPipeline_def Let_def)
qed

definition sample_prov :: DefaultProvisioner where
  "sample_prov = \<lparr>pListenPort = 51820, pSubnet = ''10.100.0.0/24'', pAddress = '''', pIPv6Subnet = '''',
     pIPv6Address = '''', pExtURL = ''https://c'', pBinaryPath = ''/b'', pHasConfigGen = False\<rparr>"

definition sample_env :: "ID \<Rightarrow> step_env" where
  "sample_env i = \<lparr>seDB = (\<lambda>_. fk_conn), seNow = 5, seDuration = 1, seNewID = i, seConnect = (\<lambda>_. Inr ()),
     seRun = (\<lambda>_. (''active'', None)), seUpload = None, seBinarySize = Inr 9, seRandKey = Inr (replicate 32 0),
     seRandPSK = Inr (replicate 32 0), seRandToken = Inr ''t'', seX25519 = (\<lambda>k. Inr k), seBase64 = (\<lambda>_. ''k''),
     seEncrypt = (\<lambda>s. Inr s), seDecrypt = (\<lambda>s. Inr s), seWGConfig = Inr ''''\<rparr>"

lemma sample_env_sel [simp]:
  "seDB (sample_env i) at = fk_conn" "seNow (sample_env i) = 5" "seNewID (sample_env i) = i"
  "connErr fk_conn = None" "connFK fk_conn"
  by (simp_all add: sample_env_def fk_conn_def)

lemma sample_db_parts:
  "map nodeStatus (dbNodes sample_db) = [NodeStatusPending]" "dbJobs sample_db = []"
  by (simp_all add: sample_defs CreateTenant_def CreateNode_def tenant_defaults_def node_defaults_def Let_def stmt_ok
      tenant_unique_def row_mem_def ref_opt_def)

lemma sample_node_row:
  obtains n t where "dbNodes sample_db = [n]" "nodeID n = 1" "nodeTenantID n = Some 7" "nodeStatus n = NodeStatusPending"
    "dbTenants sample_db = [t]" "tenantID t = 7"
  using sample_db_rows sample_db_parts(1) by (auto simp: map_eq_Cons_conv)

lemma sample_subnet_ends: "subnet_ends (pSubnet sample_prov)" "subnet_ends (pIPv6Subnet sample_prov)"
proof -
  show "subnet_ends (pSubnet sample_prov)"
    by (auto simp: subnet_ends_def sample_prov_def parse_24 intro!: exI [of _ "24::nat"])
  show "subnet_ends (pIPv6Subnet sample_prov)"
    by (simp add: subnet_ends_def sample_prov_def ParseCIDR_def)
qed


lemma sample_check:
  assumes "IsValidTransition a NodeStatusPending"
  shows "\<exists>n. startAction_check (sample_env i) 1 a sample_db = Inr n \<and> nodeTenantID n = Some 7"
proof -
  obtain n where "dbNodes sample_db = [n]" "nodeID n = 1" "nodeTenantID n = Some 7" "nodeStatus n = NodeStatusPending"
    by (rule sample_node_row)
  then show ?thesis
    using assms sample_db_parts(2)
    by (simp add: startAction_check_def GetNode_def GetActiveProvisioningJob_def sql_row_def newest_first_def)
qed

lemma sample_create:
  assumes "nodeTenantID n = Some 7" "i \<notin> jobID ` set js"
  shows "\<exists>job. startAction_create (sample_env i) 1 who a n (sample_db\<lparr>dbJobs := js\<rparr>) =
           (Inr job, sample_db\<lparr>dbJobs := js @ [job]\<rparr>) \<and> jobID job = i"
proof -
  obtain m t where db: "dbNodes sample_db = [m]" "nodeID m = 1" "dbTenants sample_db = [t]" "tenantID t = 7"
    by (rule sample_node_row)
  have "sql_exec fk_conn (\<not> row_mem jobID i js) (row_mem nodeID 1 (dbNodes sample_db) \<and> ref_opt tenantID (Some 7) (dbTenants sample_db)) = None"
    using assms db by (simp add: row_mem_iff ref_opt_def)
  then show ?thesis
    using assms(1) by (simp add: startAction_create_def CreateProvisioningJob_def Let_def del: sql_exec_None_iff)
qed


definition sample_job :: ProvisioningJob where
  "sample_job = new_job (sample_env 11) 1 9 ProvisionActionUpgrade (sample_node 1)"

theorem runPipeline_ends_witness:
  "\<exists>d' j. runPipeline (sample_env 1) (\<lambda>i. sample_env (of_nat i)) (sample_env 2) sample_prov sample_job (sample_node 1)
       (PipelineFor ProvisionActionUpgrade) (sample_db\<lparr>dbJobs := [sample_job]\<rparr>) = Some d' \<and>
     row_find jobID 11 (dbJobs d') = Some j \<and> job_ended (PipelineFor ProvisionActionUpgrade) ProvisionActionUpgrade j"
  using runPipeline_ends [of sample_job "sample_db\<lparr>dbJobs := [sample_job]\<rparr>" sample_prov "\<lambda>i. sample_env (of_nat i)"
      "sample_env 1" "sample_env 2" "sample_node 1"] sample_subnet_ends
  by (simp add: sample_job_def row_mem_iff)

end
