(* ===== verification/EF_Enrollment.thy ===== *)
theory EF_Enrollment
  imports EF_Provisioning
begin

text \<open>
  The rest of \<open>internal/provisioning\<close>: the enrollment call of a node agent
  (\<open>enrollment.go\<close>) and the rotation of SSH keys (\<open>rotation.go\<close>).

  An enrollment reads the token and the node, gives the node a WireGuard peer and an
  overlay address unless it has a peer already, marks the token used and stores the
  node as online, in this order and without a transaction.  The rotation replaces the
  key pair in the store; the deployment pushes the public key to the hosts.
\<close>

section \<open>Enrollment\<close>

record EnrollmentResult =
  erNodeID :: ID
  erTenantID :: "ID option"
  erWireGuardIP :: string

definition ValidateEnrollmentToken :: "step_env \<Rightarrow> string \<Rightarrow> db \<Rightarrow> EnrollmentToken result" where
  "ValidateEnrollmentToken env tokenStr d =
     (case GetEnrollmentToken (seDB env ''get token'') tokenStr d of
        Inl e \<Rightarrow> Inl (Wrapf ''get enrollment token'' e)
      | Inr token \<Rightarrow>
          if tokUsedAt token \<noteq> None then Inl (Wrapf ''enrollment token already used'' ErrConflict)
          else if seNow env > tokExpiresAt token then Inl (Wrapf ''enrollment token expired'' ErrConflict)
          else Inr token)"

text \<open>The WireGuard part of \<open>CompleteEnrollment\<close>.\<close>

definition ensure_peer :: "step_env \<Rightarrow> DefaultProvisioner \<Rightarrow> Node \<Rightarrow> db \<Rightarrow> Node dbres option" where
  "ensure_peer env p n d =
     (case GetWireGuardPeerByOwner (seDB env ''check peer'') PeerOwnerNode (nodeID n) d of
        Inr _ \<Rightarrow> Some (Inr n, d)
      | Inl err \<Rightarrow>
          if err \<noteq> ErrNotFound then Some (Inl (Wrapf ''check existing WG peer'' err), d)
          else (case prepare_peer env p n d of
                  None \<Rightarrow> None
                | Some (Inl e) \<Rightarrow> Some (Inl e, d)
                | Some (Inr (peer, ip, ip6)) \<Rightarrow>
                    (case CreateWireGuardPeer (seDB env ''create peer'') (seNow env) peer d of
                       (Inl e, d') \<Rightarrow> Some (Inl (Wrapf ''create WG peer'' e), d')
                     | (Inr _, d') \<Rightarrow>
                         (let n = (if pIPv6Subnet p \<noteq> '''' then n\<lparr>nodeWireGuardIPv6 := ip6\<rparr> else n)
                          in Some (Inr (n\<lparr>nodeWireGuardIP := ip\<rparr>), d')))))"

definition CompleteEnrollment ::
  "step_env \<Rightarrow> DefaultProvisioner \<Rightarrow> string \<Rightarrow> db \<Rightarrow> EnrollmentResult dbres option" where
  "CompleteEnrollment env p tokenStr d =
     (case ValidateEnrollmentToken env tokenStr d of
        Inl e \<Rightarrow> Some (Inl e, d)
      | Inr token \<Rightarrow>
     (case GetNode (seDB env ''get node'') (tokTargetID token) d of
        Inl e \<Rightarrow> Some (Inl (Wrapf ''get target node'' e), d)
      | Inr n \<Rightarrow>
     (case ensure_peer env p n d of
        None \<Rightarrow> None
      | Some (Inl e, d') \<Rightarrow> Some (Inl e, d')
      | Some (Inr n, d') \<Rightarrow>
     (case MarkEnrollmentTokenUsed (seDB env ''mark token'') (seNow env) (tokID token) d' of
        (Inl e, d'') \<Rightarrow> Some (Inl (Wrapf ''mark token used'' e), d'')
      | (Inr _, d'') \<Rightarrow>
          (let n = n\<lparr>nodeStatus := NodeStatusOnline\<rparr>
           in case UpdateNode (seDB env ''update node'') (seNow env) n d'' of
                (Inl e, d''') \<Rightarrow> Some (Inl (Wrapf ''update node status'' e), d''')
              | (Inr n, d''') \<Rightarrow>
                  Some (Inr \<lparr>erNodeID = nodeID n, erTenantID = nodeTenantID n, erWireGuardIP = nodeWireGuardIP n\<rparr>,
                        d'''))))))"

section \<open>SSH key rotation\<close>

text \<open>
  The functions of \<open>crypto/ed25519\<close>, \<open>encoding/pem\<close> and \<open>golang.org/x/crypto/ssh\<close> that
  the rotation calls.
\<close>

record ssh_lib =
  slGenerateKey :: "(string \<times> string) result"
  slNewPublicKey :: "string \<Rightarrow> string result"
  slMarshalAuthorizedKey :: "string \<Rightarrow> string"
  slMarshalPrivateKey :: "string \<Rightarrow> string result"
  slEncodeToMemory :: "string \<Rightarrow> string"
  slFingerprintSHA256 :: "string \<Rightarrow> string"

definition RotateSSHKey :: "step_env \<Rightarrow> ssh_lib \<Rightarrow> ID \<Rightarrow> db \<Rightarrow> SSHKey dbres" where
  "RotateSSHKey env lib kid d =
     (case GetSSHKey (seDB env ''get ssh key'') kid d of
        Inl e \<Rightarrow> (Inl (Wrapf ''get SSH key'' e), d)
      | Inr existing \<Rightarrow>
     (case slGenerateKey lib of
        Inl e \<Rightarrow> (Inl (Wrapf ''generate ed25519 key'' e), d)
      | Inr (pubKey, privKey) \<Rightarrow>
     (case slNewPublicKey lib pubKey of
        Inl e \<Rightarrow> (Inl (Wrapf ''convert public key'' e), d)
      | Inr sshPub \<Rightarrow>
     (case slMarshalPrivateKey lib privKey of
        Inl e \<Rightarrow> (Inl (Wrapf ''marshal private key'' e), d)
      | Inr privKeyPEM \<Rightarrow>
     (case seEncrypt env (slEncodeToMemory lib privKeyPEM) of
        Inl e \<Rightarrow> (Inl (Wrapf ''encrypt private key'' e), d)
      | Inr encryptedPriv \<Rightarrow>
          (let existing = existing\<lparr>sshPublicKey := slMarshalAuthorizedKey lib sshPub, sshPrivateKey := encryptedPriv,
                                   sshFingerprint := slFingerprintSHA256 lib sshPub, sshLastRotatedAt := seNow env\<rparr>
           in case UpdateSSHKey (seDB env ''update ssh key'') existing d of
                (Inl e, d') \<Rightarrow> (Inl (Wrapf ''update SSH key'' e), d')
              | (Inr _, d') \<Rightarrow> (Inr (existing\<lparr>sshPrivateKey := ''''\<rparr>), d')))))))"

definition deploy_target :: "Node \<Rightarrow> string \<Rightarrow> Target" where
  "deploy_target n privKey =
     \<lparr>tgtHost = nodePublicIP n, tgtPort = (if nodeSSHPort n = 0 then 22 else nodeSSHPort n),
      tgtUser = (if nodeSSHUser n = '''' then ''root'' else nodeSSHUser n), tgtPrivateKey = privKey\<rparr>"

definition deployKeyToNode :: "step_env \<Rightarrow> Node \<Rightarrow> string \<Rightarrow> string \<Rightarrow> error option" where
  "deployKeyToNode env n pubKey privKey =
     (case seConnect env (deploy_target n privKey) of
        Inl e \<Rightarrow> Some (Wrapf ''connect'' e)
      | Inr _ \<Rightarrow>
          (case seRun env (''grep -qF '' @ go_quote pubKey @ '' ~/.ssh/authorized_keys 2>/dev/null || echo '' @
                           go_quote pubKey @ '' >> ~/.ssh/authorized_keys'') of
             (_, Some e) \<Rightarrow> Some (Wrapf ''append authorized_keys'' e)
           | (_, None) \<Rightarrow> None))"

definition deploys_to :: "ID \<Rightarrow> Node \<Rightarrow> bool" where
  "deploys_to kid n =
     (nodeSSHKeyID n = Some kid \<and> (nodeStatus n = NodeStatusOnline \<or> nodeStatus n = NodeStatusOffline))"

text \<open>The loop of \<open>DeploySSHKey\<close>; \<open>idstr\<close> is the text form of an identifier.\<close>

fun deploy_errors :: "step_env \<Rightarrow> (ID \<Rightarrow> string) \<Rightarrow> ID \<Rightarrow> string \<Rightarrow> string \<Rightarrow> Node list \<Rightarrow> string list" where
  "deploy_errors env idstr kid pubKey privKey [] = []"
| "deploy_errors env idstr kid pubKey privKey (n # ns) =
     (if deploys_to kid n
      then (case deployKeyToNode env n pubKey privKey of
              Some e \<Rightarrow> [''node '' @ nodeName n @ '' ('' @ idstr (nodeID n) @ ''): '' @ error_string e]
            | None \<Rightarrow> [])
      else []) @ deploy_errors env idstr kid pubKey privKey ns"

definition DeploySSHKey :: "step_env \<Rightarrow> (ID \<Rightarrow> string) \<Rightarrow> ID \<Rightarrow> db \<Rightarrow> unit result" where
  "DeploySSHKey env idstr kid d =
     (case GetSSHKey (seDB env ''get ssh key'') kid d of
        Inl e \<Rightarrow> Inl (Wrapf ''get SSH key'' e)
      | Inr key \<Rightarrow>
     (case seDecrypt env (sshPrivateKey key) of
        Inl e \<Rightarrow> Inl (Wrapf ''decrypt private key'' e)
      | Inr privKeyPlain \<Rightarrow>
     (case ListNodes (seDB env ''list nodes'') None listAll d of
        Inl e \<Rightarrow> Inl (Wrapf ''list nodes'' e)
      | Inr (nodes, _) \<Rightarrow>
          (let deployErrors = deploy_errors env idstr kid (sshPublicKey key) privKeyPlain nodes
           in if deployErrors \<noteq> []
              then Inl (Errorf (''deploy failed on '' @ itoa (int (length deployErrors)) @ '' node(s): '' @ deployErrors ! 0))
              else Inr ()))))"

section \<open>What an enrollment does\<close>

lemma CreateWireGuardPeer_rows:
  assumes "CreateWireGuardPeer c now q d = (r, d')"
  shows "dbNodes d' = dbNodes d" "dbTokens d' = dbTokens d" "dbTenants d' = dbTenants d" "dbSSHKeys d' = dbSSHKeys d"
  using assms by (auto simp: CreateWireGuardPeer_def Let_def split: option.splits)

lemma ensure_peer_rows:
  assumes "ensure_peer env p n d = Some (r, d')"
  shows "dbNodes d' = dbNodes d" "dbTokens d' = dbTokens d" "dbTenants d' = dbTenants d" "dbSSHKeys d' = dbSSHKeys d"
  using assms
  by (auto simp: ensure_peer_def Let_def dest: CreateWireGuardPeer_rows
      split: sum.splits option.splits prod.splits if_splits)

lemma ensure_peer_node:
  assumes "ensure_peer env p n d = Some (Inr m, d')"
  shows "m = n\<lparr>nodeWireGuardIP := nodeWireGuardIP m, nodeWireGuardIPv6 := nodeWireGuardIPv6 m\<rparr>"
  using assms by (auto simp: ensure_peer_def Let_def split: sum.splits option.splits prod.splits if_splits)

lemma CompleteEnrollment_ok:
  assumes "CompleteEnrollment env p tok d = Some (Inr res, d')"
  obtains t n m d1 d2 n' where
    "row_find tokToken tok (dbTokens d) = Some t" "tokUsedAt t = None" "seNow env \<le> tokExpiresAt t"
    "row_find nodeID (tokTargetID t) (dbNodes d) = Some n"
    "ensure_peer env p n d = Some (Inr m, d1)"
    "MarkEnrollmentTokenUsed (seDB env ''mark token'') (seNow env) (tokID t) d1 = (Inr (), d2)"
    "UpdateNode (seDB env ''update node'') (seNow env) (m\<lparr>nodeStatus := NodeStatusOnline\<rparr>) d2 = (Inr n', d')"
    "res = \<lparr>erNodeID = nodeID n', erTenantID = nodeTenantID n', erWireGuardIP = nodeWireGuardIP n'\<rparr>"
  using assms
  by (auto simp: CompleteEnrollment_def ValidateEnrollmentToken_def GetEnrollmentToken_def GetNode_def sql_row_def Let_def
      split: sum.splits option.splits prod.splits if_splits)

lemma UpdateNode_ok:
  assumes "UpdateNode c now n d = (Inr n', d')"
  shows "n' = n\<lparr>nodeUpdatedAt := now\<rparr>" "row_mem nodeID (nodeID n) (dbNodes d)"
    "dbNodes d' = row_update nodeID (nodeID n) (\<lambda>r. n'\<lparr>nodeLastHeartbeat := nodeLastHeartbeat r,
       nodeLastConfigSync := nodeLastConfigSync r, nodeCreatedAt := nodeCreatedAt r\<rparr>) (dbNodes d)"
    "dbTokens d' = dbTokens d" "dbPeers d' = dbPeers d"
  using assms by (auto simp: UpdateNode_def Let_def split: option.splits)

lemma UpdateNode_fail: "UpdateNode c now n d = (Inl e, d') \<Longrightarrow> d' = d"
  by (auto simp: UpdateNode_def Let_def split: option.splits)

lemma MarkEnrollmentTokenUsed_cases:
  assumes "MarkEnrollmentTokenUsed c now i d = (r, d')"
  shows "case r of
      Inl _ \<Rightarrow> d' = d
    | Inr _ \<Rightarrow> d' = d\<lparr>dbTokens := map (\<lambda>t. if tokID t = i \<and> tokUsedAt t = None then t\<lparr>tokUsedAt := Some now\<rparr> else t) (dbTokens d)\<rparr>"
  using assms by (auto simp: MarkEnrollmentTokenUsed_def split: option.splits)

lemma MarkEnrollmentTokenUsed_rows:
  assumes "MarkEnrollmentTokenUsed c now i d = (r, d')"
  shows "dbNodes d' = dbNodes d \<and>
    (\<exists>f. dbTokens d' = map f (dbTokens d) \<and> (\<forall>t. tokToken (f t) = tokToken t \<and> tokTargetID (f t) = tokTargetID t))"
proof (cases r)
  case (Inl e)
  then show ?thesis using MarkEnrollmentTokenUsed_cases [OF assms] by (auto intro!: exI [of _ "\<lambda>t. t"])
next
  case (Inr u)
  then have "d' = d\<lparr>dbTokens := map (\<lambda>t. if tokID t = i \<and> tokUsedAt t = None then t\<lparr>tokUsedAt := Some now\<rparr> else t) (dbTokens d)\<rparr>"
    using MarkEnrollmentTokenUsed_cases [OF assms] by simp
  then show ?thesis
    by (intro conjI exI [of _ "\<lambda>t. if tokID t = i \<and> tokUsedAt t = None then t\<lparr>tokUsedAt := Some now\<rparr> else t"]) auto
qed

lemma CompleteEnrollment_fail:
  assumes "CompleteEnrollment env p tok d = Some (Inl e, d')"
  shows "dbNodes d' = dbNodes d"
    "\<exists>f. dbTokens d' = map f (dbTokens d) \<and> (\<forall>t. tokToken (f t) = tokToken t \<and> tokTargetID (f t) = tokTargetID t)"
proof -
  have same: "\<exists>f. ts = map f ts \<and> (\<forall>t. tokToken (f t) = tokToken t \<and> tokTargetID (f t) = tokTargetID t)" for ts
    by (rule exI [of _ "\<lambda>t. t"]) simp
  consider "d' = d" | (peer) n r where "ensure_peer env p n d = Some (r, d')"
    | (mark) n r d1 i r' where "ensure_peer env p n d = Some (r, d1)"
        "MarkEnrollmentTokenUsed (seDB env ''mark token'') (seNow env) i d1 = (r', d')"
    using assms
    by (auto simp: CompleteEnrollment_def Let_def dest: UpdateNode_fail split: sum.splits option.splits prod.splits)
  then have "dbNodes d' = dbNodes d \<and>
    (\<exists>f. dbTokens d' = map f (dbTokens d) \<and> (\<forall>t. tokToken (f t) = tokToken t \<and> tokTargetID (f t) = tokTargetID t))"
    by cases (use same ensure_peer_rows(1,2) MarkEnrollmentTokenUsed_rows in metis)+
  then show "dbNodes d' = dbNodes d"
    "\<exists>f. dbTokens d' = map f (dbTokens d) \<and> (\<forall>t. tokToken (f t) = tokToken t \<and> tokTargetID (f t) = tokTargetID t)"
    by blast+
qed

lemma row_find_map: "(\<And>r. key (f r) = key r) \<Longrightarrow> row_find key k (map f rows) = map_option f (row_find key k rows)"
  by (induction rows) (auto simp: row_find_def)

text \<open>
  C2: An enrollment that succeeds had a token that was stored, unused and not expired,
  leaves the node the token names online with the address it returns, and no later
  enrollment with that token succeeds or changes anything, whatever the store does.
\<close>

theorem enrollment_single_use:
  assumes "CompleteEnrollment env p tok d = Some (Inr res, d')"
  shows "(\<exists>t. row_find tokToken tok (dbTokens d) = Some t \<and> tokUsedAt t = None \<and> seNow env \<le> tokExpiresAt t \<and>
             erNodeID res = tokTargetID t) \<and>
         (\<exists>n. row_find nodeID (erNodeID res) (dbNodes d') = Some n \<and> nodeStatus n = NodeStatusOnline \<and>
             nodeWireGuardIP n = erWireGuardIP res \<and> nodeTenantID n = erTenantID res) \<and>
         (\<exists>e. CompleteEnrollment env' p' tok d' = Some (Inl e, d'))"
proof -
  obtain t n m d1 d2 n' where
    t: "row_find tokToken tok (dbTokens d) = Some t" "tokUsedAt t = None" "seNow env \<le> tokExpiresAt t" and
    n: "row_find nodeID (tokTargetID t) (dbNodes d) = Some n" and
    peer: "ensure_peer env p n d = Some (Inr m, d1)" and
    mark: "MarkEnrollmentTokenUsed (seDB env ''mark token'') (seNow env) (tokID t) d1 = (Inr (), d2)" and
    upd: "UpdateNode (seDB env ''update node'') (seNow env) (m\<lparr>nodeStatus := NodeStatusOnline\<rparr>) d2 = (Inr n', d')" and
    res: "res = \<lparr>erNodeID = nodeID n', erTenantID = nodeTenantID n', erWireGuardIP = nodeWireGuardIP n'\<rparr>"
    by (rule CompleteEnrollment_ok [OF assms])
  have id: "nodeID m = tokTargetID t"
    using row_find_SomeD [OF n] ensure_peer_node [OF peer] by (metis Node.select_convs(1) Node.surjective Node.update_convs(6,7))
  have row: "row_find nodeID (tokTargetID t) (dbNodes d2) = Some n"
    using n ensure_peer_rows(1) [OF peer] MarkEnrollmentTokenUsed_cases [OF mark] by simp
  then have "row_find nodeID (tokTargetID t) (dbNodes d') = Some (n'\<lparr>nodeLastHeartbeat := nodeLastHeartbeat n,
       nodeLastConfigSync := nodeLastConfigSync n, nodeCreatedAt := nodeCreatedAt n\<rparr>)"
    using UpdateNode_ok(1,3) [OF upd] id by (simp add: row_find_update)
  moreover have "dbTokens d' = map (\<lambda>x. if tokID x = tokID t \<and> tokUsedAt x = None then x\<lparr>tokUsedAt := Some (seNow env)\<rparr> else x)
      (dbTokens d)"
    using UpdateNode_ok(4) [OF upd] MarkEnrollmentTokenUsed_cases [OF mark] ensure_peer_rows(2) [OF peer] by simp
  then have "row_find tokToken tok (dbTokens d') = Some (t\<lparr>tokUsedAt := Some (seNow env)\<rparr>)"
    using t by (simp add: row_find_map)
  then have "\<exists>e. CompleteEnrollment env' p' tok d' = Some (Inl e, d')"
    by (auto simp: CompleteEnrollment_def ValidateEnrollmentToken_def GetEnrollmentToken_def sql_row_def
        split: sum.split option.split)
  ultimately show ?thesis
    using t res id UpdateNode_ok(1) [OF upd] by simp
qed

text \<open>No two nodes have the same overlay address.\<close>

definition overlay_distinct :: "db \<Rightarrow> bool" where
  "overlay_distinct d \<longleftrightarrow>
     (\<forall>n \<in> set (dbNodes d). \<forall>m \<in> set (dbNodes d).
        nodeWireGuardIP n = nodeWireGuardIP m \<and> nodeWireGuardIP n \<noteq> '''' \<longrightarrow> nodeID n = nodeID m)"

lemma list_all_nodes:
  assumes "ListNodes c None listAll d = Inr (ns, k)" "length (dbNodes d) \<le> 10000"
  shows "set ns = set (dbNodes d)"
  using assms
  by (auto simp: ListNodes_def sql_list_def sql_query_def tenant_nodes_def page_def listAll_def newest_first_def
      split: option.splits)

lemma prepare_peer_parts:
  assumes "prepare_peer env p n d = Some (Inr (q, ip, ip6))"
  obtains peers ns k where "ListNodes (seDB env ''list nodes'') None listAll d = Inr (ns, k)"
    "AllocateOverlayIP (pSubnet p) (pAddress p) peers ns = Some (Inr ip)" "peerOwnerType q = PeerOwnerNode" "peerOwnerID q = nodeID n"
  using assms
  by (auto simp: prepare_peer_def allocate_addresses_def new_peer_def split: sum.splits option.splits prod.splits if_splits)

lemma prepare_peer_fresh:
  assumes "prepare_peer env p n d = Some (Inr (q, ip, ip6))"
    and "ParseCIDR (pSubnet p) = Some (a, net4 w k)" "1 \<le> k" "length (dbNodes d) \<le> 10000"
    and "m \<in> set (dbNodes d)"
  shows "nodeWireGuardIP m \<noteq> ip"
proof
  assume same: "nodeWireGuardIP m = ip"
  obtain peers ns j where ns: "ListNodes (seDB env ''list nodes'') None listAll d = Inr (ns, j)"
    and alloc: "AllocateOverlayIP (pSubnet p) (pAddress p) peers ns = Some (Inr ip)"
    by (rule prepare_peer_parts [OF assms(1)])
  obtain v where v: "ip = IPv4_string v" "v \<notin> taken4 (net4 w k) (w AND mask32 k) (pAddress p) peers ns"
    using AllocateOverlayIP_unused [OF assms(2,3) alloc] by blast
  have "m \<in> set ns" using list_all_nodes [OF ns assms(4)] assms(5) by simp
  moreover have "ParseIP (nodeWireGuardIP m) = Some (IP16 (v4_mapped v))" using same v(1) by simp
  moreover have "nodeWireGuardIP m \<noteq> ''''" using same v(1) by (simp add: IPv4_string_def)
  ultimately have "v \<in> taken4 (net4 w k) (w AND mask32 k) (pAddress p) peers ns"
    unfolding taken4_def using To4_v4_mapped [of v] by blast
  with v(2) show False ..
qed

lemma ensure_peer_address:
  assumes "ensure_peer env p n d = Some (Inr m, d')"
    and "ParseCIDR (pSubnet p) = Some (a, net4 w k)" "1 \<le> k" "length (dbNodes d) \<le> 10000"
  shows "nodeWireGuardIP m = nodeWireGuardIP n \<or> (\<forall>r \<in> set (dbNodes d). nodeWireGuardIP r \<noteq> nodeWireGuardIP m)"
  using assms(1) prepare_peer_fresh [OF _ assms(2-4)]
  by (auto simp: ensure_peer_def Let_def split: sum.splits option.splits prod.splits if_splits)

lemma overlay_distinct_update:
  assumes "overlay_distinct d" "row_find nodeID (nodeID m) (dbNodes d) = Some n"
    and "nodeWireGuardIP m = nodeWireGuardIP n \<or> (\<forall>r \<in> set (dbNodes d). nodeWireGuardIP r \<noteq> nodeWireGuardIP m)"
    and "dbNodes d' = row_update nodeID (nodeID m) f (dbNodes d)"
    and "\<And>r. nodeWireGuardIP (f r) = nodeWireGuardIP m" "\<And>r. nodeID (f r) = nodeID m"
  shows "overlay_distinct d'"
  unfolding overlay_distinct_def
proof (intro ballI impI)
  fix x y assume xy: "x \<in> set (dbNodes d')" "y \<in> set (dbNodes d')"
    "nodeWireGuardIP x = nodeWireGuardIP y \<and> nodeWireGuardIP x \<noteq> ''''"
  have old: "(x \<in> set (dbNodes d) \<and> nodeID x \<noteq> nodeID m) \<or> (nodeID x = nodeID m \<and> nodeWireGuardIP x = nodeWireGuardIP m)"
    if "x \<in> set (dbNodes d')" for x
    using that assms(5,6) unfolding assms(4) row_update_def by auto
  show "nodeID x = nodeID y"
    using old [OF xy(1)] old [OF xy(2)] xy(3) assms(1,3) row_find_SomeD [OF assms(2)]
    unfolding overlay_distinct_def by metis
qed



section \<open>What a rotation does\<close>

lemma RotateSSHKey_stores:
  assumes "RotateSSHKey env lib kid d = (Inr key, d')"
    and "slGenerateKey lib = Inr (pub, priv)" "slMarshalPrivateKey lib priv = Inr pem"
  shows "\<exists>k enc. seEncrypt env (slEncodeToMemory lib pem) = Inr enc \<and> dbNodes d' = dbNodes d \<and>
           row_find sshID kid (dbSSHKeys d') = Some k \<and> sshPrivateKey k = enc"
proof -
  have store: "\<exists>k. dbNodes e' = dbNodes e \<and> row_find sshID (sshID x) (dbSSHKeys e') = Some k \<and> sshPrivateKey k = sshPrivateKey x"
    if "UpdateSSHKey c x e = (Inr (), e')" for c x e e'
    using that row_find_mem_Some [of sshID "sshID x" "dbSSHKeys e"]
    by (auto simp: UpdateSSHKey_def row_find_update split: option.splits)
  obtain existing where "row_find sshID kid (dbSSHKeys d) = Some existing" "sshID existing = kid"
    using assms(1) by (auto simp: RotateSSHKey_def GetSSHKey_def sql_row_def dest: row_find_SomeD split: option.splits sum.splits)
  then show ?thesis
    using assms by (fastforce simp: RotateSSHKey_def GetSSHKey_def sql_row_def Let_def dest!: store
        split: option.splits sum.splits prod.splits)
qed

text \<open>
  C36: A rotation replaces the stored private key at once, and the deployment logs in with
  it.  So when the hosts reject a key they were never given, every deployment after
  the rotation fails as soon as one node uses the key, no host receives the new public
  key, and no provisioning step can log in to such a node any more.
\<close>

theorem rotation_locks_out:
  assumes "RotateSSHKey env lib kid d = (Inr key, d')"
    and "slGenerateKey lib = Inr (pub, priv)" "slMarshalPrivateKey lib priv = Inr pem"
    and secrets: "\<And>x y. seEncrypt env x = Inr y \<Longrightarrow> seDecrypt env' y = Inr x"
    and hosts: "\<And>t. tgtPrivateKey t = slEncodeToMemory lib pem \<Longrightarrow> \<exists>e. seConnect env' t = Inl e"
    and n: "n \<in> set (dbNodes d)" "deploys_to kid n" "length (dbNodes d) \<le> 10000"
  shows "(\<exists>e. DeploySSHKey env' idstr kid d' = Inl e) \<and> (\<exists>e. connectToNode env' n d' = Inl e) \<and>
         (\<forall>m pk. \<exists>e. deployKeyToNode env' m pk (slEncodeToMemory lib pem) = Some (Wrapf ''connect'' e))"
proof -
  obtain k' enc where enc: "seEncrypt env (slEncodeToMemory lib pem) = Inr enc"
    and rows: "dbNodes d' = dbNodes d" "row_find sshID kid (dbSSHKeys d') = Some k'" "sshPrivateKey k' = enc"
    using RotateSSHKey_stores [OF assms(1-3)] by blast
  have refused: "\<exists>e. seConnect env' t = Inl e" if "tgtPrivateKey t = slEncodeToMemory lib pem" for t
    using hosts that by blast
  have push: "\<exists>e. deployKeyToNode env' m pk (slEncodeToMemory lib pem) = Some (Wrapf ''connect'' e)" for m pk
    using refused [of "deploy_target m (slEncodeToMemory lib pem)"] by (auto simp: deployKeyToNode_def deploy_target_def)
  have "\<exists>e. connectToNode env' n d' = Inl e"
    using n(2) rows secrets [OF enc] refused [of "\<lparr>tgtHost = nodePublicIP n, tgtPort = nodeSSHPort n,
        tgtUser = nodeSSHUser n, tgtPrivateKey = slEncodeToMemory lib pem\<rparr>"]
    by (auto simp: connectToNode_def deploys_to_def GetSSHKey_def sql_row_def Let_def split: option.split sum.split)
  moreover have "\<exists>e. DeploySSHKey env' idstr kid d' = Inl e"
  proof (cases "ListNodes (seDB env' ''list nodes'') None listAll d'")
    case (Inr l)
    then obtain ns j where l: "ListNodes (seDB env' ''list nodes'') None listAll d' = Inr (ns, j)" by (cases l) auto
    then have "n \<in> set ns" using list_all_nodes [OF l] rows(1) n by simp
    then have "deploy_errors env' idstr kid (sshPublicKey k') (slEncodeToMemory lib pem) ns \<noteq> []"
      using n(2) push [of n "sshPublicKey k'"] by (induction ns) auto
    then show ?thesis
      using l rows secrets [OF enc]
      by (auto simp: DeploySSHKey_def GetSSHKey_def sql_row_def Let_def split: option.split)
  qed (auto simp: DeploySSHKey_def split: sum.split)
  ultimately show ?thesis using push by blast
qed

section \<open>Sample enrollments\<close>

definition sample_token :: EnrollmentToken where
  "sample_token = \<lparr>tokID = 21, tokTenantID = 7, tokTargetType = EnrollmentTargetNode, tokTargetID = 1, tokToken = ''tok'',
     tokExpiresAt = 100, tokUsedAt = None, tokCreatedAt = 3\<rparr>"

definition sample_key :: SSHKey where
  "sample_key = \<lparr>sshID = 4, sshName = ''k'', sshPublicKey = ''pub'', sshPrivateKey = ''old'', sshFingerprint = ''f'',
     sshCreatedAt = 0, sshLastRotatedAt = 0\<rparr>"

definition enroll_node :: Node where "enroll_node = (sample_node 1)\<lparr>nodeSSHKeyID := Some 4\<rparr>"

definition enroll_db :: db where
  "enroll_db = empty_db\<lparr>dbTenants := [sample_tenant], dbNodes := [enroll_node], dbSSHKeys := [sample_key],
     dbTokens := [sample_token]\<rparr>"

text \<open>An environment whose statement that marks the token has the outcome \<open>c\<close>.\<close>

definition enroll_env :: "conn \<Rightarrow> step_env" where
  "enroll_env c = (sample_env 31)\<lparr>seDB := (\<lambda>at. if at = ''mark token'' then c else fk_conn)\<rparr>"

lemma enroll_alloc:
  assumes "nodeWireGuardIP n = ''''"
  shows "AllocateOverlayIP ''10.100.0.0/24'' '''' [] [n] = Some (Inr (IPv4_string 0x0A640001))"
proof -
  let ?b = "0x0A640000 :: 32 word"
  have m: "?b AND mask32 24 = ?b" by (simp add: mask32_def mask_eq_exp_minus_1)
  have "IPv4_string 0x0A640001 \<notin> set (used4 (net4 ?b 24) ?b '''' [] [n])"
    using assms by (simp add: used4_taken4 taken4_def broadcastAddr_def net4_def m) (simp add: mask32_def mask_eq_exp_minus_1)
  moreover have "net_Contains (net4 ?b 24) (IP4 0x0A640001)"
    unfolding net4_Contains m by simp
  moreover have "AllocateOverlayIP ''10.100.0.0/24'' '''' [] [n] =
      alloc4_loop (net4 ?b 24) (used4 (net4 ?b 24) ?b '''' [] [n]) ''10.100.0.0/24'' 0x0A640001"
    unfolding AllocateOverlayIP_def parse_24 by (simp add: net4_def m incrementIP_def)
  ultimately show ?thesis by (simp add: alloc4_loop.simps [of _ _ _ "0x0A640001"])
qed

lemma enroll_node_sel [simp]:
  "nodeID enroll_node = 1" "nodeWireGuardIP enroll_node = ''''" "nodeTenantID enroll_node = Some 7"
  "nodeSSHKeyID enroll_node = Some 4" "nodeCapabilities enroll_node = [CapabilityDNS]" "nodeStatus enroll_node = NodeStatusPending"
  by (simp_all add: enroll_node_def sample_node_def)

lemma enroll_db_sel [simp]:
  "dbNodes enroll_db = [enroll_node]" "dbTokens enroll_db = [sample_token]" "dbPeers enroll_db = []"
  "dbTenants enroll_db = [sample_tenant]" "dbSSHKeys enroll_db = [sample_key]" "sshID sample_key = 4"
  by (simp_all add: enroll_db_def empty_db_def sample_key_def)

lemma enroll_env_sel [simp]:
  "seDB (enroll_env c) at = (if at = ''mark token'' then c else fk_conn)" "seNow (enroll_env c) = 5"
  "seNewID (enroll_env c) = 31" "seEncrypt (enroll_env c) s = Inr s" "seBase64 (enroll_env c) b = ''k''"
  "seRandKey (enroll_env c) = Inr (replicate 32 0)" "seRandPSK (enroll_env c) = Inr (replicate 32 0)"
  "seX25519 (enroll_env c) b = Inr b"
  by (simp_all add: enroll_env_def sample_env_def)

lemma enroll_peer:
  "\<exists>q m. ensure_peer (enroll_env c) sample_prov enroll_node enroll_db = Some (Inr m, enroll_db\<lparr>dbPeers := [q]\<rparr>) \<and>
     m = enroll_node\<lparr>nodeWireGuardIP := IPv4_string 0x0A640001\<rparr> \<and> peerOwnerType q = PeerOwnerNode \<and> peerOwnerID q = 1"
proof -
  have "prepare_peer (enroll_env c) sample_prov enroll_node enroll_db =
      Some (Inr (new_peer (enroll_env c) sample_prov enroll_node \<lparr>kpPrivateKey = ''k'', kpPublicKey = ''k''\<rparr> ''k'' ''k''
        [IPv4_string 0x0A640001 @ ''/32''], IPv4_string 0x0A640001, ''''))"
    using enroll_alloc [of enroll_node]
    by (simp add: prepare_peer_def GenerateWireGuardKeyPair_def GeneratePresharedKey_def Let_def allocate_addresses_def
        ListWireGuardPeers_def ListNodes_def sql_list_def sql_query_def page_def newest_first_def tenant_nodes_def
        listAll_def sample_prov_def)
  then show ?thesis
    by (simp add: ensure_peer_def GetWireGuardPeerByOwner_def sql_row_def CreateWireGuardPeer_def Let_def stmt_ok
        row_mem_iff peer_defaults_def new_peer_def sample_prov_def) (intro impI exI conjI, rule refl, simp_all)
qed

definition broken_conn :: conn where "broken_conn = \<lparr>connFK = True, connErr = Some ''disk I/O error''\<rparr>"

lemma sample_token_sel [simp]:
  "tokToken sample_token = ''tok''" "tokID sample_token = 21" "tokTargetID sample_token = 1"
  "tokUsedAt sample_token = None" "tokExpiresAt sample_token = 100"
  by (simp_all add: sample_token_def)

lemma enroll_start:
  "ValidateEnrollmentToken (enroll_env c) ''tok'' (enroll_db\<lparr>dbPeers := qs\<rparr>) = Inr sample_token"
  "GetNode fk_conn 1 (enroll_db\<lparr>dbPeers := qs\<rparr>) = Inr enroll_node"
  by (simp_all add: ValidateEnrollmentToken_def GetEnrollmentToken_def GetNode_def sql_row_def)

lemma enroll_finish:
  assumes "m = enroll_node\<lparr>nodeWireGuardIP := ip\<rparr>"
  shows "\<exists>d2 n' d3. MarkEnrollmentTokenUsed fk_conn 5 21 (enroll_db\<lparr>dbPeers := qs\<rparr>) = (Inr (), d2) \<and>
     UpdateNode fk_conn 5 (m\<lparr>nodeStatus := NodeStatusOnline\<rparr>) d2 = (Inr n', d3) \<and> nodeWireGuardIP n' = ip \<and> nodeID n' = 1"
  using assms
  by (simp add: MarkEnrollmentTokenUsed_def UpdateNode_def Let_def stmt_ok row_mem_def ref_opt_def sample_tenant_def)

lemma enroll_ok:
  "\<exists>res d'. CompleteEnrollment (enroll_env fk_conn) sample_prov ''tok'' enroll_db = Some (Inr res, d') \<and>
     erNodeID res = 1 \<and> erWireGuardIP res = IPv4_string 0x0A640001"
proof -
  have db: "enroll_db\<lparr>dbPeers := []\<rparr> = enroll_db" by (simp add: enroll_db_def empty_db_def)
  obtain q m where peer: "ensure_peer (enroll_env fk_conn) sample_prov enroll_node enroll_db = Some (Inr m, enroll_db\<lparr>dbPeers := [q]\<rparr>)"
    and m: "m = enroll_node\<lparr>nodeWireGuardIP := IPv4_string 0x0A640001\<rparr>"
    using enroll_peer by blast
  show ?thesis
    using enroll_start(1) [of fk_conn "[]"] enroll_start(2) [of "[]"] enroll_finish [OF m, of "[q]"] peer
    by (auto simp: CompleteEnrollment_def db Let_def)
qed

theorem enrollment_single_use_witness:
  "\<exists>res d' e. CompleteEnrollment (enroll_env fk_conn) sample_prov ''tok'' enroll_db = Some (Inr res, d') \<and>
     CompleteEnrollment (enroll_env fk_conn) sample_prov ''tok'' d' = Some (Inl e, d')"
  using enroll_ok enrollment_single_use [of "enroll_env fk_conn" sample_prov "''tok''" enroll_db] by blast



text \<open>Hosts that accept the old private key only.\<close>

definition old_key_env :: step_env where
  "old_key_env = (sample_env 31)\<lparr>seConnect := (\<lambda>t. if tgtPrivateKey t = ''old'' then Inr () else Inl (Errorf ''handshake failed''))\<rparr>"

definition sample_lib :: ssh_lib where
  "sample_lib = \<lparr>slGenerateKey = Inr (''p'', ''s''), slNewPublicKey = (\<lambda>k. Inr k), slMarshalAuthorizedKey = (\<lambda>k. k @ nl),
     slMarshalPrivateKey = (\<lambda>k. Inr k), slEncodeToMemory = (\<lambda>k. k), slFingerprintSHA256 = (\<lambda>k. k)\<rparr>"

definition online_db :: db where
  "online_db = enroll_db\<lparr>dbNodes := [enroll_node\<lparr>nodeStatus := NodeStatusOnline\<rparr>]\<rparr>"

theorem rotation_locks_out_witness:
  "\<exists>key d' e. DeploySSHKey old_key_env (\<lambda>_. '''') 4 online_db = Inr () \<and>
     RotateSSHKey old_key_env sample_lib 4 online_db = (Inr key, d') \<and>
     DeploySSHKey old_key_env (\<lambda>_. '''') 4 d' = Inl e"
proof -
  have db: "dbSSHKeys online_db = [sample_key]" "dbNodes online_db = [enroll_node\<lparr>nodeStatus := NodeStatusOnline\<rparr>]"
    by (simp_all add: online_db_def)
  have env: "seDB old_key_env at = fk_conn" "seDecrypt old_key_env s = Inr s" "seEncrypt old_key_env s = Inr s"
    "seConnect old_key_env t = (if tgtPrivateKey t = ''old'' then Inr () else Inl (Errorf ''handshake failed''))"
    "seRun old_key_env c = (''active'', None)" for at s t c
    by (simp_all add: old_key_env_def sample_env_def)
  have lib: "slGenerateKey sample_lib = Inr (''p'', ''s'')" "slMarshalPrivateKey sample_lib k = Inr k"
    "slEncodeToMemory sample_lib k = k" "slNewPublicKey sample_lib k = Inr k" for k
    by (simp_all add: sample_lib_def)
  have "DeploySSHKey old_key_env (\<lambda>_. '''') 4 online_db = Inr ()"
    by (simp add: DeploySSHKey_def GetSSHKey_def sql_row_def env db ListNodes_def sql_list_def sql_query_def page_def
        newest_first_def tenant_nodes_def listAll_def deploys_to_def deployKeyToNode_def deploy_target_def)
      (simp add: sample_key_def)
  moreover obtain key d' where rot: "RotateSSHKey old_key_env sample_lib 4 online_db = (Inr key, d')"
    by (simp add: RotateSSHKey_def GetSSHKey_def sql_row_def env lib db UpdateSSHKey_def stmt_ok row_mem_def Let_def)
  moreover have "\<exists>e. DeploySSHKey old_key_env (\<lambda>_. '''') 4 d' = Inl e"
    using rotation_locks_out [OF rot lib(1,2), of old_key_env "enroll_node\<lparr>nodeStatus := NodeStatusOnline\<rparr>"]
    by (simp add: env lib db deploys_to_def)
  ultimately show ?thesis by blast
qed

end
