(* ===== verification/EF_Service.thy ===== *)
theory EF_Service
  imports EF_Schema EF_Net
begin

text \<open>
  What the controller's services share: the environment of a service call, and string
  functions of the standard library.

  A service call meets the store at several places; \<open>svDB\<close> gives the connection of the
  call at each place of the code, named by a label and, inside a loop, by the round.
  The clock and the fresh identifier are the other two inputs.
\<close>

record svc_env =
  svDB :: "string \<Rightarrow> conn"
  svNow :: Time
  svNewID :: ID

definition round_label :: "string \<Rightarrow> nat \<Rightarrow> string" where
  "round_label s i = s @ '' #'' @ utoa i"

text \<open>The label of a failed operation around its error: \<open>fmt.Errorf("...: %w", err)\<close>.\<close>

definition wrap :: "string \<Rightarrow> 'a dbres \<Rightarrow> 'a dbres" where
  "wrap label r = (case r of (Inl e, d) \<Rightarrow> (Inl (Wrapf label e), d) | (Inr x, d) \<Rightarrow> (Inr x, d))"

lemma wrap_simps [simp]:
  "wrap label (Inl e, d) = (Inl (Wrapf label e), d)" "wrap label (Inr x, d) = (Inr x, d)"
  by (simp_all add: wrap_def)

lemma snd_wrap [simp]: "snd (wrap label r) = snd r"
  by (auto simp: wrap_def split: prod.split sum.split)

lemma fst_wrap_Inr [simp]: "fst (wrap label r) = Inr x \<longleftrightarrow> fst r = Inr x"
  by (auto simp: wrap_def split: prod.split sum.split)

section \<open>Strings\<close>

text \<open>\<open>strings.SplitN(s, sep, n)\<close> with a one-byte separator and \<open>n > 0\<close>.\<close>

fun SplitN :: "string \<Rightarrow> char \<Rightarrow> nat \<Rightarrow> string list" where
  "SplitN s c 0 = []"
| "SplitN s c (Suc 0) = [s]"
| "SplitN s c (Suc (Suc n)) =
     (case dropWhile (\<lambda>x. x \<noteq> c) s of
        [] \<Rightarrow> [s]
      | _ # rest \<Rightarrow> takeWhile (\<lambda>x. x \<noteq> c) s # SplitN rest c (Suc n))"

definition is_alpha :: "char \<Rightarrow> bool" where
  "is_alpha c = ((65 \<le> (of_char c :: nat) \<and> (of_char c :: nat) \<le> 90) \<or> (97 \<le> (of_char c :: nat) \<and> (of_char c :: nat) \<le> 122))"

section \<open>Host and port\<close>

text \<open>\<open>strings.Cut\<close> at the last occurrence of a byte.\<close>

definition cut_last :: "string \<Rightarrow> char \<Rightarrow> (string \<times> string) option" where
  "cut_last s c =
     (if c \<in> set s
      then Some (rev (tl (dropWhile (\<lambda>x. x \<noteq> c) (rev s))), rev (takeWhile (\<lambda>x. x \<noteq> c) (rev s)))
      else None)"

text \<open>
  \<open>net.SplitHostPort\<close>: the host and the port of \<open>host:port\<close> or \<open>[host]:port\<close>; \<open>None\<close>
  when it returns an error.
\<close>

definition SplitHostPort :: "string \<Rightarrow> (string \<times> string) option" where
  "SplitHostPort hostport =
     (case cut_last hostport CHR '':'' of
        None \<Rightarrow> None
      | Some (before, port) \<Rightarrow>
          if hd hostport = CHR ''['' then
            (let inner = takeWhile (\<lambda>x. x \<noteq> CHR '']'') (tl hostport);
                 rest = dropWhile (\<lambda>x. x \<noteq> CHR '']'') (tl hostport)
             in if rest = CHR '']'' # CHR '':'' # port \<and> CHR ''['' \<notin> set inner \<and> CHR ''['' \<notin> set port \<and> CHR '']'' \<notin> set port
                then Some (inner, port) else None)
          else if CHR '':'' \<in> set before \<or> CHR ''['' \<in> set hostport \<or> CHR '']'' \<in> set hostport then None
          else Some (before, port))"

end
