(* ===== verification/EF_NodeConfig.thy ===== *)
theory EF_NodeConfig
  imports EF_Service
begin

text \<open>
  The configuration snapshots that nodes poll.  \<open>GetNodeDNSConfig\<close>, \<open>GetNodeCDNConfig\<close> and
  \<open>GetNodeRouteConfig\<close> have the same shape: for every group of the node, list the rows of
  the group's tenant, keep those that are active and assigned to the group, skip what
  an earlier group has already given, and load what belongs to each row.  The locale
  states what one round of each loop does, and derives what the whole snapshot holds;
  the three services interpret it.

  \<open>inner g seen items seen' cfg\<close> says that the loop over the rows \<open>items\<close> of one group can give
  the entries \<open>cfg\<close>, and \<open>outer seen gs cfg\<close> that the loop over the groups can.
\<close>

definition listLimit :: ListParams where "listLimit = \<lparr>lpOffset = 0, lpLimit = 10000\<rparr>"

locale node_config =
  fixes rows :: "ID \<Rightarrow> 'i set"
    and iid :: "'i \<Rightarrow> ID"
    and wanted :: "NodeGroup \<Rightarrow> 'i \<Rightarrow> bool"
    and item_of :: "'c \<Rightarrow> 'i"
    and loaded :: "'c \<Rightarrow> bool"
    and inner :: "NodeGroup \<Rightarrow> ID list \<Rightarrow> 'i list \<Rightarrow> ID list \<Rightarrow> 'c list \<Rightarrow> bool"
    and outer :: "ID list \<Rightarrow> NodeGroup list \<Rightarrow> 'c list \<Rightarrow> bool"
  assumes inner_Nil: "inner g seen [] seen' cfg \<Longrightarrow> seen' = seen \<and> cfg = []"
    and inner_skip: "\<lbrakk>inner g seen (i # items) seen' cfg; \<not> wanted g i \<or> iid i \<in> set seen\<rbrakk>
        \<Longrightarrow> inner g seen items seen' cfg"
    and inner_take: "\<lbrakk>inner g seen (i # items) seen' cfg; wanted g i; iid i \<notin> set seen\<rbrakk>
        \<Longrightarrow> \<exists>c cfg'. cfg = c # cfg' \<and> item_of c = i \<and> loaded c \<and> inner g (iid i # seen) items seen' cfg'"
    and outer_Nil: "outer seen [] cfg \<Longrightarrow> cfg = []"
    and outer_Cons: "outer seen (g # gs) cfg
        \<Longrightarrow> \<exists>items seen' c1 c2. set items = rows (groupTenantID g) \<and> inner g seen items seen' c1 \<and>
              outer seen' gs c2 \<and> cfg = c1 @ c2"
begin

definition entry_id :: "'c \<Rightarrow> ID" where
  "entry_id c = iid (item_of c)"

definition assigned_rows :: "NodeGroup set \<Rightarrow> 'i set" where
  "assigned_rows G = {i. \<exists>g\<in>G. i \<in> rows (groupTenantID g) \<and> wanted g i}"

lemma inner_spec:
  assumes "inner g seen items seen' cfg"
  shows "set seen' = set seen \<union> entry_id ` set cfg \<and> distinct (map entry_id cfg) \<and>
    set seen \<inter> entry_id ` set cfg = {} \<and> item_of ` set cfg \<subseteq> {i \<in> set items. wanted g i} \<and>
    iid ` {i \<in> set items. wanted g i} \<subseteq> set seen' \<and> list_all loaded cfg"
  using assms
proof (induction items arbitrary: seen cfg)
  case Nil
  then show ?case using inner_Nil [of g seen seen' cfg] by simp
next
  case (Cons i items)
  show ?case
  proof (cases "wanted g i \<and> iid i \<notin> set seen")
    case True
    obtain c cfg' where c: "cfg = c # cfg'" "item_of c = i" "loaded c"
      and rest: "inner g (iid i # seen) items seen' cfg'"
      using inner_take [OF Cons.prems] True by blast
    have "entry_id c = iid i" by (simp add: entry_id_def c(2))
    then show ?thesis
      using Cons.IH [OF rest] True by (auto simp: c)
  next
    case False
    then have "inner g seen items seen' cfg" using inner_skip [OF Cons.prems] by blast
    from Cons.IH [OF this] False show ?thesis by auto
  qed
qed

lemma outer_spec:
  assumes "outer seen gs cfg"
  shows "distinct (map entry_id cfg) \<and> set seen \<inter> entry_id ` set cfg = {} \<and>
     item_of ` set cfg \<subseteq> assigned_rows (set gs) \<and>
     iid ` assigned_rows (set gs) \<subseteq> set seen \<union> entry_id ` set cfg \<and> list_all loaded cfg"
  using assms
proof (induction gs arbitrary: seen cfg)
  case Nil
  then show ?case using outer_Nil [of seen cfg] by (simp add: assigned_rows_def)
next
  case (Cons g gs)
  obtain items seen' c1 c2 where items: "set items = rows (groupTenantID g)"
    and one: "inner g seen items seen' c1" and rest: "outer seen' gs c2" and cfg: "cfg = c1 @ c2"
    using outer_Cons [OF Cons.prems] by blast
  have split: "assigned_rows (set (g # gs)) = {i \<in> set items. wanted g i} \<union> assigned_rows (set gs)"
    by (auto simp: assigned_rows_def items)
  note c1 = inner_spec [OF one] and c2 = Cons.IH [OF rest]
  have "set seen \<union> entry_id ` set c1 = set seen'" using c1 by simp
  moreover have "entry_id ` set c1 \<inter> entry_id ` set c2 = {}" "set seen \<inter> entry_id ` set c2 = {}"
    using c1 c2 by auto
  ultimately have ids: "distinct (map entry_id cfg)" "set seen \<inter> entry_id ` set cfg = {}"
    "set seen \<union> entry_id ` set cfg = set seen' \<union> entry_id ` set c2"
    using c1 c2 by (auto simp: cfg image_Un)
  have "item_of ` set cfg \<subseteq> {i \<in> set items. wanted g i} \<union> assigned_rows (set gs)"
    using c1 c2 by (simp add: cfg image_Un le_supI1 le_supI2)
  moreover have "iid ` ({i \<in> set items. wanted g i} \<union> assigned_rows (set gs)) \<subseteq> set seen' \<union> entry_id ` set c2"
  proof -
    have "iid ` {i \<in> set items. wanted g i} \<subseteq> set seen'" using c1 by (elim conjE)
    moreover have "iid ` assigned_rows (set gs) \<subseteq> set seen' \<union> entry_id ` set c2"
      using c2 by (elim conjE)
    ultimately show ?thesis by (simp only: image_Un Un_least le_supI1)
  qed
  ultimately show ?case
    unfolding split using ids c1 c2 by (simp add: cfg)
qed

lemma snapshot_exact:
  assumes "outer [] gs cfg"
  shows "distinct (map (\<lambda>c. iid (item_of c)) cfg)"
    "item_of ` set cfg \<subseteq> {i. \<exists>g\<in>set gs. i \<in> rows (groupTenantID g) \<and> wanted g i}"
    "(\<lambda>c. iid (item_of c)) ` set cfg = iid ` {i. \<exists>g\<in>set gs. i \<in> rows (groupTenantID g) \<and> wanted g i}"
    "list_all loaded cfg"
proof -
  have id: "entry_id = (\<lambda>c. iid (item_of c))" by (simp add: fun_eq_iff entry_id_def)
  note spec = outer_spec [OF assms, unfolded assigned_rows_def id]
  then show "distinct (map (\<lambda>c. iid (item_of c)) cfg)"
    "item_of ` set cfg \<subseteq> {i. \<exists>g\<in>set gs. i \<in> rows (groupTenantID g) \<and> wanted g i}"
    "list_all loaded cfg" by simp_all
  have "(\<lambda>c. iid (item_of c)) ` set cfg = iid ` (item_of ` set cfg)" by (simp add: image_image)
  moreover have "iid ` (item_of ` set cfg) \<subseteq> iid ` {i. \<exists>g\<in>set gs. i \<in> rows (groupTenantID g) \<and> wanted g i}"
    using spec by (intro image_mono) (elim conjE)
  ultimately show "(\<lambda>c. iid (item_of c)) ` set cfg =
      iid ` {i. \<exists>g\<in>set gs. i \<in> rows (groupTenantID g) \<and> wanted g i}"
    using spec by (intro subset_antisym) simp_all
qed

end

section \<open>Sample calls\<close>

definition ok_env :: "ID \<Rightarrow> svc_env" where
  "ok_env i = \<lparr>svDB = (\<lambda>_. fk_conn), svNow = 5, svNewID = i\<rparr>"

definition sample_group :: NodeGroup where
  "sample_group = \<lparr>groupID = 3, groupTenantID = 7, groupName = ''edge'', groupDescription = '''', groupCreatedAt = 0, groupUpdatedAt = 0\<rparr>"

end
