(* ===== verification/EF_DNS.thy ===== *)
theory EF_DNS
  imports EF_NodeConfig
begin

text \<open>
  \<open>internal/dns\<close>: the controller's management of zones and records.

  The validators of \<open>validation.go\<close> return the error, if any; the operations of
  \<open>dns.go\<close> run on the database.  The lemmas show that the host name pattern accepts
  exactly dot-separated labels, that the record operations keep a CNAME the only record
  of its name and step the serial of the zone, and which zones a node is given.
\<close>

section \<open>Validation\<close>

text \<open>
  \<open>hostnameRegex\<close>.  Every label but the last may contain underscores; a label starts and
  ends with a letter or digit (or underscore) and has at most 63 characters; one dot may
  follow the last label.
\<close>

definition alnum :: "char \<Rightarrow> bool" where "alnum c = (is_alpha c \<or> is_digit c)"
definition alnum_us :: "char \<Rightarrow> bool" where "alnum_us c = (alnum c \<or> c = CHR ''_'')"

definition label_ok :: "(char \<Rightarrow> bool) \<Rightarrow> string \<Rightarrow> bool" where
  "label_ok edge l =
     (l \<noteq> [] \<and> length l \<le> 63 \<and> edge (hd l) \<and> edge (last l) \<and> list_all (\<lambda>c. edge c \<or> c = CHR ''-'') l)"

definition hostname_match :: "string \<Rightarrow> bool" where
  "hostname_match s =
     (let labels = Split (TrimSuffix s ''.'') CHR ''.''
      in list_all (label_ok alnum_us) (butlast labels) \<and> label_ok alnum (last labels))"

definition validateZoneName :: "string \<Rightarrow> error option" where
  "validateZoneName name =
     (if name = '''' then Some (Errorf ''zone name is required'')
      else let clean = TrimSuffix name ''.''
           in if length clean > 253 then Some (Errorf ''zone name too long (max 253 characters)'')
              else if \<not> hostname_match clean then Some (Errorf ''invalid zone name'')
              else None)"

definition isValidHostname :: "string \<Rightarrow> bool" where
  "isValidHostname s =
     (if s = '''' then False
      else let clean = TrimSuffix s ''.''
           in if length clean > 253 then False else hostname_match clean)"

definition validateA :: "DNSRecord \<Rightarrow> error option" where
  "validateA r =
     (case ParseIP (recValue r) of
        None \<Rightarrow> Some (Errorf ''A record value must be a valid IP address'')
      | Some ip \<Rightarrow> if To4 ip = None then Some (Errorf ''A record value must be an IPv4 address'') else None)"

definition validateAAAA :: "DNSRecord \<Rightarrow> error option" where
  "validateAAAA r =
     (case ParseIP (recValue r) of
        None \<Rightarrow> Some (Errorf ''AAAA record value must be a valid IP address'')
      | Some ip \<Rightarrow> if To4 ip \<noteq> None then Some (Errorf ''AAAA record value must be an IPv6 address, not IPv4'') else None)"

definition validateCNAME :: "DNSRecord \<Rightarrow> error option" where
  "validateCNAME r =
     (if \<not> isValidHostname (recValue r) then Some (Errorf ''CNAME record value must be a valid hostname'') else None)"

definition validateMX :: "DNSRecord \<Rightarrow> error option" where
  "validateMX r =
     (case recPriority r of
        None \<Rightarrow> Some (Errorf ''MX record requires priority'')
      | Some p \<Rightarrow>
          if p < 0 \<or> p > 65535 then Some (Errorf ''MX record priority must be 0-65535'')
          else if \<not> isValidHostname (recValue r) then Some (Errorf ''MX record value must be a valid hostname'')
          else None)"

definition validateTXT :: "DNSRecord \<Rightarrow> error option" where
  "validateTXT r = None"

definition validateNS :: "DNSRecord \<Rightarrow> error option" where
  "validateNS r =
     (if \<not> isValidHostname (recValue r) then Some (Errorf ''NS record value must be a valid hostname'') else None)"

definition validateSRV :: "DNSRecord \<Rightarrow> error option" where
  "validateSRV r =
     (case recPriority r of
        None \<Rightarrow> Some (Errorf ''SRV record requires priority'')
      | Some p \<Rightarrow>
     (case recWeight r of
        None \<Rightarrow> Some (Errorf ''SRV record requires weight'')
      | Some w \<Rightarrow>
     (case recPort r of
        None \<Rightarrow> Some (Errorf ''SRV record requires port'')
      | Some po \<Rightarrow>
          if p < 0 \<or> p > 65535 then Some (Errorf ''SRV record priority must be 0-65535'')
          else if w < 0 \<or> w > 65535 then Some (Errorf ''SRV record weight must be 0-65535'')
          else if po < 0 \<or> po > 65535 then Some (Errorf ''SRV record port must be 0-65535'')
          else if \<not> isValidHostname (recValue r) then Some (Errorf ''SRV record target must be a valid hostname'')
          else None)))"

definition validateCAA :: "DNSRecord \<Rightarrow> error option" where
  "validateCAA r =
     (case SplitN (recValue r) CHR '' '' 3 of
        flag # tag # _ # _ \<Rightarrow>
          if flag \<noteq> ''0'' \<and> flag \<noteq> ''128'' then Some (Errorf ''CAA record flag must be 0 or 128'')
          else if ToLower tag \<noteq> ''issue'' \<and> ToLower tag \<noteq> ''issuewild'' \<and> ToLower tag \<noteq> ''iodef''
          then Some (Errorf ''CAA record tag must be issue, issuewild, or iodef'')
          else None
      | _ \<Rightarrow> Some (Errorf ''CAA record value must be in format flag tag value''))"

definition validatePTR :: "DNSRecord \<Rightarrow> error option" where
  "validatePTR r =
     (if \<not> isValidHostname (recValue r) then Some (Errorf ''PTR record value must be a valid hostname'') else None)"

definition validateRecord :: "DNSRecord \<Rightarrow> error option" where
  "validateRecord r =
     (if recName r = '''' then Some (Errorf ''record name is required'')
      else if recValue r = '''' then Some (Errorf ''record value is required'')
      else if recType r = DNSRecordTypeOther '''' then Some (Errorf ''record type is required'')
      else case recType r of
             DNSRecordTypeA \<Rightarrow> validateA r
           | DNSRecordTypeAAAA \<Rightarrow> validateAAAA r
           | DNSRecordTypeCNAME \<Rightarrow> validateCNAME r
           | DNSRecordTypeMX \<Rightarrow> validateMX r
           | DNSRecordTypeTXT \<Rightarrow> validateTXT r
           | DNSRecordTypeNS \<Rightarrow> validateNS r
           | DNSRecordTypeSRV \<Rightarrow> validateSRV r
           | DNSRecordTypeCAA \<Rightarrow> validateCAA r
           | DNSRecordTypePTR \<Rightarrow> validatePTR r
           | DNSRecordTypeOther _ \<Rightarrow> Some (Errorf ''unsupported record type''))"

fun validateTransferAllowedIPs :: "string list \<Rightarrow> error option" where
  "validateTransferAllowedIPs [] = None"
| "validateTransferAllowedIPs (entry # ips) =
     (if ParseIP entry \<noteq> None then validateTransferAllowedIPs ips
      else if ParseCIDR entry \<noteq> None then validateTransferAllowedIPs ips
      else Some (Errorf ''invalid IP or CIDR in transfer_allowed_ips''))"

definition checkCNAMEExclusivity :: "DNSRecord list \<Rightarrow> DNSRecord \<Rightarrow> error option" where
  "checkCNAMEExclusivity existingRecords newRecord =
     (if recType newRecord = DNSRecordTypeCNAME \<and>
         list_ex (\<lambda>r. recName r = recName newRecord \<and> recID r \<noteq> recID newRecord) existingRecords
      then Some (Errorf ''CNAME record conflicts with existing record'')
      else if list_ex (\<lambda>r. recName r = recName newRecord \<and> recType r = DNSRecordTypeCNAME \<and> recID r \<noteq> recID newRecord)
                existingRecords
      then Some (Errorf ''cannot add record: CNAME record already exists'')
      else None)"

section \<open>Requests and the configuration of a node\<close>

record CreateZoneRequest =
  czTenantID :: ID
  czName :: string
  czTTL :: int
  czNodeGroupID :: "ID option"
  czTransferAllowedIPs :: "string list"

record UpdateZoneRequest =
  uzName :: "string option"
  uzStatus :: "DNSZoneStatus option"
  uzTTL :: "int option"
  uzNodeGroupID :: "ID option"
  uzClearNodeGroup :: bool
  uzTransferAllowedIPs :: "string list option"

record CreateRecordRequest =
  crZoneID :: ID
  crName :: string
  crType :: DNSRecordType
  crValue :: string
  crTTL :: "int option"
  crPriority :: "int option"
  crWeight :: "int option"
  crPort :: "int option"

record UpdateRecordRequest =
  urName :: "string option"
  urType :: "DNSRecordType option"
  urValue :: "string option"
  urTTL :: "int option"
  urPriority :: "int option"
  urWeight :: "int option"
  urPort :: "int option"

record ZoneWithRecords =
  zwrZone :: DNSZone
  zwrRecords :: "DNSRecord list"

type_synonym NodeDNSConfig = "ZoneWithRecords list"

section \<open>Zones\<close>

definition request_zone :: "ID \<Rightarrow> CreateZoneRequest \<Rightarrow> DNSZone" where
  "request_zone i req =
     \<lparr>zoneID = i, zoneTenantID = czTenantID req, zoneName = czName req, zoneStatus = DNSZoneStatusOther '''',
      zoneSerial = 0, zoneTTL = czTTL req, zoneNodeGroupID = czNodeGroupID req,
      zoneTransferAllowedIPs = czTransferAllowedIPs req, zoneCreatedAt = 0, zoneUpdatedAt = 0\<rparr>"

definition CreateZone :: "svc_env \<Rightarrow> CreateZoneRequest \<Rightarrow> db \<Rightarrow> DNSZone dbres" where
  "CreateZone env req d =
     (case validateZoneName (czName req) of
        Some e \<Rightarrow> (Inl (Wrapf ''invalid zone'' e), d)
      | None \<Rightarrow>
     (case validateTransferAllowedIPs (czTransferAllowedIPs req) of
        Some e \<Rightarrow> (Inl (Wrapf ''invalid zone'' e), d)
      | None \<Rightarrow> wrap ''create zone'' (CreateDNSZone (svDB env ''create'') (svNow env) (request_zone (svNewID env) req) d)))"

definition GetZone :: "svc_env \<Rightarrow> ID \<Rightarrow> db \<Rightarrow> DNSZone result" where
  "GetZone env i d = GetDNSZone (svDB env ''get'') i d"

definition ListZones :: "svc_env \<Rightarrow> ID \<Rightarrow> ListParams \<Rightarrow> db \<Rightarrow> (DNSZone list \<times> int) result" where
  "ListZones env tenant p d = ListDNSZones (svDB env ''list'') tenant p d"

text \<open>The field updates of \<open>UpdateZone\<close>, with the two checks at their places.\<close>

definition update_zone_fields :: "UpdateZoneRequest \<Rightarrow> DNSZone \<Rightarrow> DNSZone result" where
  "update_zone_fields req z =
     (case (case uzName req of None \<Rightarrow> None | Some name \<Rightarrow> validateZoneName name) of
        Some e \<Rightarrow> Inl (Wrapf ''invalid zone name'' e)
      | None \<Rightarrow>
          (let z = (case uzName req of None \<Rightarrow> z | Some name \<Rightarrow> z\<lparr>zoneName := name\<rparr>);
               z = (case uzStatus req of None \<Rightarrow> z | Some st \<Rightarrow> z\<lparr>zoneStatus := st\<rparr>);
               z = (case uzTTL req of None \<Rightarrow> z | Some ttl \<Rightarrow> z\<lparr>zoneTTL := ttl\<rparr>);
               z = (if uzClearNodeGroup req then z\<lparr>zoneNodeGroupID := None\<rparr>
                    else if uzNodeGroupID req \<noteq> None then z\<lparr>zoneNodeGroupID := uzNodeGroupID req\<rparr> else z)
           in case uzTransferAllowedIPs req of
                None \<Rightarrow> Inr z
              | Some ips \<Rightarrow>
                  (case validateTransferAllowedIPs ips of
                     Some e \<Rightarrow> Inl (Wrapf ''invalid transfer allowed IPs'' e)
                   | None \<Rightarrow> Inr (z\<lparr>zoneTransferAllowedIPs := ips\<rparr>))))"

definition UpdateZone :: "svc_env \<Rightarrow> ID \<Rightarrow> UpdateZoneRequest \<Rightarrow> db \<Rightarrow> DNSZone dbres" where
  "UpdateZone env i req d =
     (case GetDNSZone (svDB env ''get'') i d of
        Inl e \<Rightarrow> (Inl e, d)
      | Inr z \<Rightarrow>
          (case update_zone_fields req z of
             Inl e \<Rightarrow> (Inl e, d)
           | Inr z \<Rightarrow> wrap ''update zone'' (UpdateDNSZone (svDB env ''update'') (svNow env) z d)))"

definition DeleteZone :: "svc_env \<Rightarrow> ID \<Rightarrow> db \<Rightarrow> unit dbres" where
  "DeleteZone env i d = DeleteDNSZone (svDB env ''delete'') i d"

section \<open>Records\<close>

text \<open>The checks that \<open>CreateRecord\<close> and \<open>UpdateRecord\<close> share.\<close>

definition record_allowed :: "svc_env \<Rightarrow> DNSRecord \<Rightarrow> db \<Rightarrow> error option" where
  "record_allowed env r d =
     (case validateRecord r of
        Some e \<Rightarrow> Some (Wrapf ''invalid record'' e)
      | None \<Rightarrow>
     (case ListDNSRecords (svDB env ''list records'') (recZoneID r) listLimit d of
        Inl e \<Rightarrow> Some (Wrapf ''list records for cname check'' e)
      | Inr (existing, _) \<Rightarrow>
     (case checkCNAMEExclusivity existing r of
        Some e \<Rightarrow> Some (Wrapf ''cname exclusivity'' e)
      | None \<Rightarrow> None)))"

text \<open>The last statement of the record operations: the zone's serial.\<close>

definition then_increment :: "svc_env \<Rightarrow> ID \<Rightarrow> 'a dbres \<Rightarrow> 'a dbres" where
  "then_increment env zone r =
     (case r of
        (Inl e, d) \<Rightarrow> (Inl e, d)
      | (Inr x, d) \<Rightarrow>
          (case IncrementDNSZoneSerial (svDB env ''increment'') (svNow env) zone d of
             (Inl e, d') \<Rightarrow> (Inl (Wrapf ''increment serial'' e), d')
           | (Inr _, d') \<Rightarrow> (Inr x, d')))"

definition request_record :: "ID \<Rightarrow> CreateRecordRequest \<Rightarrow> DNSRecord" where
  "request_record i req =
     \<lparr>recID = i, recZoneID = crZoneID req, recName = crName req, recType = crType req, recValue = crValue req,
      recTTL = crTTL req, recPriority = crPriority req, recWeight = crWeight req, recPort = crPort req,
      recCreatedAt = 0, recUpdatedAt = 0\<rparr>"

definition CreateRecord :: "svc_env \<Rightarrow> CreateRecordRequest \<Rightarrow> db \<Rightarrow> DNSRecord dbres" where
  "CreateRecord env req d =
     (case GetDNSZone (svDB env ''get zone'') (crZoneID req) d of
        Inl e \<Rightarrow> (Inl (Wrapf ''zone lookup'' e), d)
      | Inr _ \<Rightarrow>
          (let r = request_record (svNewID env) req
           in case record_allowed env r d of
                Some e \<Rightarrow> (Inl e, d)
              | None \<Rightarrow> then_increment env (crZoneID req)
                          (wrap ''create record'' (CreateDNSRecord (svDB env ''create'') (svNow env) r d))))"

definition GetRecord :: "svc_env \<Rightarrow> ID \<Rightarrow> db \<Rightarrow> DNSRecord result" where
  "GetRecord env i d = GetDNSRecord (svDB env ''get'') i d"

definition ListRecords :: "svc_env \<Rightarrow> ID \<Rightarrow> ListParams \<Rightarrow> db \<Rightarrow> (DNSRecord list \<times> int) result" where
  "ListRecords env zone p d = ListDNSRecords (svDB env ''list'') zone p d"

definition update_record_fields :: "UpdateRecordRequest \<Rightarrow> DNSRecord \<Rightarrow> DNSRecord" where
  "update_record_fields req r =
     (let r = (case urName req of None \<Rightarrow> r | Some x \<Rightarrow> r\<lparr>recName := x\<rparr>);
          r = (case urType req of None \<Rightarrow> r | Some x \<Rightarrow> r\<lparr>recType := x\<rparr>);
          r = (case urValue req of None \<Rightarrow> r | Some x \<Rightarrow> r\<lparr>recValue := x\<rparr>);
          r = (case urTTL req of None \<Rightarrow> r | Some x \<Rightarrow> r\<lparr>recTTL := Some x\<rparr>);
          r = (case urPriority req of None \<Rightarrow> r | Some x \<Rightarrow> r\<lparr>recPriority := Some x\<rparr>);
          r = (case urWeight req of None \<Rightarrow> r | Some x \<Rightarrow> r\<lparr>recWeight := Some x\<rparr>)
      in case urPort req of None \<Rightarrow> r | Some x \<Rightarrow> r\<lparr>recPort := Some x\<rparr>)"

definition UpdateRecord :: "svc_env \<Rightarrow> ID \<Rightarrow> UpdateRecordRequest \<Rightarrow> db \<Rightarrow> DNSRecord dbres" where
  "UpdateRecord env i req d =
     (case GetDNSRecord (svDB env ''get'') i d of
        Inl e \<Rightarrow> (Inl e, d)
      | Inr r \<Rightarrow>
          (let r = update_record_fields req r
           in case record_allowed env r d of
                Some e \<Rightarrow> (Inl e, d)
              | None \<Rightarrow> then_increment env (recZoneID r)
                          (wrap ''update record'' (UpdateDNSRecord (svDB env ''update'') (svNow env) r d))))"

definition DeleteRecord :: "svc_env \<Rightarrow> ID \<Rightarrow> db \<Rightarrow> unit dbres" where
  "DeleteRecord env i d =
     (case GetDNSRecord (svDB env ''get'') i d of
        Inl e \<Rightarrow> (Inl e, d)
      | Inr r \<Rightarrow> then_increment env (recZoneID r)
                    (wrap ''delete record'' (DeleteDNSRecord (svDB env ''delete'') i d)))"

section \<open>The configuration of a node\<close>

text \<open>
  The two loops of \<open>GetNodeDNSConfig\<close>; \<open>seen\<close> holds the zones that are in the
  configuration already.  The rounds number the store calls of the loops.
\<close>

fun config_zones ::
  "svc_env \<Rightarrow> nat \<Rightarrow> NodeGroup \<Rightarrow> ID list \<Rightarrow> DNSZone list \<Rightarrow> db \<Rightarrow> (ID list \<times> NodeDNSConfig) result" where
  "config_zones env k g seen [] d = Inr (seen, [])"
| "config_zones env k g seen (z # zs) d =
     (if zoneNodeGroupID z \<noteq> Some (groupID g) \<or> zoneStatus z \<noteq> DNSZoneActive \<or> zoneID z \<in> set seen
      then config_zones env (k + 1) g seen zs d
      else (case ListDNSRecords (svDB env (round_label ''list records'' k)) (zoneID z) listLimit d of
              Inl e \<Rightarrow> Inl (Wrapf ''list records for zone'' e)
            | Inr (records, _) \<Rightarrow>
                (case config_zones env (k + 1) g (zoneID z # seen) zs d of
                   Inl e \<Rightarrow> Inl e
                 | Inr (seen', cfg) \<Rightarrow> Inr (seen', \<lparr>zwrZone = z, zwrRecords = records\<rparr> # cfg))))"

fun config_groups :: "svc_env \<Rightarrow> nat \<Rightarrow> ID list \<Rightarrow> NodeGroup list \<Rightarrow> db \<Rightarrow> NodeDNSConfig result" where
  "config_groups env k seen [] d = Inr []"
| "config_groups env k seen (g # gs) d =
     (case ListDNSZones (svDB env (round_label ''list zones'' k)) (groupTenantID g) listLimit d of
        Inl e \<Rightarrow> Inl (Wrapf ''list zones for group'' e)
      | Inr (zones, _) \<Rightarrow>
          (case config_zones env (k * 10000) g seen zones d of
             Inl e \<Rightarrow> Inl e
           | Inr (seen', cfg) \<Rightarrow>
               (case config_groups env (k + 1) seen' gs d of
                  Inl e \<Rightarrow> Inl e
                | Inr cfg' \<Rightarrow> Inr (cfg @ cfg'))))"

definition GetNodeDNSConfig :: "svc_env \<Rightarrow> ID \<Rightarrow> db \<Rightarrow> NodeDNSConfig result" where
  "GetNodeDNSConfig env nid d =
     (case GetNode (svDB env ''get node'') nid d of
        Inl e \<Rightarrow> Inl (Wrapf ''get node'' e)
      | Inr _ \<Rightarrow>
          (case ListNodeGroups_ByNode (svDB env ''list groups'') nid d of
             Inl e \<Rightarrow> Inl (Wrapf ''list node groups'' e)
           | Inr groups \<Rightarrow> config_groups env 0 [] groups d))"

section \<open>Host names\<close>

text \<open>The language of the regular expression, part by part.\<close>

definition label_lang :: "(char \<Rightarrow> bool) \<Rightarrow> string set" where
  "label_lang edge = {c # t |c t. edge c \<and>
     (t = [] \<or> (\<exists>m e. t = m @ [e] \<and> length m \<le> 61 \<and> (\<forall>x \<in> set m. edge x \<or> x = CHR ''-'') \<and> edge e))}"

definition hostname_lang :: "string set" where
  "hostname_lang = {concat (map (\<lambda>l. l @ ''.'') ls) @ l @ dot |ls l dot.
     set ls \<subseteq> label_lang alnum_us \<and> l \<in> label_lang alnum \<and> dot \<in> {'''', ''.''}}"

lemma label_ok_lang: "label_ok edge l \<longleftrightarrow> l \<in> label_lang edge"
proof (cases l)
  case (Cons c t)
  then show ?thesis
    by (cases t rule: rev_cases) (auto simp: label_ok_def label_lang_def list_all_iff)
qed (simp add: label_ok_def label_lang_def)

lemma concat_dots: "concat (map (\<lambda>l. l @ ''.'') ls) @ l = Join (ls @ [l]) ''.''"
proof (induction ls)
  case (Cons a ls)
  then show ?case by (cases ls) auto
qed simp

lemma label_lang_edge: "\<not> edge c \<Longrightarrow> c \<noteq> CHR ''-'' \<Longrightarrow> l \<in> label_lang edge \<Longrightarrow> c \<notin> set l"
  by (auto simp: label_lang_def)

lemma label_lang_no_dot:
  "l \<in> label_lang alnum \<Longrightarrow> CHR ''.'' \<notin> set l" "l \<in> label_lang alnum_us \<Longrightarrow> CHR ''.'' \<notin> set l"
  by (erule label_lang_edge [rotated 2]; simp add: alnum_def alnum_us_def is_alpha_def is_digit_def)+

lemma TrimSuffix_dot: "TrimSuffix (s @ ''.'') ''.'' = s"
  by (simp add: TrimSuffix_def HasSuffix_def)

lemma TrimSuffix_no_dot: "s = [] \<or> last s \<noteq> CHR ''.'' \<Longrightarrow> TrimSuffix s ''.'' = s"
  by (auto simp: TrimSuffix_def HasSuffix_def suffix_def)

lemma TrimSuffix_cases: "s = TrimSuffix s ''.'' \<or> s = TrimSuffix s ''.'' @ ''.''"
  by (auto simp: TrimSuffix_def HasSuffix_def suffix_def)

lemma hostname_match_lang: "hostname_match s \<longleftrightarrow> s \<in> hostname_lang"
proof
  assume m: "hostname_match s"
  let ?ls = "Split (TrimSuffix s ''.'') CHR ''.''"
  have "TrimSuffix s ''.'' = Join (butlast ?ls @ [last ?ls]) ''.''" by simp
  then have "TrimSuffix s ''.'' = concat (map (\<lambda>l. l @ ''.'') (butlast ?ls)) @ last ?ls"
    by (simp only: concat_dots)
  moreover have "set (butlast ?ls) \<subseteq> label_lang alnum_us" "last ?ls \<in> label_lang alnum"
    using m by (auto simp: hostname_match_def Let_def list_all_iff label_ok_lang)
  moreover obtain dot where "dot \<in> {'''', ''.''}" "s = TrimSuffix s ''.'' @ dot"
    using TrimSuffix_cases [of s] by force
  ultimately have "s = concat (map (\<lambda>l. l @ ''.'') (butlast ?ls)) @ last ?ls @ dot \<and>
      set (butlast ?ls) \<subseteq> label_lang alnum_us \<and> last ?ls \<in> label_lang alnum \<and> dot \<in> {'''', ''.''}"
    by (metis append.assoc)
  then show "s \<in> hostname_lang" unfolding hostname_lang_def mem_Collect_eq by blast
next
  assume "s \<in> hostname_lang"
  then obtain ls l dot where s: "s = concat (map (\<lambda>l. l @ ''.'') ls) @ l @ dot"
    and ls: "set ls \<subseteq> label_lang alnum_us" "l \<in> label_lang alnum" and dot: "dot \<in> {'''', ''.''}"
    unfolding hostname_lang_def by blast
  have nodot: "CHR ''.'' \<notin> set l" "l \<noteq> []" using ls(2) label_lang_no_dot by (auto simp: label_lang_def)
  have "TrimSuffix s ''.'' = concat (map (\<lambda>l. l @ ''.'') ls) @ l"
  proof (cases "dot = ''.''")
    case True
    then show ?thesis using TrimSuffix_dot [of "concat (map (\<lambda>l. l @ ''.'') ls) @ l"] by (simp add: s)
  next
    case False
    moreover have "last l \<noteq> CHR ''.''" using nodot last_in_set [of l] by metis
    ultimately have "s = concat (map (\<lambda>l. l @ ''.'') ls) @ l" "last s \<noteq> CHR ''.''"
      using dot nodot(2) by (auto simp: s)
    then show ?thesis by (metis TrimSuffix_no_dot)
  qed
  then have "Split (TrimSuffix s ''.'') CHR ''.'' = ls @ [l]"
    unfolding concat_dots using ls nodot(1) label_lang_no_dot(2) Split_Join [of "ls @ [l]" "CHR ''.''"] by auto
  then show "hostname_match s"
    using ls by (auto simp: hostname_match_def Let_def list_all_iff label_ok_lang)
qed

text \<open>
  C32: A zone name is accepted exactly when it is not empty and, without one trailing dot,
  has at most 253 characters and is in the language of the host name pattern.  The
  pattern admits a trailing dot of its own, so a name with two trailing dots passes.
\<close>

theorem validateZoneName_iff:
  "(validateZoneName name = None \<longleftrightarrow>
      name \<noteq> '''' \<and> length (TrimSuffix name ''.'') \<le> 253 \<and> TrimSuffix name ''.'' \<in> hostname_lang) \<and>
   validateZoneName ''example.com..'' = None"
proof -
  have "validateZoneName name = None \<longleftrightarrow>
      name \<noteq> '''' \<and> length (TrimSuffix name ''.'') \<le> 253 \<and> TrimSuffix name ''.'' \<in> hostname_lang"
    by (auto simp: validateZoneName_def Let_def hostname_match_lang)
  moreover have "TrimSuffix ''example.com..'' ''.'' = ''example.com.''" "TrimSuffix ''example.com.'' ''.'' = ''example.com''"
    by (simp_all add: TrimSuffix_def HasSuffix_def suffix_def)
  then have "validateZoneName ''example.com..'' = None"
    by (simp add: validateZoneName_def hostname_match_def label_ok_def alnum_us_def alnum_def is_alpha_def is_digit_def)
  ultimately show ?thesis by blast
qed

section \<open>CNAME exclusivity\<close>

definition cname_exclusive :: "db \<Rightarrow> bool" where
  "cname_exclusive d \<longleftrightarrow>
     (\<forall>r \<in> set (dbRecords d). \<forall>x \<in> set (dbRecords d).
        recType r = DNSRecordTypeCNAME \<and> recZoneID x = recZoneID r \<and> recName x = recName r \<longrightarrow> recID x = recID r)"

text \<open>The listing that the check uses is the whole zone.\<close>

definition small_zones :: "db \<Rightarrow> bool" where
  "small_zones d \<longleftrightarrow> (\<forall>z. length (filter (\<lambda>r. recZoneID r = z) (dbRecords d)) \<le> 10000)"

lemma list_zone_records:
  assumes "ListDNSRecords c z listLimit d = Inr (rs, k)" "small_zones d"
  shows "set rs = {r \<in> set (dbRecords d). recZoneID r = z}"
  using assms
  by (auto simp: ListDNSRecords_def sql_list_def sql_query_def page_def listLimit_def small_zones_def split: option.splits)

lemma record_allowed_None:
  assumes "record_allowed env r d = None" "small_zones d" "x \<in> set (dbRecords d)"
    and "recZoneID x = recZoneID r" "recName x = recName r" "recID x \<noteq> recID r"
  shows "recType r \<noteq> DNSRecordTypeCNAME \<and> recType x \<noteq> DNSRecordTypeCNAME"
proof -
  obtain rs k where "ListDNSRecords (svDB env ''list records'') (recZoneID r) listLimit d = Inr (rs, k)"
    and check: "checkCNAMEExclusivity rs r = None"
    using assms(1) by (auto simp: record_allowed_def split: option.splits sum.splits)
  then have "x \<in> set rs" using list_zone_records assms(2-4) by auto
  then show ?thesis
    using check assms(5,6) by (auto simp: checkCNAMEExclusivity_def list_ex_iff split: if_splits)
qed

lemma increment_records [simp]: "dbRecords (snd (IncrementDNSZoneSerial c now z d)) = dbRecords d"
  by (auto simp: IncrementDNSZoneSerial_def split: option.split)

lemma then_increment_records [simp]: "dbRecords (snd (then_increment env z r)) = dbRecords (snd r)"
proof (cases r)
  case (Pair a d)
  then show ?thesis
    using increment_records [of "svDB env ''increment''" "svNow env" z d]
    by (cases a; cases "IncrementDNSZoneSerial (svDB env ''increment'') (svNow env) z d"; cases "fst (IncrementDNSZoneSerial (svDB env ''increment'') (svNow env) z d)")
      (auto simp: then_increment_def)
qed

lemma cname_exclusive_cong: "dbRecords d' = dbRecords d \<Longrightarrow> cname_exclusive d' = cname_exclusive d"
  by (simp add: cname_exclusive_def)

lemma CreateDNSRecord_records:
  "dbRecords (snd (CreateDNSRecord c now r d)) = dbRecords d \<or>
   dbRecords (snd (CreateDNSRecord c now r d)) = dbRecords d @ [r\<lparr>recCreatedAt := now, recUpdatedAt := now\<rparr>]"
  by (auto simp: CreateDNSRecord_def Let_def split: option.split)

lemma cname_exclusive_insert:
  assumes "cname_exclusive d" "small_zones d" "record_allowed env r d = None"
    and "dbRecords d' = dbRecords d @ [r\<lparr>recCreatedAt := s, recUpdatedAt := t\<rparr>]"
  shows "cname_exclusive d'"
  unfolding cname_exclusive_def
proof (intro ballI impI)
  fix y x assume xy: "y \<in> set (dbRecords d')" "x \<in> set (dbRecords d')"
    "recType y = DNSRecordTypeCNAME \<and> recZoneID x = recZoneID y \<and> recName x = recName y"
  have old: "x \<in> set (dbRecords d) \<or>
      (recID x = recID r \<and> recZoneID x = recZoneID r \<and> recName x = recName r \<and> recType x = recType r)"
    if "x \<in> set (dbRecords d')" for x
    using that by (auto simp: assms(4))
  show "recID x = recID y"
    using old [OF xy(1)] old [OF xy(2)] xy(3) record_allowed_None [OF assms(3,2)] assms(1)
    unfolding cname_exclusive_def by metis
qed

lemma cname_exclusive_update:
  assumes "cname_exclusive d" "small_zones d" "record_allowed env r d = None" "distinct (map recID (dbRecords d))"
    and "row_find recID (recID r) (dbRecords d) = Some x0" "recZoneID x0 = recZoneID r"
    and "dbRecords d' = row_update recID (recID r) (\<lambda>x. r\<lparr>recUpdatedAt := t, recZoneID := recZoneID x, recCreatedAt := recCreatedAt x\<rparr>) (dbRecords d)"
  shows "cname_exclusive d'"
proof -
  have "x = x0" if "x \<in> set (dbRecords d)" "recID x = recID r" for x
    using that row_find_SomeD [OF assms(5)] assms(4) by (metis distinct_map inj_on_def)
  then have old: "(x \<in> set (dbRecords d) \<and> recID x \<noteq> recID r) \<or>
      (recID x = recID r \<and> recZoneID x = recZoneID r \<and> recName x = recName r \<and> recType x = recType r)"
    if "x \<in> set (dbRecords d')" for x
    using that assms(6) unfolding assms(7) row_update_def by auto
  show ?thesis
    unfolding cname_exclusive_def
  proof (intro ballI impI)
    fix y x assume "y \<in> set (dbRecords d')" "x \<in> set (dbRecords d')"
      "recType y = DNSRecordTypeCNAME \<and> recZoneID x = recZoneID y \<and> recName x = recName y"
    then show "recID x = recID y"
      using old [of x] old [of y] record_allowed_None [OF assms(3,2)] assms(1)
      unfolding cname_exclusive_def by metis
  qed
qed

lemma update_record_fields_keys [simp]:
  "recID (update_record_fields req r) = recID r" "recZoneID (update_record_fields req r) = recZoneID r"
  by (auto simp: update_record_fields_def Let_def split: option.split)

lemma UpdateDNSRecord_records:
  "dbRecords (snd (UpdateDNSRecord c now r d)) = dbRecords d \<or>
   dbRecords (snd (UpdateDNSRecord c now r d)) =
     row_update recID (recID r) (\<lambda>x. r\<lparr>recUpdatedAt := now, recZoneID := recZoneID x, recCreatedAt := recCreatedAt x\<rparr>) (dbRecords d)"
  by (auto simp: UpdateDNSRecord_def Let_def split: option.split)

lemma DeleteDNSRecord_records: "set (dbRecords (snd (DeleteDNSRecord c i d))) \<subseteq> set (dbRecords d)"
  by (auto simp: DeleteDNSRecord_def row_delete_def split: option.split)

lemma CreateRecord_cname:
  assumes "cname_exclusive d" "small_zones d"
  shows "cname_exclusive (snd (CreateRecord env req d))"
proof (cases "is_ok (GetDNSZone (svDB env ''get zone'') (crZoneID req) d) \<and>
    record_allowed env (request_record (svNewID env) req) d = None")
  case True
  then have run: "dbRecords (snd (CreateRecord env req d)) =
      dbRecords (snd (CreateDNSRecord (svDB env ''create'') (svNow env) (request_record (svNewID env) req) d))"
    by (auto simp: CreateRecord_def Let_def is_ok_iff)
  from CreateDNSRecord_records [of "svDB env ''create''" "svNow env" "request_record (svNewID env) req" d, folded run]
  show ?thesis
  proof
    assume "dbRecords (snd (CreateRecord env req d)) = dbRecords d"
    from cname_exclusive_cong [OF this] assms(1) show ?thesis by simp
  next
    assume "dbRecords (snd (CreateRecord env req d)) =
      dbRecords d @ [(request_record (svNewID env) req)\<lparr>recCreatedAt := svNow env, recUpdatedAt := svNow env\<rparr>]"
    from cname_exclusive_insert [OF assms _ this] True show ?thesis by blast
  qed
next
  case False
  then have "snd (CreateRecord env req d) = d"
    by (auto simp: CreateRecord_def Let_def is_ok_iff split: sum.splits option.splits)
  with assms(1) show ?thesis by simp
qed

lemma UpdateRecord_cname:
  assumes "cname_exclusive d" "small_zones d" "distinct (map recID (dbRecords d))"
  shows "cname_exclusive (snd (UpdateRecord env i req d))"
proof (cases "\<exists>r. GetDNSRecord (svDB env ''get'') i d = Inr r \<and> record_allowed env (update_record_fields req r) d = None")
  case True
  then obtain r where get: "GetDNSRecord (svDB env ''get'') i d = Inr r"
    and ok: "record_allowed env (update_record_fields req r) d = None" by blast
  have find: "row_find recID (recID r) (dbRecords d) = Some r"
    using get by (auto simp: GetDNSRecord_def sql_row_def split: option.splits dest: row_find_SomeD)
  have run: "dbRecords (snd (UpdateRecord env i req d)) =
      dbRecords (snd (UpdateDNSRecord (svDB env ''update'') (svNow env) (update_record_fields req r) d))"
    using get ok by (auto simp: UpdateRecord_def Let_def)
  from UpdateDNSRecord_records [of "svDB env ''update''" "svNow env" "update_record_fields req r" d, folded run]
  show ?thesis
  proof
    assume "dbRecords (snd (UpdateRecord env i req d)) = dbRecords d"
    from cname_exclusive_cong [OF this] assms(1) show ?thesis by simp
  next
    assume *: "dbRecords (snd (UpdateRecord env i req d)) = row_update recID (recID (update_record_fields req r))
      (\<lambda>x. (update_record_fields req r)\<lparr>recUpdatedAt := svNow env, recZoneID := recZoneID x, recCreatedAt := recCreatedAt x\<rparr>)
      (dbRecords d)"
    show ?thesis by (rule cname_exclusive_update [OF assms(1,2) ok assms(3) _ _ *, of r]) (simp_all add: find)
  qed
next
  case False
  then have "snd (UpdateRecord env i req d) = d"
    by (auto simp: UpdateRecord_def Let_def split: sum.splits option.splits)
  with assms(1) show ?thesis by simp
qed

lemma DeleteRecord_cname: "cname_exclusive d \<Longrightarrow> cname_exclusive (snd (DeleteRecord env i d))"
proof -
  assume c: "cname_exclusive d"
  have "set (dbRecords (snd (DeleteRecord env i d))) \<subseteq> set (dbRecords d)"
    using DeleteDNSRecord_records [of "svDB env ''delete''" i d] by (auto simp: DeleteRecord_def split: sum.split)
  with c show ?thesis unfolding cname_exclusive_def by blast
qed

text \<open>
  C7: Creating, changing and deleting records keeps every CNAME the only record of its
  name in its zone, whatever the requests and whatever the store does, as long as no
  zone has more records than the check reads.
\<close>

theorem record_ops_keep_cname_exclusive:
  assumes "cname_exclusive d" "small_zones d" "distinct (map recID (dbRecords d))"
  shows "cname_exclusive (snd (CreateRecord env creq d)) \<and> cname_exclusive (snd (UpdateRecord env i ureq d)) \<and>
         cname_exclusive (snd (DeleteRecord env i d))"
  using assms CreateRecord_cname UpdateRecord_cname DeleteRecord_cname by blast

section \<open>Serials\<close>

definition zone_serial :: "ID \<Rightarrow> db \<Rightarrow> int option" where
  "zone_serial z d = map_option snd (row_find (zoneID \<circ> fst) z (dbZones d))"

text \<open>\<open>stepped zone r d\<close>: the serials after an operation with result \<open>r\<close> on the records of \<open>zone\<close>.\<close>

definition stepped :: "ID \<Rightarrow> 'a dbres \<Rightarrow> db \<Rightarrow> bool" where
  "stepped zone r d \<longleftrightarrow>
     (\<forall>z. zone_serial z (snd r) = map_option (\<lambda>n. if z = zone \<and> is_ok (fst r) then n + 1 else n) (zone_serial z d)) \<and>
     (is_ok (fst r) \<longrightarrow> zone_serial zone d \<noteq> None)"

lemma increment_serial:
  "stepped zone (IncrementDNSZoneSerial c now zone d) d"
proof (cases "sql_change c (exec_error ''increment dns zone serial'') True True (row_mem (zoneID \<circ> fst) zone (dbZones d))")
  case None
  have find: "map_option snd (row_find (zoneID \<circ> fst) z (row_update (zoneID \<circ> fst) zone
      (\<lambda>r. ((fst r)\<lparr>zoneUpdatedAt := now\<rparr>, snd r + 1)) rows)) =
      map_option (\<lambda>n. if z = zone then n + 1 else n) (map_option snd (row_find (zoneID \<circ> fst) z rows))" for z rows
    by (subst row_find_update, simp) (cases "row_find (zoneID \<circ> fst) z rows", auto simp del: row_find_None_iff)
  have "row_mem (zoneID \<circ> fst) zone (dbZones d)" using None by simp
  then have "zone_serial zone d \<noteq> None" by (auto simp: zone_serial_def row_mem_iff)
  moreover have "zone_serial z (d\<lparr>dbZones := row_update (zoneID \<circ> fst) zone (\<lambda>r. ((fst r)\<lparr>zoneUpdatedAt := now\<rparr>, snd r + 1)) (dbZones d)\<rparr>) =
      map_option (\<lambda>n. if z = zone then n + 1 else n) (zone_serial z d)" for z
    using find [of z "dbZones d"] by (simp add: zone_serial_def)
  ultimately show ?thesis
    unfolding IncrementDNSZoneSerial_def stepped_def None by simp
next
  case (Some e)
  then show ?thesis unfolding IncrementDNSZoneSerial_def stepped_def by (simp add: option.map_ident)
qed

lemma then_increment_stepped:
  assumes "dbZones (snd r) = dbZones d"
  shows "stepped zone (then_increment env zone r) d"
proof (cases r)
  case (Pair a e)
  then have same: "zone_serial z e = zone_serial z d" for z using assms by (simp add: zone_serial_def)
  show ?thesis
  proof (cases a)
    case (Inl x)
    then show ?thesis using Pair same by (simp add: then_increment_def stepped_def option.map_ident)
  next
    case (Inr x)
    obtain b e' where inc: "IncrementDNSZoneSerial (svDB env ''increment'') (svNow env) zone e = (b, e')" by force
    show ?thesis
      using increment_serial [of zone "svDB env ''increment''" "svNow env" e] same Pair Inr inc
      by (cases b) (simp_all add: then_increment_def stepped_def)
  qed
qed

lemma record_ops_zones [simp]:
  "dbZones (snd (CreateDNSRecord c now r d)) = dbZones d"
  "dbZones (snd (UpdateDNSRecord c now r d)) = dbZones d"
  "dbZones (snd (DeleteDNSRecord c i d)) = dbZones d"
  by (auto simp: CreateDNSRecord_def UpdateDNSRecord_def DeleteDNSRecord_def Let_def split: option.split)

lemma stepped_fail: "stepped zone (Inl e, d) d"
  by (simp add: stepped_def option.map_ident)

text \<open>
  A successful change of a record steps the serial of the record's zone by one and no
  other serial; a change that fails steps none, whatever statement failed.
\<close>

theorem record_changes_step_serial:
  "stepped (crZoneID creq) (CreateRecord env creq d) d \<and>
   (case row_find recID i (dbRecords d) of
      None \<Rightarrow> snd (UpdateRecord env i ureq d) = d \<and> snd (DeleteRecord env i d) = d \<and>
              \<not> is_ok (fst (UpdateRecord env i ureq d)) \<and> \<not> is_ok (fst (DeleteRecord env i d))
    | Some r \<Rightarrow> stepped (recZoneID r) (UpdateRecord env i ureq d) d \<and> stepped (recZoneID r) (DeleteRecord env i d) d)"
proof (intro conjI)
  show "stepped (crZoneID creq) (CreateRecord env creq d) d"
    by (auto simp: CreateRecord_def Let_def stepped_fail then_increment_stepped split: sum.split option.split)
  show "case row_find recID i (dbRecords d) of
      None \<Rightarrow> snd (UpdateRecord env i ureq d) = d \<and> snd (DeleteRecord env i d) = d \<and>
              \<not> is_ok (fst (UpdateRecord env i ureq d)) \<and> \<not> is_ok (fst (DeleteRecord env i d))
    | Some r \<Rightarrow> stepped (recZoneID r) (UpdateRecord env i ureq d) d \<and> stepped (recZoneID r) (DeleteRecord env i d) d"
  proof (cases "row_find recID i (dbRecords d)")
    case None
    then show ?thesis
      by (auto simp: UpdateRecord_def DeleteRecord_def GetDNSRecord_def sql_row_def simp del: row_find_None_iff split: option.splits)
  next
    case (Some r)
    then have get: "GetDNSRecord c i d = Inr r \<or> (\<exists>e. GetDNSRecord c i d = Inl e)" for c
      by (auto simp: GetDNSRecord_def sql_row_def split: option.splits)
    show ?thesis
      using Some get [of "svDB env ''get''"]
      by (auto simp: UpdateRecord_def DeleteRecord_def Let_def stepped_fail then_increment_stepped split: option.split)
  qed
qed

section \<open>The zones of a node\<close>

definition assigned :: "NodeGroup \<Rightarrow> DNSZone \<Rightarrow> bool" where
  "assigned g z \<longleftrightarrow> zoneNodeGroupID z = Some (groupID g) \<and> zoneStatus z = DNSZoneActive"

definition zone_records :: "db \<Rightarrow> ZoneWithRecords \<Rightarrow> bool" where
  "zone_records d c \<longleftrightarrow> set (zwrRecords c) = {r \<in> set (dbRecords d). recZoneID r = zoneID (zwrZone c)}"

lemma scan_zones_map:
  "scan_zones rows = Inr zs \<Longrightarrow> zs = map (\<lambda>(z, s). z\<lparr>zoneSerial := word_of_int s\<rparr>) rows"
  by (induction rows arbitrary: zs) (auto simp: scan_zone_def split: sum.splits if_splits prod.splits)

definition small_tenants :: "db \<Rightarrow> bool" where
  "small_tenants d \<longleftrightarrow> (\<forall>t. length (filter (\<lambda>r. zoneTenantID (fst r) = t) (dbZones d)) \<le> 10000)"

text \<open>The rows that the two listings of \<open>GetNodeDNSConfig\<close> give.\<close>

definition listed_zones :: "db \<Rightarrow> ID \<Rightarrow> DNSZone set" where
  "listed_zones d t = (\<lambda>(z, s). z\<lparr>zoneSerial := word_of_int s\<rparr>) `
     set (page listLimit (sort_key (zoneName \<circ> fst) (filter (\<lambda>r. zoneTenantID (fst r) = t) (dbZones d))))"

definition listed_records :: "db \<Rightarrow> ZoneWithRecords \<Rightarrow> bool" where
  "listed_records d c \<longleftrightarrow> zwrRecords c = page listLimit
     (sort_key recName (sort_key (type_string \<circ> recType)
        (filter (\<lambda>r. recZoneID r = zoneID (zwrZone c)) (dbRecords d))))"

lemma ListDNSZones_listed:
  "ListDNSZones c t listLimit d = Inr (zs, k) \<Longrightarrow> set zs = listed_zones d t"
  by (auto simp: ListDNSZones_def sql_list_def sql_query_def listed_zones_def dest!: scan_zones_map
      split: option.splits sum.splits)

interpretation dns_config: node_config "listed_zones d" zoneID assigned zwrZone "listed_records d"
  "\<lambda>g seen items seen' cfg. \<exists>k. config_zones env k g seen items d = Inr (seen', cfg)"
  "\<lambda>seen gs cfg. \<exists>k. config_groups env k seen gs d = Inr cfg"
  for env d
proof
  fix g seen items seen' cfg i
  assume run: "\<exists>k. config_zones env k g seen (i # items) d = Inr (seen', cfg)"
  show "\<exists>k. config_zones env k g seen items d = Inr (seen', cfg)"
    if "\<not> assigned g i \<or> zoneID i \<in> set seen"
    using run that by (auto simp: assigned_def)
  show "\<exists>c cfg'. cfg = c # cfg' \<and> zwrZone c = i \<and> listed_records d c \<and>
      (\<exists>k. config_zones env k g (zoneID i # seen) items d = Inr (seen', cfg'))"
    if "assigned g i" "zoneID i \<notin> set seen"
    using run that
    by (fastforce simp: assigned_def listed_records_def ListDNSRecords_def sql_list_def sql_query_def
        split: sum.splits option.splits)
next
  fix seen g gs cfg
  assume "\<exists>k. config_groups env k seen (g # gs) d = Inr cfg"
  then show "\<exists>items seen' c1 c2. set items = listed_zones d (groupTenantID g) \<and>
      (\<exists>k. config_zones env k g seen items d = Inr (seen', c1)) \<and>
      (\<exists>k. config_groups env k seen' gs d = Inr c2) \<and> cfg = c1 @ c2"
    using ListDNSZones_listed by (fastforce split: sum.splits)
qed auto

lemma listed_zones_all:
  "small_tenants d \<Longrightarrow>
     listed_zones d t = {z\<lparr>zoneSerial := word_of_int s\<rparr> |z s. (z, s) \<in> set (dbZones d) \<and> zoneTenantID z = t}"
  by (force simp: listed_zones_def small_tenants_def page_def listLimit_def)

lemma listed_records_all: "small_zones d \<Longrightarrow> listed_records d c \<Longrightarrow> zone_records d c"
  by (auto simp: listed_records_def zone_records_def small_zones_def page_def listLimit_def)

text \<open>
  The configuration of a node has each of its zones once: exactly the active zones
  assigned to a group the node is a member of and owned by the group's tenant, each
  with exactly the records of the zone.
\<close>

theorem GetNodeDNSConfig_exact:
  assumes "GetNodeDNSConfig env nid d = Inr cfg" "small_zones d" "small_tenants d"
  shows "distinct (map (zoneID \<circ> zwrZone) cfg) \<and>
     (zoneID \<circ> zwrZone) ` set cfg =
       {zoneID z |z s g. (z, s) \<in> set (dbZones d) \<and> (g \<in> set (dbGroups d) \<and> (groupID g, nid) \<in> set (dbMembers d)) \<and>
          zoneTenantID z = groupTenantID g \<and> assigned g z} \<and>
     list_all (zone_records d) cfg"
proof -
  obtain gs where gs: "\<exists>k. config_groups env k [] gs d = Inr cfg"
    and "ListNodeGroups_ByNode (svDB env ''list groups'') nid d = Inr gs"
    using assms(1) by (auto simp: GetNodeDNSConfig_def split: sum.splits)
  then have mem: "g \<in> set gs \<longleftrightarrow> g \<in> set (dbGroups d) \<and> (groupID g, nid) \<in> set (dbMembers d)" for g
    by (auto simp: ListNodeGroups_ByNode_def sql_query_def split: option.splits)
  have "zoneID ` {i. \<exists>g\<in>set gs. i \<in> listed_zones d (groupTenantID g) \<and> assigned g i} =
      {zoneID z |z s g. (z, s) \<in> set (dbZones d) \<and> g \<in> set gs \<and> zoneTenantID z = groupTenantID g \<and> assigned g z}"
    by (fastforce simp: listed_zones_all [OF assms(3)] assigned_def image_iff)
  then show ?thesis
    using dns_config.snapshot_exact [OF gs] listed_records_all [OF assms(2)]
    unfolding mem [symmetric] comp_def by (auto simp: list_all_iff)
qed

section \<open>Sample calls\<close>

definition dns_zone :: DNSZone where
  "dns_zone = \<lparr>zoneID = 5, zoneTenantID = 7, zoneName = ''example.com.'', zoneStatus = DNSZoneActive, zoneSerial = 1,
     zoneTTL = 3600, zoneNodeGroupID = Some 3, zoneTransferAllowedIPs = [], zoneCreatedAt = 0, zoneUpdatedAt = 0\<rparr>"

definition dns_record :: DNSRecord where
  "dns_record = \<lparr>recID = 9, recZoneID = 5, recName = ''www'', recType = DNSRecordTypeCNAME, recValue = ''example.com.'',
     recTTL = None, recPriority = None, recWeight = None, recPort = None, recCreatedAt = 0, recUpdatedAt = 0\<rparr>"

definition dns_db :: db where
  "dns_db = empty_db\<lparr>dbTenants := [sample_tenant], dbNodes := [sample_node 1], dbGroups := [sample_group],
     dbMembers := [(3, 1)], dbZones := [(dns_zone, 1)], dbRecords := [dns_record]\<rparr>"

lemma dns_db_sel [simp]:
  "dbNodes dns_db = [sample_node 1]" "dbGroups dns_db = [sample_group]" "dbMembers dns_db = [(3, 1)]"
  "dbZones dns_db = [(dns_zone, 1)]" "dbRecords dns_db = [dns_record]"
  by (simp_all add: dns_db_def empty_db_def)

lemma dns_db_small: "small_zones dns_db" "small_tenants dns_db" "cname_exclusive dns_db"
  by (simp_all add: small_zones_def small_tenants_def cname_exclusive_def)

lemma dns_db_config:
  "GetNodeDNSConfig (ok_env 0) 1 dns_db = Inr [\<lparr>zwrZone = dns_zone, zwrRecords = [dns_record]\<rparr>]"
proof -
  have "dns_zone\<lparr>zoneSerial := 1\<rparr> = dns_zone" by (simp add: dns_zone_def)
  then show ?thesis
    by (simp add: GetNodeDNSConfig_def GetNode_def sql_row_def ListNodeGroups_ByNode_def sql_query_def ok_env_def
        fk_conn_def sample_node_def sample_group_def ListDNSZones_def ListDNSRecords_def sql_list_def page_def
        listLimit_def scan_zone_def)
      (simp add: dns_zone_def dns_record_def)
qed

theorem GetNodeDNSConfig_exact_witness:
  "\<exists>cfg. GetNodeDNSConfig (ok_env 0) 1 dns_db = Inr cfg \<and> (zoneID \<circ> zwrZone) ` set cfg = {5} \<and> list_all (zone_records dns_db) cfg"
  using GetNodeDNSConfig_exact [OF dns_db_config dns_db_small(1,2)] dns_db_config by (simp add: dns_zone_def)

theorem record_ops_keep_cname_exclusive_witness:
  "cname_exclusive (snd (CreateRecord (ok_env 10) \<lparr>crZoneID = 5, crName = ''www'', crType = DNSRecordTypeTXT, crValue = ''x'',
     crTTL = None, crPriority = None, crWeight = None, crPort = None\<rparr> dns_db))"
  using record_ops_keep_cname_exclusive [OF dns_db_small(3,1)] by simp

end
