(* ===== verification/EF_DNSServer.thy ===== *)
theory EF_DNSServer
  imports EF_DNS
begin

text \<open>
  \<open>internal/dnsserver\<close>: the authoritative server of a node (\<open>miekg.go\<close>) and its zone
  transfers (\<open>axfr.go\<close>).

  Messages, resource records and the function \<open>Fqdn\<close> belong to the package
  \<open>github.com/miekg/dns\<close>: records are the data below, and \<open>Fqdn\<close> is a parameter.  A Go
  map is visited in an order that is not specified, so the transfer takes the order of
  the keys as an argument.  The lemmas show that a query is answered from the records of
  the most specific zone of the last configuration, and what a transfer sends and to whom.
\<close>

section \<open>Resource records\<close>

definition TypeA :: "16 word" where "TypeA = 1"
definition TypeNS :: "16 word" where "TypeNS = 2"
definition TypeCNAME :: "16 word" where "TypeCNAME = 5"
definition TypeSOA :: "16 word" where "TypeSOA = 6"
definition TypePTR :: "16 word" where "TypePTR = 12"
definition TypeMX :: "16 word" where "TypeMX = 15"
definition TypeTXT :: "16 word" where "TypeTXT = 16"
definition TypeAAAA :: "16 word" where "TypeAAAA = 28"
definition TypeSRV :: "16 word" where "TypeSRV = 33"
definition TypeAXFR :: "16 word" where "TypeAXFR = 252"
definition TypeCAA :: "16 word" where "TypeCAA = 257"

record RR_Header =
  hdrName :: string
  hdrRrtype :: "16 word"
  hdrTtl :: "32 word"

datatype RR =
    RR_A RR_Header "32 word option"
  | RR_AAAA RR_Header "128 word"
  | RR_CNAME RR_Header string
  | RR_MX RR_Header "16 word" string
  | RR_TXT RR_Header "string list"
  | RR_NS RR_Header string
  | RR_SRV RR_Header "16 word" "16 word" "16 word" string
  | RR_CAA RR_Header "8 word" string string
  | RR_PTR RR_Header string
  | RR_SOA RR_Header string string "32 word" "32 word" "32 word" "32 word" "32 word"

fun rr_header :: "RR \<Rightarrow> RR_Header" where
  "rr_header (RR_A h _) = h"
| "rr_header (RR_AAAA h _) = h"
| "rr_header (RR_CNAME h _) = h"
| "rr_header (RR_MX h _ _) = h"
| "rr_header (RR_TXT h _) = h"
| "rr_header (RR_NS h _) = h"
| "rr_header (RR_SRV h _ _ _ _) = h"
| "rr_header (RR_CAA h _ _ _) = h"
| "rr_header (RR_PTR h _) = h"
| "rr_header (RR_SOA h _ _ _ _ _ _ _) = h"

type_synonym recordKey = "string \<times> 16 word"

definition rr_key :: "RR \<Rightarrow> recordKey" where
  "rr_key rr = (ToLower (hdrName (rr_header rr)), hdrRrtype (rr_header rr))"

text \<open>The map \<open>map[recordKey][]mdns.RR\<close>, by the order of first insertion.\<close>

type_synonym recordMap = "(recordKey \<times> RR list) list"

definition records_get :: "recordMap \<Rightarrow> recordKey \<Rightarrow> RR list" where
  "records_get rm k = (case map_of rm k of None \<Rightarrow> [] | Some rrs \<Rightarrow> rrs)"

fun records_append :: "recordMap \<Rightarrow> recordKey \<Rightarrow> RR \<Rightarrow> recordMap" where
  "records_append [] k rr = [(k, [rr])]"
| "records_append ((k', rrs) # rm) k rr =
     (if k' = k then (k', rrs @ [rr]) # rm else (k', rrs) # records_append rm k rr)"

record zoneData =
  zdName :: string
  zdTenantID :: ID
  zdSerial :: "32 word"
  zdTTL :: "32 word"
  zdRecords :: recordMap
  zdTransferAllowed :: "IPNet list"

section \<open>Building a zone\<close>

fun parseAllowedCIDRs :: "string list \<Rightarrow> IPNet list" where
  "parseAllowedCIDRs [] = []"
| "parseAllowedCIDRs (entry # ips) =
     (if CHR ''/'' \<in> set entry
      then (case ParseCIDR entry of
              Some (_, cidr) \<Rightarrow> cidr # parseAllowedCIDRs ips
            | None \<Rightarrow> parseAllowedCIDRs ips)
      else (case ParseIP entry of
              None \<Rightarrow> parseAllowedCIDRs ips
            | Some ip \<Rightarrow>
                (let bits = (if To4 ip \<noteq> None then 32 else 128)
                 in \<lparr>netIP = ip, netOnes = bits, netBits = bits\<rparr> # parseAllowedCIDRs ips)))"

definition record_fqdn :: "(string \<Rightarrow> string) \<Rightarrow> DNSRecord \<Rightarrow> string \<Rightarrow> string" where
  "record_fqdn Fqdn r zone =
     Fqdn (if recName r = ''@'' \<or> recName r = '''' then zone else recName r @ ''.'' @ zone)"

definition record_ttl :: "DNSRecord \<Rightarrow> 32 word \<Rightarrow> 32 word" where
  "record_ttl r defaultTTL =
     (case recTTL r of Some t \<Rightarrow> if t > 0 then word_of_int t else defaultTTL | None \<Rightarrow> defaultTTL)"

definition uint16_or :: "16 word \<Rightarrow> int option \<Rightarrow> 16 word" where
  "uint16_or dflt x = (case x of None \<Rightarrow> dflt | Some i \<Rightarrow> word_of_int i)"

definition convertRecord :: "(string \<Rightarrow> string) \<Rightarrow> DNSRecord \<Rightarrow> string \<Rightarrow> 32 word \<Rightarrow> RR list" where
  "convertRecord Fqdn r zone defaultTTL =
     (let hdr = (\<lambda>t. \<lparr>hdrName = record_fqdn Fqdn r zone, hdrRrtype = t, hdrTtl = record_ttl r defaultTTL\<rparr>)
      in case recType r of
           DNSRecordTypeA \<Rightarrow>
             (case ParseIP (recValue r) of None \<Rightarrow> [] | Some ip \<Rightarrow> [RR_A (hdr TypeA) (To4 ip)])
         | DNSRecordTypeAAAA \<Rightarrow>
             (case ParseIP (recValue r) of None \<Rightarrow> [] | Some ip \<Rightarrow> [RR_AAAA (hdr TypeAAAA) (To16 ip)])
         | DNSRecordTypeCNAME \<Rightarrow> [RR_CNAME (hdr TypeCNAME) (Fqdn (recValue r))]
         | DNSRecordTypeMX \<Rightarrow> [RR_MX (hdr TypeMX) (uint16_or 10 (recPriority r)) (Fqdn (recValue r))]
         | DNSRecordTypeTXT \<Rightarrow> [RR_TXT (hdr TypeTXT) [recValue r]]
         | DNSRecordTypeNS \<Rightarrow> [RR_NS (hdr TypeNS) (Fqdn (recValue r))]
         | DNSRecordTypeSRV \<Rightarrow>
             [RR_SRV (hdr TypeSRV) (uint16_or 0 (recPriority r)) (uint16_or 0 (recWeight r)) (uint16_or 0 (recPort r))
                (Fqdn (recValue r))]
         | DNSRecordTypeCAA \<Rightarrow>
             (case SplitN (recValue r) CHR '' '' 3 of
                [flag, tag, val] \<Rightarrow> [RR_CAA (hdr TypeCAA) (if flag = ''128'' then 128 else 0) tag val]
              | _ \<Rightarrow> [])
         | DNSRecordTypePTR \<Rightarrow> [RR_PTR (hdr TypePTR) (Fqdn (recValue r))]
         | DNSRecordTypeOther _ \<Rightarrow> [])"

definition zone_ttl :: "DNSZone \<Rightarrow> 32 word" where
  "zone_ttl z = (let ttl = word_of_int (zoneTTL z) in if ttl = 0 then 300 else ttl)"

definition buildZoneData :: "(string \<Rightarrow> string) \<Rightarrow> ZoneWithRecords \<Rightarrow> zoneData" where
  "buildZoneData Fqdn zwr =
     (let zone = zwrZone zwr; ttl = zone_ttl zone
      in \<lparr>zdName = zoneName zone, zdTenantID = zoneTenantID zone, zdSerial = zoneSerial zone, zdTTL = ttl,
          zdRecords = foldl (\<lambda>rm r. foldl (\<lambda>rm rr. records_append rm (rr_key rr) rr) rm (convertRecord Fqdn r (zoneName zone) ttl))
                        [] (zwrRecords zwr),
          zdTransferAllowed = parseAllowedCIDRs (zoneTransferAllowedIPs zone)\<rparr>)"

definition buildSOA :: "zoneData \<Rightarrow> RR" where
  "buildSOA zd = RR_SOA \<lparr>hdrName = zdName zd, hdrRrtype = TypeSOA, hdrTtl = zdTTL zd\<rparr>
     (''ns1.'' @ zdName zd) (''hostmaster.'' @ zdName zd) (zdSerial zd) 3600 900 604800 300"

section \<open>The server\<close>

text \<open>
  \<open>sortByLengthDesc\<close>: the two nested loops on the slice.
\<close>

function sort_inner :: "string list \<Rightarrow> nat \<Rightarrow> string list" where
  "sort_inner s j =
     (if j > 0 \<and> length (s ! j) > length (s ! (j - 1))
      then sort_inner (s[j := s ! (j - 1), j - 1 := s ! j]) (j - 1)
      else s)"
  by pat_completeness auto
termination by (relation "measure snd") auto

declare sort_inner.simps [simp del]

lemma length_sort_inner [simp]: "length (sort_inner s j) = length s"
proof (induction s j rule: sort_inner.induct)
  case (1 s j)
  then show ?case by (subst sort_inner.simps) auto
qed

function sort_outer :: "string list \<Rightarrow> nat \<Rightarrow> string list" where
  "sort_outer s i = (if i < length s then sort_outer (sort_inner s i) (i + 1) else s)"
  by pat_completeness auto
termination by (relation "measure (\<lambda>(s, i). length s - i)") auto

declare sort_outer.simps [simp del]

definition sortByLengthDesc :: "string list \<Rightarrow> string list" where
  "sortByLengthDesc s = sort_outer s 1"

record MiekgService =
  msRunning :: bool
  msListenAddr :: string
  msZones :: "string \<rightharpoonup> zoneData"
  msSortedZones :: "string list"
  msQueriesTotal :: "64 word"
  msAxfrEnabled :: bool

definition NewMiekgService :: "bool \<Rightarrow> MiekgService" where
  "NewMiekgService axfrEnabled =
     \<lparr>msRunning = False, msListenAddr = '''', msZones = Map.empty, msSortedZones = [], msQueriesTotal = 0,
      msAxfrEnabled = axfrEnabled\<rparr>"

text \<open>
  \<open>Start\<close>: \<open>udp\<close> and \<open>tcp\<close> are what the two \<open>select\<close> statements receive, nothing for the
  ready signal or the error of a listener.
\<close>

definition Miekg_Start :: "string \<Rightarrow> error option \<Rightarrow> error option \<Rightarrow> MiekgService \<Rightarrow> unit result \<times> MiekgService" where
  "Miekg_Start listenAddr udp tcp s =
     (if msRunning s then (Inl (Errorf ''dns server already running''), s)
      else case udp of
             Some e \<Rightarrow> (Inl (Wrapf ''start dns server'' e), s)
           | None \<Rightarrow>
               (case tcp of
                  Some e \<Rightarrow> (Inl (Wrapf ''start dns server'' e), s)
                | None \<Rightarrow> (Inr (), s\<lparr>msRunning := True, msListenAddr := listenAddr\<rparr>)))"

text \<open>\<open>Stop\<close>: \<open>udp\<close> and \<open>tcp\<close> are the errors of the two shutdowns.\<close>

definition Miekg_Stop :: "error option \<Rightarrow> error option \<Rightarrow> MiekgService \<Rightarrow> unit result \<times> MiekgService" where
  "Miekg_Stop udp tcp s =
     (if \<not> msRunning s then (Inl (Errorf ''dns server not running''), s)
      else let s = s\<lparr>msRunning := False, msZones := Map.empty, msSortedZones := []\<rparr>
           in case udp of
                Some e \<Rightarrow> (Inl (Wrapf ''shutdown udp'' e), s)
              | None \<Rightarrow> (case tcp of Some e \<Rightarrow> (Inl (Wrapf ''shutdown tcp'' e), s) | None \<Rightarrow> (Inr (), s)))"

definition Miekg_Reconcile ::
  "(string \<Rightarrow> string) \<Rightarrow> NodeDNSConfig option \<Rightarrow> MiekgService \<Rightarrow> unit result \<times> MiekgService" where
  "Miekg_Reconcile Fqdn config s =
     (if \<not> msRunning s then (Inl (Errorf ''dns server not running''), s)
      else let zds = (case config of None \<Rightarrow> [] | Some zs \<Rightarrow> map (buildZoneData Fqdn) zs);
               newZones = foldl (\<lambda>m zd. m(ToLower (zdName zd) \<mapsto> zd)) Map.empty zds;
               sortedNames = sortByLengthDesc (map (\<lambda>zd. ToLower (zdName zd)) zds)
           in (Inr (), s\<lparr>msZones := newZones, msSortedZones := sortedNames\<rparr>))"

record ServerStatus =
  ssListening :: bool
  ssListenAddr :: string
  ssZoneCount :: nat
  ssZoneSerials :: "string \<rightharpoonup> 32 word"
  ssQueriesTotal :: "64 word"

definition Miekg_GetStatus :: "MiekgService \<Rightarrow> ServerStatus" where
  "Miekg_GetStatus s =
     \<lparr>ssListening = msRunning s, ssListenAddr = msListenAddr s, ssZoneCount = card (dom (msZones s)),
      ssZoneSerials = map_option zdSerial \<circ> msZones s, ssQueriesTotal = msQueriesTotal s\<rparr>"

definition zone_matches :: "string \<Rightarrow> string \<Rightarrow> bool" where
  "zone_matches qname zone = (qname = zone \<or> HasSuffix qname (''.'' @ zone))"

definition findZone :: "MiekgService \<Rightarrow> string \<Rightarrow> zoneData option" where
  "findZone s qname =
     (case find (zone_matches qname) (msSortedZones s) of
        None \<Rightarrow> None
      | Some zone \<Rightarrow> msZones s zone)"

definition nameExistsInZone :: "zoneData \<Rightarrow> string \<Rightarrow> bool" where
  "nameExistsInZone zd qname = list_ex (\<lambda>(k, _). fst k = qname) (zdRecords zd)"

section \<open>Zone transfer\<close>

definition isTransferAllowed :: "zoneData \<Rightarrow> ip \<Rightarrow> bool" where
  "isTransferAllowed zd clientIP = list_ex (\<lambda>cidr. net_Contains cidr clientIP) (zdTransferAllowed zd)"

definition extractIP :: "string option \<Rightarrow> ip option" where
  "extractIP addr =
     (case addr of
        None \<Rightarrow> None
      | Some a \<Rightarrow> (case SplitHostPort a of None \<Rightarrow> ParseIP a | Some (host, _) \<Rightarrow> ParseIP host))"

fun axfr_batches :: "RR list \<Rightarrow> RR list \<Rightarrow> RR list list" where
  "axfr_batches batch [] = (if batch \<noteq> [] then [batch] else [])"
| "axfr_batches batch (rr # rrs) =
     (let batch = batch @ [rr]
      in if length batch \<ge> 100 then batch # axfr_batches [] rrs else axfr_batches batch rrs)"

definition axfr_envelopes :: "recordKey list \<Rightarrow> zoneData \<Rightarrow> RR list list" where
  "axfr_envelopes order zd =
     [[buildSOA zd]] @ axfr_batches [] (concat (map (records_get (zdRecords zd)) order)) @ [[buildSOA zd]]"

section \<open>Queries\<close>

definition RcodeSuccess :: int where "RcodeSuccess = 0"
definition RcodeServerFailure :: int where "RcodeServerFailure = 2"
definition RcodeNameError :: int where "RcodeNameError = 3"
definition RcodeRefused :: int where "RcodeRefused = 5"

record Msg =
  msgRcode :: int
  msgAuthoritative :: bool
  msgAnswer :: "RR list"
  msgNs :: "RR list"

datatype response = WriteMsg Msg | TransferOut "RR list list"

definition reply :: "int \<Rightarrow> bool \<Rightarrow> RR list \<Rightarrow> RR list \<Rightarrow> response" where
  "reply rcode auth answer ns = WriteMsg \<lparr>msgRcode = rcode, msgAuthoritative = auth, msgAnswer = answer, msgNs = ns\<rparr>"

definition refuseAXFR :: response where
  "refuseAXFR = reply RcodeRefused False [] []"

definition handleAXFR :: "recordKey list \<Rightarrow> string option \<Rightarrow> bool \<Rightarrow> zoneData \<Rightarrow> response" where
  "handleAXFR order remote enabled zd =
     (if \<not> enabled then refuseAXFR
      else if zdTransferAllowed zd = [] then refuseAXFR
      else case extractIP remote of
             None \<Rightarrow> refuseAXFR
           | Some clientIP \<Rightarrow>
               if \<not> isTransferAllowed zd clientIP then refuseAXFR
               else TransferOut (axfr_envelopes order zd))"

definition auto_ns :: "zoneData \<Rightarrow> RR" where
  "auto_ns zd = RR_NS \<lparr>hdrName = zdName zd, hdrRrtype = TypeNS, hdrTtl = zdTTL zd\<rparr> (''ns1.'' @ zdName zd)"

definition cname_target :: "RR list \<Rightarrow> string option" where
  "cname_target rrs = (case rrs of RR_CNAME _ target # _ \<Rightarrow> Some target | _ \<Rightarrow> None)"

text \<open>The lookup part of \<open>handleQuery\<close>, for a zone that was found.\<close>

definition answer_query :: "string \<Rightarrow> 16 word \<Rightarrow> zoneData \<Rightarrow> response" where
  "answer_query qname qtype zd =
     (let get = records_get (zdRecords zd)
      in if qtype = TypeSOA then reply RcodeSuccess True [buildSOA zd] []
         else if qtype = TypeNS \<and> qname = ToLower (zdName zd) then
           (let rrs = get (qname, TypeNS)
            in reply RcodeSuccess True (if rrs \<noteq> [] then rrs else [auto_ns zd]) [])
         else
           (let rrs = get (qname, qtype); cnameRRs = get (qname, TypeCNAME)
            in if rrs = [] \<and> qtype \<noteq> TypeCNAME \<and> cnameRRs \<noteq> [] then
                 reply RcodeSuccess True
                   (cnameRRs @ (case cname_target cnameRRs of None \<Rightarrow> [] | Some t \<Rightarrow> get (ToLower t, qtype))) []
               else if rrs \<noteq> [] then reply RcodeSuccess True rrs []
               else reply (if nameExistsInZone zd qname then RcodeSuccess else RcodeNameError) True [] [buildSOA zd]))"

definition handleQuery ::
  "recordKey list \<Rightarrow> string option \<Rightarrow> (string \<times> 16 word) list \<Rightarrow> MiekgService \<Rightarrow> response \<times> MiekgService" where
  "handleQuery order remote questions s =
     (let s = s\<lparr>msQueriesTotal := msQueriesTotal s + 1\<rparr>
      in case questions of
           [] \<Rightarrow> (reply RcodeServerFailure True [] [], s)
         | (qn, qtype) # _ \<Rightarrow>
             (let qname = ToLower qn
              in case findZone s qname of
                   None \<Rightarrow> (reply RcodeRefused False [] [], s)
                 | Some zd \<Rightarrow>
                     (if qtype = TypeAXFR then handleAXFR order remote (msAxfrEnabled s) zd
                      else answer_query qname qtype zd, s)))"

section \<open>The order of the zones\<close>

definition sink :: "string \<Rightarrow> string list \<Rightarrow> string list" where
  "sink x xs = rev (dropWhile (\<lambda>y. length y < length x) (rev xs)) @ x # rev (takeWhile (\<lambda>y. length y < length x) (rev xs))"

lemma sink_Nil [simp]: "sink x [] = [x]"
  by (simp add: sink_def)

lemma sink_snoc: "sink x (xs @ [y]) = (if length y < length x then sink x xs @ [y] else xs @ [y, x])"
  by (simp add: sink_def)

lemma sort_inner_sink: "sort_inner (xs @ x # ys) (length xs) = sink x xs @ ys"
proof (induction xs arbitrary: ys rule: rev_induct)
  case Nil
  then show ?case by (subst sort_inner.simps) simp
next
  case (snoc y xs)
  have "(xs @ y # x # ys)[Suc (length xs) := y, length xs := x] = xs @ x # y # ys"
    by (simp add: list_update_append)
  then show ?case
    using snoc [of "y # ys"] by (subst sort_inner.simps) (simp add: sink_snoc nth_append)
qed

lemma length_sink [simp]: "length (sink x xs) = Suc (length xs)"
  by (induction xs rule: rev_induct) (auto simp: sink_snoc)

lemma sort_outer_foldl: "sort_outer (ps @ ys) (length ps) = foldl (\<lambda>acc y. sink y acc) ps ys"
proof (induction ys arbitrary: ps)
  case Nil
  then show ?case by (subst sort_outer.simps) simp
next
  case (Cons y ys)
  have "sort_outer (ps @ y # ys) (length ps) = sort_outer (sink y ps @ ys) (length (sink y ps))"
    by (subst sort_outer.simps) (simp add: sort_inner_sink)
  then show ?case using Cons [of "sink y ps"] by simp
qed

lemma sink_split:
  assumes "sorted (map (\<lambda>x. - int (length x)) xs)"
  obtains as bs where "xs = as @ bs" "sink x xs = as @ x # bs" "\<forall>a \<in> set as. length x \<le> length a" "\<forall>b \<in> set bs. length b < length x"
proof -
  let ?as = "rev (dropWhile (\<lambda>y. length y < length x) (rev xs))"
  let ?bs = "rev (takeWhile (\<lambda>y. length y < length x) (rev xs))"
  have xs: "xs = ?as @ ?bs" by (metis rev_append rev_rev_ident takeWhile_dropWhile_id)
  have "length x \<le> length a" if "a \<in> set ?as" for a
  proof (cases "dropWhile (\<lambda>y. length y < length x) (rev xs)")
    case (Cons z zs)
    then have "\<not> length z < length x" using hd_dropWhile [of "\<lambda>y. length y < length x" "rev xs"] by simp
    moreover have "sorted (map (\<lambda>x. - int (length x)) (rev zs @ [z]))"
      using assms Cons xs by (metis map_append rev.simps(2) sorted_append)
    ultimately show ?thesis using that Cons by (auto simp: sorted_append)
  next
    case Nil
    then show ?thesis using that by (simp del: dropWhile_eq_Nil_conv)
  qed
  moreover have "\<forall>b \<in> set ?bs. length b < length x" by (auto dest: set_takeWhileD)
  ultimately show ?thesis by (intro that [OF xs]) (simp_all only: sink_def, blast+)
qed

text \<open>The nested loops compute the stable sort by decreasing length.\<close>

lemma sortByLengthDesc_sorts: "sortByLengthDesc s = sort_key (\<lambda>x. - int (length x)) s"
proof -
  let ?f = "\<lambda>x::string. - int (length x)"
  have "foldl (\<lambda>acc y. sink y acc) [] s = sort_key ?f s"
  proof (induction s rule: rev_induct)
    case (snoc y s)
    obtain as bs where split: "sort_key ?f s = as @ bs" "sink y (sort_key ?f s) = as @ y # bs"
      "\<forall>a \<in> set as. length y \<le> length a" "\<forall>b \<in> set bs. length b < length y"
      by (rule sink_split [of "sort_key ?f s" y]) (simp_all add: sorted_sort_key)
    have "sorted (map ?f (as @ bs))" using sorted_sort_key [of ?f s] split(1) by simp
    then have "sorted (map ?f (as @ y # bs))" using split(3,4) by (fastforce simp: sorted_append)
    moreover have "mset (as @ y # bs) = mset (s @ [y])" using arg_cong [OF split(1), of mset] by simp
    moreover have "filter (\<lambda>x. ?f k = ?f x) (as @ y # bs) = filter (\<lambda>x. ?f k = ?f x) (s @ [y])" for k
    proof -
      have "filter (\<lambda>x. ?f k = ?f x) s = filter (\<lambda>x. ?f k = ?f x) (as @ bs)"
      proof -
        have "(\<lambda>x. ?f k = ?f x) = (\<lambda>x. ?f x = ?f k)" by auto
        then show ?thesis unfolding split(1) [symmetric] by (metis sort_key_stable)
      qed
      moreover have "filter (\<lambda>x. ?f y = ?f x) bs = []" using split(4) by (auto simp: filter_empty_conv)
      ultimately show ?thesis by (cases "length y = length k") auto
    qed
    ultimately have "sort_key ?f (s @ [y]) = as @ y # bs"
      by (intro properties_for_sort_key) auto
    then show ?case using snoc split(2) by simp
  qed simp
  then show ?thesis
    using sort_outer_foldl [of "[hd s]" "tl s"] sort_outer.simps [of s 1]
    by (cases s) (simp_all add: sortByLengthDesc_def)
qed

section \<open>The zone of a query\<close>

definition zone_key :: "ZoneWithRecords \<Rightarrow> string" where
  "zone_key c = ToLower (zoneName (zwrZone c))"

text \<open>The most specific zone of a configuration; of zones with the same name the last one.\<close>

definition best_zone :: "NodeDNSConfig \<Rightarrow> string \<Rightarrow> ZoneWithRecords option" where
  "best_zone cfg q =
     (let ms = filter (\<lambda>c. zone_matches q (zone_key c)) cfg
      in if ms = [] then None
         else Some (last (filter (\<lambda>c. length (zone_key c) = Max (set (map (length \<circ> zone_key) ms))) ms)))"

lemma zone_matches_suffix: "zone_matches q z \<Longrightarrow> suffix z q"
  by (auto simp: zone_matches_def HasSuffix_def suffix_def)

lemma zone_matches_same_length: "zone_matches q a \<Longrightarrow> zone_matches q b \<Longrightarrow> length a = length b \<Longrightarrow> a = b"
  using zone_matches_suffix [of q a] zone_matches_suffix [of q b] by (auto simp: suffix_def)

lemma find_sorted:
  "sorted (map f xs) \<Longrightarrow> find P xs = Some n \<Longrightarrow> n \<in> set xs \<and> P n \<and> (\<forall>m \<in> set xs. P m \<longrightarrow> f n \<le> f m)"
  by (induction xs) (auto split: if_splits)

lemma foldl_map_upd:
  "foldl (\<lambda>m x. m(key x \<mapsto> x)) Map.empty xs k =
     (if filter (\<lambda>x. key x = k) xs = [] then None else Some (last (filter (\<lambda>x. key x = k) xs)))"
  by (induction xs rule: rev_induct) auto

lemma buildZoneData_sel [simp]:
  "zdName (buildZoneData Fqdn c) = zoneName (zwrZone c)" "zdSerial (buildZoneData Fqdn c) = zoneSerial (zwrZone c)"
  "zdTTL (buildZoneData Fqdn c) = zone_ttl (zwrZone c)"
  "zdTransferAllowed (buildZoneData Fqdn c) = parseAllowedCIDRs (zoneTransferAllowedIPs (zwrZone c))"
  by (simp_all add: buildZoneData_def Let_def)

lemma best_zone_find:
  "find (zone_matches q) (sortByLengthDesc (map zone_key cfg)) = None \<Longrightarrow> best_zone cfg q = None"
  "find (zone_matches q) (sortByLengthDesc (map zone_key cfg)) = Some n \<Longrightarrow>
     best_zone cfg q = Some (last (filter (\<lambda>c. zone_key c = n) cfg)) \<and> filter (\<lambda>c. zone_key c = n) cfg \<noteq> []"
proof -
  assume "find (zone_matches q) (sortByLengthDesc (map zone_key cfg)) = None"
  then show "best_zone cfg q = None"
    by (auto simp: find_None_iff sortByLengthDesc_sorts best_zone_def Let_def filter_empty_conv)
next
  let ?ms = "filter (\<lambda>c. zone_matches q (zone_key c)) cfg"
  assume "find (zone_matches q) (sortByLengthDesc (map zone_key cfg)) = Some n"
  then have "n \<in> set (map zone_key cfg)" and n: "zone_matches q n"
    and max: "\<And>m. m \<in> set (map zone_key cfg) \<Longrightarrow> zone_matches q m \<Longrightarrow> length m \<le> length n"
    using find_sorted [of "\<lambda>x. - int (length x)" "sort_key (\<lambda>x. - int (length x)) (map zone_key cfg)" "zone_matches q" n]
    by (auto simp: sortByLengthDesc_sorts sorted_sort_key)
  then obtain c where c: "c \<in> set cfg" "zone_key c = n" by auto
  have "Max (set (map (length \<circ> zone_key) ?ms)) = length n"
    using c n max by (intro Max_eqI) force+
  moreover have "filter (\<lambda>c. length (zone_key c) = length n) ?ms = filter (\<lambda>c. zone_key c = n) cfg"
    using n zone_matches_same_length [OF _ n] by (auto intro!: filter_cong)
  moreover have "?ms \<noteq> []" using c n by (auto simp: filter_empty_conv)
  ultimately show "best_zone cfg q = Some (last (filter (\<lambda>c. zone_key c = n) cfg)) \<and> filter (\<lambda>c. zone_key c = n) cfg \<noteq> []"
    using c by (auto simp: best_zone_def Let_def filter_empty_conv)
qed

lemma findZone_reconciled:
  assumes "msRunning s"
  shows "findZone ((snd (Miekg_Reconcile Fqdn (Some cfg) s))\<lparr>msQueriesTotal := k\<rparr>) q = map_option (buildZoneData Fqdn) (best_zone cfg q)"
proof -
  have names: "map (\<lambda>zd. ToLower (zdName zd)) (map (buildZoneData Fqdn) cfg) = map zone_key cfg"
    by (simp add: zone_key_def)
  have zones: "foldl (\<lambda>m zd. m(ToLower (zdName zd) \<mapsto> zd)) Map.empty (map (buildZoneData Fqdn) cfg) n =
      (if filter (\<lambda>c. zone_key c = n) cfg = [] then None else Some (buildZoneData Fqdn (last (filter (\<lambda>c. zone_key c = n) cfg))))" for n
  proof -
    have "filter (\<lambda>zd. ToLower (zdName zd) = n) (map (buildZoneData Fqdn) cfg) = map (buildZoneData Fqdn) (filter (\<lambda>c. zone_key c = n) cfg)"
      by (simp add: filter_map comp_def zone_key_def)
    then show ?thesis
      using foldl_map_upd [of "\<lambda>zd. ToLower (zdName zd)" "map (buildZoneData Fqdn) cfg" n] by (simp add: last_map)
  qed
  show ?thesis
    using assms best_zone_find [of q cfg]
    by (cases "find (zone_matches q) (sortByLengthDesc (map zone_key cfg))")
      (simp_all add: findZone_def Miekg_Reconcile_def Let_def names [unfolded map_map] zones)
qed

section \<open>Answers\<close>

definition zone_rrs :: "(string \<Rightarrow> string) \<Rightarrow> ZoneWithRecords \<Rightarrow> RR list" where
  "zone_rrs Fqdn c = concat (map (\<lambda>r. convertRecord Fqdn r (zoneName (zwrZone c)) (zone_ttl (zwrZone c))) (zwrRecords c))"

lemma records_get_append:
  "records_get (records_append rm k rr) k' = (if k' = k then records_get rm k @ [rr] else records_get rm k')"
  by (induction rm k rr rule: records_append.induct) (auto simp: records_get_def)

lemma records_append_keys: "fst ` set (records_append rm k rr) = insert k (fst ` set rm)"
  by (induction rm k rr rule: records_append.induct) auto

lemma foldl_append_get:
  "records_get (foldl (\<lambda>rm rr. records_append rm (rr_key rr) rr) rm rrs) k = records_get rm k @ filter (\<lambda>rr. rr_key rr = k) rrs"
  by (induction rrs arbitrary: rm) (auto simp: records_get_append)

lemma foldl_append_keys:
  "fst ` set (foldl (\<lambda>rm rr. records_append rm (rr_key rr) rr) rm rrs) = fst ` set rm \<union> rr_key ` set rrs"
  by (induction rrs arbitrary: rm) (auto simp: records_append_keys)

lemma foldl_concat: "foldl (\<lambda>a x. foldl g a (f x)) a xs = foldl g a (concat (map f xs))"
  by (induction xs arbitrary: a) auto

lemma build_records:
  "zdRecords (buildZoneData Fqdn c) = foldl (\<lambda>rm rr. records_append rm (rr_key rr) rr) [] (zone_rrs Fqdn c)"
  by (simp add: buildZoneData_def Let_def foldl_concat zone_rrs_def)

lemma build_get [simp]:
  "records_get (zdRecords (buildZoneData Fqdn c)) k = filter (\<lambda>rr. rr_key rr = k) (zone_rrs Fqdn c)"
  unfolding build_records foldl_append_get by (simp add: records_get_def)

lemma build_exists [simp]:
  "nameExistsInZone (buildZoneData Fqdn c) q \<longleftrightarrow> (\<exists>rr \<in> set (zone_rrs Fqdn c). fst (rr_key rr) = q)"
proof -
  have "nameExistsInZone (buildZoneData Fqdn c) q \<longleftrightarrow> q \<in> fst ` fst ` set (zdRecords (buildZoneData Fqdn c))"
    by (force simp: nameExistsInZone_def list_ex_iff)
  also have "fst ` set (zdRecords (buildZoneData Fqdn c)) = rr_key ` set (zone_rrs Fqdn c)"
    unfolding build_records foldl_append_keys by simp
  finally show ?thesis by auto
qed


lemma lower_char_dot [simp]: "lower_char c = CHR ''.'' \<longleftrightarrow> c = CHR ''.''"
proof -
  have "char_of (of_char c + 32 :: nat) \<noteq> CHR ''.''" if "65 \<le> (of_char c :: nat)" "(of_char c :: nat) \<le> 90"
  proof
    assume "char_of (of_char c + 32 :: nat) = CHR ''.''"
    then have "of_char (char_of (of_char c + 32 :: nat)) = (of_char CHR ''.'' :: nat)" by (rule arg_cong)
    then show False using that by simp
  qed
  then show ?thesis by (auto simp: lower_char_def)
qed

lemma HasSuffix_dot: "HasSuffix x ''.'' \<longleftrightarrow> x \<noteq> [] \<and> last x = CHR ''.''"
  by (cases x rule: rev_cases) (auto simp: HasSuffix_def suffix_def)

lemma HasSuffix_lower [simp]: "HasSuffix (ToLower x) ''.'' \<longleftrightarrow> HasSuffix x ''.''"
  by (auto simp: HasSuffix_dot ToLower_def last_map)

text \<open>
  C37: A zone whose name is stored without its trailing dot is never found: names on the
  wire end in a dot, so every query is refused.
\<close>

theorem undotted_zones_refused:
  assumes "msRunning s" "s' = snd (Miekg_Reconcile Fqdn (Some cfg) s)"
    and "\<forall>c \<in> set cfg. \<not> HasSuffix (zoneName (zwrZone c)) ''.'' \<and> zoneName (zwrZone c) \<noteq> ''''"
    and "HasSuffix qn ''.''"
  shows "fst (handleQuery order remote ((qn, qtype) # qs) s') = reply RcodeRefused False [] []"
proof -
  have q: "HasSuffix (ToLower qn) ''.''" using assms(4) by simp
  have "\<not> zone_matches (ToLower qn) (zone_key c)" if "c \<in> set cfg" for c
  proof -
    have z: "\<not> HasSuffix (zone_key c) ''.''" "zone_key c \<noteq> ''''"
      using assms(3) that by (simp_all add: zone_key_def) (simp add: ToLower_def)
    show ?thesis
      using q z by (cases "zone_key c" rule: rev_cases) (auto simp: zone_matches_def HasSuffix_def suffix_def)
  qed
  then have "best_zone cfg (ToLower qn) = None" by (simp add: best_zone_def Let_def filter_empty_conv)
  moreover have "findZone (s'\<lparr>msQueriesTotal := k\<rparr>) (ToLower qn) = map_option (buildZoneData Fqdn) (best_zone cfg (ToLower qn))" for k
    unfolding assms(2) by (rule findZone_reconciled [OF assms(1)])
  ultimately show ?thesis by (simp add: handleQuery_def Let_def)
qed

section \<open>Transfers\<close>

lemma axfr_batches_concat: "concat (axfr_batches batch rrs) = batch @ rrs"
  by (induction batch rrs rule: axfr_batches.induct) (auto simp: Let_def)

lemma axfr_batches_size: "length batch < 100 \<Longrightarrow> e \<in> set (axfr_batches batch rrs) \<Longrightarrow> 0 < length e \<and> length e \<le> 100"
  by (induction batch rrs rule: axfr_batches.induct) (auto simp: Let_def split: if_splits)

lemma mset_by_key:
  "distinct ks \<Longrightarrow> mset (concat (map (\<lambda>k. filter (\<lambda>x. f x = k) xs) ks)) = mset (filter (\<lambda>x. f x \<in> set ks) xs)"
proof (induction ks)
  case (Cons k ks)
  have "mset (filter (\<lambda>x. f x = k \<or> f x \<in> set ks) xs) = mset (filter (\<lambda>x. f x = k) xs) + mset (filter (\<lambda>x. f x \<in> set ks) xs)"
    using Cons(2) by (induction xs) auto
  then show ?case using Cons by simp
qed simp

lemma parseAllowed_Cons: "parseAllowedCIDRs (e # ips) = parseAllowedCIDRs [e] @ parseAllowedCIDRs ips"
  by (simp add: Let_def split: option.split prod.split)

lemma parseAllowed_set: "set (parseAllowedCIDRs ips) = (\<Union>e \<in> set ips. set (parseAllowedCIDRs [e]))"
proof (induction ips)
  case (Cons e ips)
  then show ?case by (subst parseAllowed_Cons) (simp only: set_append list.set UN_insert Cons)
qed simp

text \<open>
  C15: A zone is transferred only when transfers are enabled and the client's address is in
  one of the networks of the zone's list.  What is sent starts and ends with the zone's
  SOA record and has every record of the zone in between exactly once, in messages of at
  most 100 records, whatever order the map of the records is visited in.
\<close>

theorem transfer_sends_zone:
  assumes "msRunning s" "s' = snd (Miekg_Reconcile Fqdn (Some cfg) s)"
    and "fst (handleQuery order remote ((qn, TypeAXFR) # qs) s') = TransferOut envs"
    and "\<And>c. best_zone cfg (ToLower qn) = Some c \<Longrightarrow> distinct order \<and> set order = rr_key ` set (zone_rrs Fqdn c)"
  shows "\<exists>c ip entry net rrs. best_zone cfg (ToLower qn) = Some c \<and> msAxfrEnabled s \<and>
     extractIP remote = Some ip \<and> entry \<in> set (zoneTransferAllowedIPs (zwrZone c)) \<and>
     net \<in> set (parseAllowedCIDRs [entry]) \<and> net_Contains net ip \<and>
     concat envs = buildSOA (buildZoneData Fqdn c) # rrs @ [buildSOA (buildZoneData Fqdn c)] \<and>
     mset rrs = mset (zone_rrs Fqdn c) \<and> (\<forall>e \<in> set envs. 0 < length e \<and> length e \<le> 100)"
proof -
  have "findZone (s'\<lparr>msQueriesTotal := k\<rparr>) (ToLower qn) = map_option (buildZoneData Fqdn) (best_zone cfg (ToLower qn))" for k
    unfolding assms(2) by (rule findZone_reconciled [OF assms(1)])
  moreover have "msAxfrEnabled s' = msAxfrEnabled s" using assms(1,2) by (simp add: Miekg_Reconcile_def Let_def)
  ultimately obtain c where c: "best_zone cfg (ToLower qn) = Some c"
    and axfr: "handleAXFR order remote (msAxfrEnabled s) (buildZoneData Fqdn c) = TransferOut envs"
    using assms(3) by (auto simp: handleQuery_def Let_def reply_def split: option.splits)
  let ?zd = "buildZoneData Fqdn c"
  obtain ip where ip: "msAxfrEnabled s" "extractIP remote = Some ip" "isTransferAllowed ?zd ip"
    and envs: "envs = axfr_envelopes order ?zd"
    using axfr by (auto simp: handleAXFR_def refuseAXFR_def reply_def split: if_splits option.splits)
  obtain net entry where net: "entry \<in> set (zoneTransferAllowedIPs (zwrZone c))" "net \<in> set (parseAllowedCIDRs [entry])"
    "net_Contains net ip"
    using ip(3) parseAllowed_set [of "zoneTransferAllowedIPs (zwrZone c)"] by (auto simp: isTransferAllowed_def list_ex_iff)
  let ?rrs = "concat (map (\<lambda>k. filter (\<lambda>rr. rr_key rr = k) (zone_rrs Fqdn c)) order)"
  have get: "records_get (zdRecords ?zd) = (\<lambda>k. filter (\<lambda>rr. rr_key rr = k) (zone_rrs Fqdn c))" by (rule ext) simp
  have "concat envs = buildSOA ?zd # ?rrs @ [buildSOA ?zd]"
    by (simp add: envs axfr_envelopes_def axfr_batches_concat get)
  moreover have "mset ?rrs = mset (zone_rrs Fqdn c)"
    using mset_by_key [of order rr_key "zone_rrs Fqdn c"] assms(4) [OF c] by (simp add: filter_True)
  moreover have "0 < length e \<and> length e \<le> 100" if "e \<in> set envs" for e
    using that axfr_batches_size [of "[]" e ?rrs] by (auto simp: envs axfr_envelopes_def get)
  ultimately show ?thesis using c ip(1,2) net by blast
qed

section \<open>Sample queries\<close>

definition sample_fqdn :: "string \<Rightarrow> string" where
  "sample_fqdn x = (if HasSuffix x ''.'' then x else x @ ''.'')"

definition sample_server :: MiekgService where
  "sample_server = (NewMiekgService True)\<lparr>msRunning := True\<rparr>"

definition open_zone :: ZoneWithRecords where
  "open_zone = \<lparr>zwrZone = dns_zone\<lparr>zoneTransferAllowedIPs := [''10.0.0.1'']\<rparr>, zwrRecords = [dns_record]\<rparr>"

lemma sample_best:
  "best_zone [\<lparr>zwrZone = dns_zone, zwrRecords = rs\<rparr>] ''www.example.com.'' = Some \<lparr>zwrZone = dns_zone, zwrRecords = rs\<rparr>"
  "best_zone [open_zone] (ToLower ''example.com.'') = Some open_zone"
  by (simp_all add: best_zone_def zone_matches_def zone_key_def dns_zone_def open_zone_def ToLower_def lower_char_def
      HasSuffix_def suffix_def)


theorem undotted_zones_refused_witness:
  "fst (handleQuery [] None [(''www.example.com.'', TypeA)]
     (snd (Miekg_Reconcile sample_fqdn (Some [\<lparr>zwrZone = dns_zone\<lparr>zoneName := ''example.com''\<rparr>, zwrRecords = [dns_record]\<rparr>]) sample_server))) =
   reply RcodeRefused False [] []"
  by (rule undotted_zones_refused [OF _ refl]) (simp_all add: sample_server_def HasSuffix_def suffix_def)

theorem transfer_sends_zone_witness:
  "\<exists>envs. fst (handleQuery [(''www.example.com.'', TypeCNAME)] (Some ''10.0.0.1:5353'') [(''example.com.'', TypeAXFR)]
       (snd (Miekg_Reconcile sample_fqdn (Some [open_zone]) sample_server))) = TransferOut envs \<and>
     (\<exists>soa rrs. concat envs = soa # rrs @ [soa] \<and> mset rrs = mset (zone_rrs sample_fqdn open_zone))"
proof -
  let ?s' = "snd (Miekg_Reconcile sample_fqdn (Some [open_zone]) sample_server)"
  have rrs: "zone_rrs sample_fqdn open_zone =
      [RR_CNAME \<lparr>hdrName = ''www.example.com.'', hdrRrtype = TypeCNAME, hdrTtl = 3600\<rparr> ''example.com.'']"
    by (simp add: zone_rrs_def convertRecord_def Let_def dns_record_def dns_zone_def record_fqdn_def record_ttl_def
        zone_ttl_def sample_fqdn_def HasSuffix_def suffix_def open_zone_def)
  have key: "rr_key ` set (zone_rrs sample_fqdn open_zone) = {(''www.example.com.'', TypeCNAME)}"
    by (simp add: rrs rr_key_def ToLower_def lower_char_def)
  have ip: "ParseIP ''10.0.0.1'' = Some (IP16 (v4_mapped 0x0A000001))"
  proof -
    have "char_of (49::nat) = CHR ''1''" "char_of (48::nat) = CHR ''0''"
      using char_of_char [of "CHR ''1''"] char_of_char [of "CHR ''0''"] by simp_all
    then have "IPv4_string 0x0A000001 = ''10.0.0.1''"
      by (simp add: IPv4_string_def octet_def utoa.simps digit_char_def)
    then show ?thesis by (metis ParseIP_IPv4)
  qed
  have "extractIP (Some ''10.0.0.1:5353'') = Some (IP16 (v4_mapped 0x0A000001))"
    by (simp add: extractIP_def SplitHostPort_def cut_last_def ip)
  moreover have "parseAllowedCIDRs [''10.0.0.1''] = [\<lparr>netIP = IP16 (v4_mapped 0x0A000001), netOnes = 32, netBits = 32\<rparr>]"
    using To4_v4_mapped [of "0x0A000001"] by (simp add: ip del: To4.simps)
  moreover have "net_Contains \<lparr>netIP = IP16 (v4_mapped 0x0A000001), netOnes = 32, netBits = 32\<rparr> (IP16 (v4_mapped 0x0A000001))"
    using To4_v4_mapped [of "0x0A000001"] by (simp add: net_Contains_def del: To4.simps)
  ultimately have "\<exists>envs. handleAXFR [(''www.example.com.'', TypeCNAME)] (Some ''10.0.0.1:5353'') True (buildZoneData sample_fqdn open_zone) =
      TransferOut envs"
    by (simp add: handleAXFR_def isTransferAllowed_def open_zone_def del: parseAllowedCIDRs.simps)
  moreover have "findZone (?s'\<lparr>msQueriesTotal := k\<rparr>) (ToLower ''example.com.'') = Some (buildZoneData sample_fqdn open_zone)" for k
    using findZone_reconciled [of sample_server k sample_fqdn "[open_zone]" "ToLower ''example.com.''"]
    by (simp add: sample_best sample_server_def)
  moreover have "msAxfrEnabled ?s'" by (simp add: Miekg_Reconcile_def Let_def sample_server_def NewMiekgService_def)
  ultimately obtain envs where envs: "fst (handleQuery [(''www.example.com.'', TypeCNAME)] (Some ''10.0.0.1:5353'')
      [(''example.com.'', TypeAXFR)] ?s') = TransferOut envs"
    by (auto simp: handleQuery_def Let_def)
  from transfer_sends_zone [OF _ refl envs] have "\<exists>soa rrs. concat envs = soa # rrs @ [soa] \<and> mset rrs = mset (zone_rrs sample_fqdn open_zone)"
    using key by (fastforce simp: sample_best sample_server_def)
  with envs show ?thesis by blast
qed

end
