(* ===== verification/EF_Crypto.thy ===== *)
theory EF_Crypto
  imports EF_Prelude
begin

text \<open>
  The cryptographic code of the controller: \<open>internal/crypto/crypto.go\<close> and the secret
  store \<open>internal/secrets/store.go\<close>, on the parts of the standard library they use, base64
  (\<open>encoding/base64\<close>), SHA-256 and HMAC (\<open>crypto/sha256\<close>, \<open>crypto/hmac\<close>) and AES in Galois
  counter mode (\<open>crypto/aes\<close>, \<open>crypto/cipher\<close>).

  A byte slice is a \<^typ>\<open>string\<close>.  Random bytes are arguments.  The lemmas show that base64
  and the authenticated encryption are inverted by their decoders and that a secret stays
  readable when the key ring is rotated.
\<close>

unbundle bit_operations_syntax

section \<open>Bytes and words\<close>

text \<open>Big-endian conversion between bytes and words.\<close>

definition be_word :: "string \<Rightarrow> 'a::len word" where
  "be_word bs = foldl (\<lambda>w c. w * 256 + word_of_nat (of_char c)) 0 bs"

definition be_bytes :: "nat \<Rightarrow> 'a::len word \<Rightarrow> string" where
  "be_bytes n w = map (\<lambda>i. char_of (unat (drop_bit (8 * (n - 1 - i)) w AND 255))) [0..<n]"

fun chunks :: "nat \<Rightarrow> string \<Rightarrow> string list" where
  "chunks n bs = (if n = 0 \<or> bs = [] then [] else take n bs # chunks n (drop n bs))"

declare chunks.simps [simp del]

definition xor_char :: "char \<Rightarrow> char \<Rightarrow> char" where
  "xor_char a b = char_of ((of_char a :: nat) XOR of_char b)"

section \<open>Base64\<close>

definition b64_std :: string where
  "b64_std = ''ABCDEFGHIJKLMNOPQRSTUVWXYZabcdefghijklmnopqrstuvwxyz0123456789+/''"

definition b64_url :: string where
  "b64_url = ''ABCDEFGHIJKLMNOPQRSTUVWXYZabcdefghijklmnopqrstuvwxyz0123456789-_''"

text \<open>\<open>EncodeToString\<close>, with padding or without.\<close>

fun b64_encode :: "string \<Rightarrow> bool \<Rightarrow> nat list \<Rightarrow> string" where
  "b64_encode alph pad [] = []"
| "b64_encode alph pad [a] =
     [alph ! (a div 4), alph ! (a mod 4 * 16)] @ (if pad then ''=='' else [])"
| "b64_encode alph pad [a, b] =
     [alph ! (a div 4), alph ! (a mod 4 * 16 + b div 16), alph ! (b mod 16 * 4)] @ (if pad then ''='' else [])"
| "b64_encode alph pad (a # b # c # bs) =
     [alph ! (a div 4), alph ! (a mod 4 * 16 + b div 16), alph ! (b mod 16 * 4 + c div 64), alph ! (c mod 64)]
     @ b64_encode alph pad bs"

definition b64_val :: "string \<Rightarrow> char \<Rightarrow> nat option" where
  "b64_val alph c = find (\<lambda>i. alph ! i = c) [0..<64]"

text \<open>
  The decoder, on input without newlines: full groups of four, then a group closed by
  padding or, without padding, a short group.  Spare bits of the last character are not
  checked.
\<close>

fun b64_groups :: "string \<Rightarrow> bool \<Rightarrow> string \<Rightarrow> nat list option" where
  "b64_groups alph pad [] = Some []"
| "b64_groups alph pad [x] = None"
| "b64_groups alph pad [x, y] =
     (case (b64_val alph x, b64_val alph y) of
        (Some i, Some j) \<Rightarrow> if pad then None else Some [i * 4 + j div 16]
      | _ \<Rightarrow> None)"
| "b64_groups alph pad [x, y, z] =
     (case (b64_val alph x, b64_val alph y, b64_val alph z) of
        (Some i, Some j, Some k) \<Rightarrow> if pad then None else Some [i * 4 + j div 16, j mod 16 * 16 + k div 4]
      | _ \<Rightarrow> None)"
| "b64_groups alph pad (x # y # z # u # xs) =
     (case (b64_val alph x, b64_val alph y) of
        (Some i, Some j) \<Rightarrow>
          (case b64_val alph z of
             Some k \<Rightarrow>
               (case b64_val alph u of
                  Some l \<Rightarrow>
                    map_option (\<lambda>bs. [i * 4 + j div 16, j mod 16 * 16 + k div 4, k mod 4 * 64 + l] @ bs)
                      (b64_groups alph pad xs)
                | None \<Rightarrow>
                    if pad \<and> u = CHR ''='' \<and> xs = [] then Some [i * 4 + j div 16, j mod 16 * 16 + k div 4] else None)
           | None \<Rightarrow> if pad \<and> z = CHR ''='' \<and> u = CHR ''='' \<and> xs = [] then Some [i * 4 + j div 16] else None)
      | _ \<Rightarrow> None)"

definition is_newline :: "char \<Rightarrow> bool" where
  "is_newline c = (c = CHR 0x0A \<or> c = CHR 0x0D)"

definition b64_decode :: "string \<Rightarrow> bool \<Rightarrow> string \<Rightarrow> nat list option" where
  "b64_decode alph pad s = b64_groups alph pad (filter (\<lambda>c. \<not> is_newline c) s)"

definition StdEncode :: "string \<Rightarrow> string" where
  "StdEncode bs = b64_encode b64_std True (map of_char bs)"

definition StdDecode :: "string \<Rightarrow> string option" where
  "StdDecode s = map_option (map char_of) (b64_decode b64_std True s)"

definition RawURLEncode :: "string \<Rightarrow> string" where
  "RawURLEncode bs = b64_encode b64_url False (map of_char bs)"

definition RawURLDecode :: "string \<Rightarrow> string option" where
  "RawURLDecode s = map_option (map char_of) (b64_decode b64_url False s)"

section \<open>SHA-256 and HMAC\<close>

definition sha256_K :: "32 word list" where
  "sha256_K =
    [1116352408, 1899447441, 3049323471, 3921009573, 961987163, 1508970993, 2453635748, 2870763221,
     3624381080, 310598401, 607225278, 1426881987, 1925078388, 2162078206, 2614888103, 3248222580,
     3835390401, 4022224774, 264347078, 604807628, 770255983, 1249150122, 1555081692, 1996064986,
     2554220882, 2821834349, 2952996808, 3210313671, 3336571891, 3584528711, 113926993, 338241895,
     666307205, 773529912, 1294757372, 1396182291, 1695183700, 1986661051, 2177026350, 2456956037,
     2730485921, 2820302411, 3259730800, 3345764771, 3516065817, 3600352804, 4094571909, 275423344,
     430227734, 506948616, 659060556, 883997877, 958139571, 1322822218, 1537002063, 1747873779,
     1955562222, 2024104815, 2227730452, 2361852424, 2428436474, 2756734187, 3204031479, 3329325298]"

definition sha256_init :: "32 word list" where
  "sha256_init =
    [1779033703, 3144134277, 1013904242, 2773480762, 1359893119, 2600822924, 528734635, 1541459225]"

definition rotr :: "nat \<Rightarrow> 32 word \<Rightarrow> 32 word" where
  "rotr n w = (drop_bit n w OR push_bit (32 - n) w)"

definition sha256_pad :: "string \<Rightarrow> string" where
  "sha256_pad m =
     (let z = (119 - length m mod 64) mod 64
      in m @ [CHR 0x80] @ replicate z CHR 0x00 @ be_bytes 8 (word_of_nat (8 * length m) :: 64 word))"

fun sha256_extend :: "nat \<Rightarrow> 32 word list \<Rightarrow> 32 word list" where
  "sha256_extend 0 ws = ws"
| "sha256_extend (Suc n) ws =
     (let t = length ws; x = ws ! (t - 15); y = ws ! (t - 2);
          s0 = rotr 7 x XOR rotr 18 x XOR drop_bit 3 x;
          s1 = rotr 17 y XOR rotr 19 y XOR drop_bit 10 y
      in sha256_extend n (ws @ [ws ! (t - 16) + s0 + ws ! (t - 7) + s1]))"

fun sha256_round :: "32 word list \<Rightarrow> 32 word \<times> 32 word \<Rightarrow> 32 word list" where
  "sha256_round [a, b, c, d, e, f, g, h] (k, w) =
     (let s1 = rotr 6 e XOR rotr 11 e XOR rotr 25 e;
          ch = (e AND f) XOR (NOT e AND g);
          t1 = h + s1 + ch + k + w;
          s0 = rotr 2 a XOR rotr 13 a XOR rotr 22 a;
          maj = (a AND b) XOR (a AND c) XOR (b AND c)
      in [t1 + s0 + maj, a, b, c, d + t1, e, f, g])"
| "sha256_round st _ = st"

definition sha256_block :: "32 word list \<Rightarrow> string \<Rightarrow> 32 word list" where
  "sha256_block st blk =
     map2 (+) st (foldl sha256_round st (zip sha256_K (sha256_extend 48 (map be_word (chunks 4 blk)))))"

definition sha256 :: "string \<Rightarrow> string" where
  "sha256 m = concat (map (be_bytes 4) (foldl sha256_block sha256_init (chunks 64 (sha256_pad m))))"

definition hmac_sha256 :: "string \<Rightarrow> string \<Rightarrow> string" where
  "hmac_sha256 key m =
     (let k0 = (if length key > 64 then sha256 key else key);
          k = k0 @ replicate (64 - length k0) CHR 0x00;
          ipad = map (xor_char CHR 0x36) k;
          opad = map (xor_char CHR 0x5C) k
      in sha256 (opad @ sha256 (ipad @ m)))"

section \<open>AES\<close>

text \<open>Arithmetic in the field of the cipher, and its substitution box.\<close>

definition xtime :: "8 word \<Rightarrow> 8 word" where
  "xtime b = (push_bit 1 b XOR (if bit b 7 then 0x1B else 0))"

fun gf_mul :: "nat \<Rightarrow> 8 word \<Rightarrow> 8 word \<Rightarrow> 8 word" where
  "gf_mul 0 a b = 0"
| "gf_mul (Suc n) a b = ((if bit b 0 then a else 0) XOR gf_mul n (xtime a) (drop_bit 1 b))"

definition gf_inverse :: "8 word \<Rightarrow> 8 word" where
  "gf_inverse a =
     (let m = gf_mul 8; a2 = m a a; a4 = m a2 a2; a8 = m a4 a4; a16 = m a8 a8; a32 = m a16 a16;
          a64 = m a32 a32; a128 = m a64 a64
      in m a128 (m a64 (m a32 (m a16 (m a8 (m a4 a2))))))"

definition rotl8 :: "nat \<Rightarrow> 8 word \<Rightarrow> 8 word" where
  "rotl8 n w = (push_bit n w OR drop_bit (8 - n) w)"

definition sub_byte :: "8 word \<Rightarrow> 8 word" where
  "sub_byte b = (let i = gf_inverse b in i XOR rotl8 1 i XOR rotl8 2 i XOR rotl8 3 i XOR rotl8 4 i XOR 0x63)"

type_synonym block = "8 word list"

definition xor_block :: "block \<Rightarrow> block \<Rightarrow> block" where
  "xor_block xs ys = map2 (XOR) xs ys"

text \<open>The key schedule: words of four bytes, \<open>nk\<close> of them from the key.\<close>

fun expand_key :: "nat \<Rightarrow> nat \<Rightarrow> 8 word \<Rightarrow> block list \<Rightarrow> block list" where
  "expand_key nk 0 rc ws = ws"
| "expand_key nk (Suc n) rc ws =
     (let i = length ws; t = ws ! (i - 1);
          t' = (if i mod nk = 0 then xor_block (map sub_byte (rotate1 t)) [rc, 0, 0, 0]
                else if nk > 6 \<and> i mod nk = 4 then map sub_byte t else t)
      in expand_key nk n (if i mod nk = 0 then xtime rc else rc) (ws @ [xor_block (ws ! (i - nk)) t']))"

definition shift_rows :: "block \<Rightarrow> block" where
  "shift_rows st = map (\<lambda>i. st ! ((i + 4 * (i mod 4)) mod 16)) [0..<16]"

definition mix_column :: "block \<Rightarrow> block" where
  "mix_column col =
     map (\<lambda>i. xtime (col ! i) XOR (xtime (col ! ((i + 1) mod 4)) XOR col ! ((i + 1) mod 4))
              XOR col ! ((i + 2) mod 4) XOR col ! ((i + 3) mod 4)) [0..<4]"

definition mix_columns :: "block \<Rightarrow> block" where
  "mix_columns st = concat (map (\<lambda>c. mix_column (take 4 (drop (4 * c) st))) [0..<4])"

definition round_key :: "block list \<Rightarrow> nat \<Rightarrow> block" where
  "round_key ws r = concat (take 4 (drop (4 * r) ws))"

definition bytes_of :: "string \<Rightarrow> block" where
  "bytes_of s = map (\<lambda>c. word_of_nat (of_char c)) s"

text \<open>\<open>aes.NewCipher(key)\<close> and its \<open>Encrypt\<close> on one block.\<close>

definition aes_key_ok :: "string \<Rightarrow> bool" where
  "aes_key_ok key = (length key \<in> {16, 24, 32})"

definition aes_encrypt :: "string \<Rightarrow> 128 word \<Rightarrow> 128 word" where
  "aes_encrypt key x =
     (let nk = length key div 4; nr = nk + 6;
          ws = expand_key nk (4 * (nr + 1) - nk) 1 (map bytes_of (chunks 4 key));
          st0 = xor_block (bytes_of (be_bytes 16 x)) (round_key ws 0);
          st = foldl (\<lambda>s r. xor_block (mix_columns (shift_rows (map sub_byte s))) (round_key ws r)) st0 [1..<nr];
          out = xor_block (shift_rows (map sub_byte st)) (round_key ws nr)
      in be_word (map (\<lambda>b. char_of (unat b)) out))"

section \<open>Galois counter mode\<close>

fun ghash_mul_loop :: "nat \<Rightarrow> 128 word \<Rightarrow> 128 word \<Rightarrow> 128 word \<Rightarrow> 128 word" where
  "ghash_mul_loop 0 x v z = z"
| "ghash_mul_loop (Suc n) x v z =
     ghash_mul_loop n x (drop_bit 1 v XOR (if bit v 0 then push_bit 120 0xE1 else 0))
       (if bit x n then z XOR v else z)"

definition ghash_mul :: "128 word \<Rightarrow> 128 word \<Rightarrow> 128 word" where
  "ghash_mul x y = ghash_mul_loop 128 x y 0"

text \<open>\<open>GHASH\<close> of a ciphertext with no additional data.\<close>

definition ghash :: "128 word \<Rightarrow> string \<Rightarrow> 128 word" where
  "ghash h c =
     (let pad = (\<lambda>b. b @ replicate (16 - length b) CHR 0x00);
          blocks = map (\<lambda>b. be_word (pad b)) (chunks 16 c) @ [word_of_nat (8 * length c)]
      in foldl (\<lambda>y b. ghash_mul (y XOR b) h) 0 blocks)"

text \<open>The key stream from the initial counter block; only the last 32 bits count.\<close>

definition counter_block :: "128 word \<Rightarrow> nat \<Rightarrow> 128 word" where
  "counter_block j0 i = push_bit 32 (drop_bit 32 j0) OR ucast ((ucast j0 :: 32 word) + word_of_nat i)"

definition gcm_stream :: "string \<Rightarrow> 128 word \<Rightarrow> nat \<Rightarrow> string" where
  "gcm_stream key j0 n =
     take n (concat (map (\<lambda>i. be_bytes 16 (aes_encrypt key (counter_block j0 (i + 1)))) [0..<(n + 15) div 16]))"

definition gcm_j0 :: "string \<Rightarrow> 128 word" where
  "gcm_j0 nonce = be_word (nonce @ [CHR 0x00, CHR 0x00, CHR 0x00, CHR 0x01])"

definition gcm_tag :: "string \<Rightarrow> string \<Rightarrow> string \<Rightarrow> string" where
  "gcm_tag key nonce c = be_bytes 16 (ghash (aes_encrypt key 0) c XOR aes_encrypt key (gcm_j0 nonce))"

definition gcm_crypt :: "string \<Rightarrow> string \<Rightarrow> string \<Rightarrow> string" where
  "gcm_crypt key nonce p = map2 xor_char p (gcm_stream key (gcm_j0 nonce) (length p))"

definition gcm_Seal :: "string \<Rightarrow> string \<Rightarrow> string \<Rightarrow> string" where
  "gcm_Seal key nonce p = (let c = gcm_crypt key nonce p in c @ gcm_tag key nonce c)"

definition gcm_Open :: "string \<Rightarrow> string \<Rightarrow> string \<Rightarrow> string option" where
  "gcm_Open key nonce ct =
     (if length ct < 16 then None
      else let c = take (length ct - 16) ct; tag = drop (length ct - 16) ct
           in if tag = gcm_tag key nonce c then Some (gcm_crypt key nonce c) else None)"

definition NonceSize :: nat where "NonceSize = 12"

section \<open>crypto.go\<close>

text \<open>
  \<open>rand\<close> is the outcome of filling a byte slice from the random source.  The position in
  a decoding error of base64 is left out.
\<close>

definition b64_error :: error where
  "b64_error = Errorf ''illegal base64 data''"

definition open_error :: error where
  "open_error = Errorf ''cipher: message authentication failed''"

definition key_size_error :: "string \<Rightarrow> error" where
  "key_size_error key = Errorf (''crypto/aes: invalid key size '' @ utoa (length key))"

definition GenerateRandomBytes :: "string result \<Rightarrow> string result" where
  "GenerateRandomBytes rand =
     (case rand of Inl e \<Rightarrow> Inl (Wrapf ''generate random bytes'' e) | Inr b \<Rightarrow> Inr b)"

definition GenerateRandomString :: "string result \<Rightarrow> string result" where
  "GenerateRandomString rand =
     (case GenerateRandomBytes rand of Inl e \<Rightarrow> Inl e | Inr b \<Rightarrow> Inr (RawURLEncode b))"

definition GenerateEncryptionKey :: "string result \<Rightarrow> string result" where
  "GenerateEncryptionKey rand =
     (case GenerateRandomBytes rand of Inl e \<Rightarrow> Inl e | Inr key \<Rightarrow> Inr (StdEncode key))"

definition EncryptAESGCM :: "string \<Rightarrow> string result \<Rightarrow> string \<Rightarrow> string result" where
  "EncryptAESGCM key rand plaintext =
     (if \<not> aes_key_ok key then Inl (Wrapf ''create cipher'' (key_size_error key))
      else case rand of
             Inl e \<Rightarrow> Inl (Wrapf ''generate nonce'' e)
           | Inr nonce \<Rightarrow> Inr (StdEncode (nonce @ gcm_Seal key nonce plaintext)))"

definition VersionedEncryptAESGCM :: "8 word \<Rightarrow> string \<Rightarrow> string result \<Rightarrow> string \<Rightarrow> string result" where
  "VersionedEncryptAESGCM keyVersion key rand plaintext =
     (if \<not> aes_key_ok key then Inl (Wrapf ''create cipher'' (key_size_error key))
      else case rand of
             Inl e \<Rightarrow> Inl (Wrapf ''generate nonce'' e)
           | Inr nonce \<Rightarrow>
               (let sealed = nonce @ gcm_Seal key nonce plaintext;
                    versioned = char_of (unat keyVersion) # sealed
                in Inr (StdEncode versioned)))"

definition DecryptAESGCM :: "string \<Rightarrow> string \<Rightarrow> string result" where
  "DecryptAESGCM key encoded =
     (case StdDecode encoded of
        None \<Rightarrow> Inl (Wrapf ''decode ciphertext'' b64_error)
      | Some ciphertext \<Rightarrow>
          if \<not> aes_key_ok key then Inl (Wrapf ''create cipher'' (key_size_error key))
          else if length ciphertext < NonceSize then Inl (Errorf ''ciphertext too short'')
          else case gcm_Open key (take NonceSize ciphertext) (drop NonceSize ciphertext) of
                 None \<Rightarrow> Inl (Wrapf ''decrypt'' open_error)
               | Some plaintext \<Rightarrow> Inr plaintext)"

definition ExtractKeyVersion :: "string \<Rightarrow> 8 word option" where
  "ExtractKeyVersion encoded =
     (case StdDecode encoded of
        None \<Rightarrow> None
      | Some ciphertext \<Rightarrow>
          (case ciphertext of
             [] \<Rightarrow> None
           | b # _ \<Rightarrow> if b = CHR 0x00 then None else Some (word_of_nat (of_char b))))"

definition DecryptVersionedAESGCM :: "string \<Rightarrow> string \<Rightarrow> string result" where
  "DecryptVersionedAESGCM key encoded =
     (case StdDecode encoded of
        None \<Rightarrow> Inl (Wrapf ''decode ciphertext'' b64_error)
      | Some ciphertext \<Rightarrow>
          if length ciphertext < 2 then Inl (Errorf ''versioned ciphertext too short'')
          else DecryptAESGCM key (StdEncode (drop 1 ciphertext)))"

section \<open>The secret store\<close>

record VersionedKey =
  vkVersion :: "8 word"
  vkKey :: string

record SecretStore =
  stKey :: string
  stVersion :: "8 word"
  stRing :: "VersionedKey list"

definition NewStore :: "string \<Rightarrow> SecretStore result" where
  "NewStore encodedKey =
     (case StdDecode encodedKey of
        None \<Rightarrow> Inl (Wrapf ''decode encryption key'' b64_error)
      | Some key \<Rightarrow>
          if length key \<noteq> 32
          then Inl (Errorf (''encryption key must be 32 bytes, got '' @ utoa (length key)))
          else Inr \<lparr>stKey = key, stVersion = 0, stRing = []\<rparr>)"

fun check_keys :: "nat \<Rightarrow> VersionedKey list \<Rightarrow> error option" where
  "check_keys i [] = None"
| "check_keys i (k # ks) =
     (if length (vkKey k) \<noteq> 32
      then Some (Errorf (''key '' @ utoa i @ '': must be 32 bytes, got '' @ utoa (length (vkKey k))))
      else if vkVersion k = 0 then Some (Errorf (''key '' @ utoa i @ '': version must be >= 1''))
      else check_keys (i + 1) ks)"

definition NewVersionedStore :: "VersionedKey list \<Rightarrow> SecretStore result" where
  "NewVersionedStore keys =
     (if keys = [] then Inl (Errorf ''at least one key is required'')
      else case check_keys 0 keys of
             Some e \<Rightarrow> Inl e
           | None \<Rightarrow> Inr \<lparr>stKey = vkKey (hd keys), stVersion = vkVersion (hd keys), stRing = keys\<rparr>)"

definition Encrypt :: "SecretStore \<Rightarrow> string result \<Rightarrow> string \<Rightarrow> string result" where
  "Encrypt s rand plaintext =
     (if stVersion s > 0 then VersionedEncryptAESGCM (stVersion s) (stKey s) rand plaintext
      else EncryptAESGCM (stKey s) rand plaintext)"

text \<open>The first phase of \<open>Decrypt\<close>: the first key of the ring that has the version of the ciphertext.\<close>

definition ring_decrypt :: "VersionedKey list \<Rightarrow> string \<Rightarrow> string option" where
  "ring_decrypt ring encrypted =
     (case ExtractKeyVersion encrypted of
        None \<Rightarrow> None
      | Some ver \<Rightarrow>
          (case find (\<lambda>k. vkVersion k = ver) ring of
             None \<Rightarrow> None
           | Some k \<Rightarrow> (case DecryptVersionedAESGCM (vkKey k) encrypted of Inl _ \<Rightarrow> None | Inr b \<Rightarrow> Some b)))"

definition Decrypt :: "SecretStore \<Rightarrow> string \<Rightarrow> string result" where
  "Decrypt s encrypted =
     (case ring_decrypt (stRing s) encrypted of
        Some b \<Rightarrow> Inr b
      | None \<Rightarrow> DecryptAESGCM (stKey s) encrypted)"

definition ReEncrypt :: "SecretStore \<Rightarrow> string result \<Rightarrow> string \<Rightarrow> (string \<times> bool) result" where
  "ReEncrypt s rand encrypted =
     (if stVersion s > 0 \<and> ExtractKeyVersion encrypted = Some (stVersion s) then Inr (encrypted, False)
      else case Decrypt s encrypted of
             Inl e \<Rightarrow> Inl (Wrapf ''decrypt for re-encryption'' e)
           | Inr plaintext \<Rightarrow>
               (case Encrypt s rand plaintext of
                  Inl e \<Rightarrow> Inl (Wrapf ''re-encrypt'' e)
                | Inr c \<Rightarrow> Inr (c, True)))"

definition PrimaryKeyVersion :: "SecretStore \<Rightarrow> 8 word" where
  "PrimaryKeyVersion s = stVersion s"

section \<open>Base64 round trip\<close>

definition b64_ok :: "string \<Rightarrow> bool" where
  "b64_ok alph = (distinct alph \<and> length alph = 64 \<and> CHR ''='' \<notin> set alph \<and> (\<forall>c \<in> set alph. \<not> is_newline c))"

lemma b64_ok_alphabets [simp]: "b64_ok b64_std" "b64_ok b64_url"
  by (simp_all add: b64_ok_def b64_std_def b64_url_def is_newline_def)

lemma b64_val_nth:
  assumes "b64_ok alph" "i < 64"
  shows "b64_val alph (alph ! i) = Some i"
proof -
  have "\<forall>j < i. alph ! j \<noteq> alph ! i" using assms by (auto simp: b64_ok_def nth_eq_iff_index_eq)
  then show ?thesis using assms(2) by (simp add: b64_val_def find_Some_iff) (rule exI [of _ i], simp)
qed

lemma b64_val_pad: "b64_ok alph \<Longrightarrow> b64_val alph CHR ''='' = None"
  by (force simp: b64_ok_def b64_val_def find_None_iff set_conv_nth)

lemma b64_digits:
  fixes a b c :: nat
  shows "a < 256 \<Longrightarrow> a div 4 < 64" "a mod 4 * 16 < 64" "b < 256 \<Longrightarrow> a mod 4 * 16 + b div 16 < 64"
    "b mod 16 * 4 < 64" "c < 256 \<Longrightarrow> b mod 16 * 4 + c div 64 < 64" "c mod 64 < 64"
  by linarith+

lemma b64_bytes:
  fixes b c :: nat
  shows "b < 256 \<Longrightarrow> b div 16 div 16 = 0" "b < 256 \<Longrightarrow> b div 16 mod 16 = b div 16"
    "c < 256 \<Longrightarrow> c div 64 div 4 = 0" "c < 256 \<Longrightarrow> c div 64 mod 4 = c div 64"
  by (simp_all add: div_mult2_eq [symmetric])

lemma b64_groups_encode:
  assumes "b64_ok alph" "\<forall>b \<in> set bs. b < 256"
  shows "b64_groups alph pad (b64_encode alph pad bs) = Some bs"
  using assms
proof (induction alph pad bs rule: b64_encode.induct)
  case (2 alph pad a)
  then show ?case by (simp add: b64_val_nth b64_digits b64_val_pad b64_bytes)
next
  case (3 alph pad a b)
  then show ?case by (simp add: b64_val_nth b64_digits b64_val_pad b64_bytes)
next
  case (4 alph pad a b c bs)
  then show ?case by (simp add: b64_val_nth b64_digits b64_bytes)
qed simp

lemma b64_encode_set:
  assumes "b64_ok alph" "\<forall>b \<in> set bs. b < 256"
  shows "set (b64_encode alph pad bs) \<subseteq> insert CHR ''='' (set alph)"
    "\<not> pad \<Longrightarrow> set (b64_encode alph pad bs) \<subseteq> set alph"
  using assms
  by (induction alph pad bs rule: b64_encode.induct) (auto simp: b64_ok_def b64_digits)

lemma b64_decode_encode:
  assumes "b64_ok alph" "\<forall>b \<in> set bs. b < 256"
  shows "b64_decode alph pad (b64_encode alph pad bs) = Some bs"
proof -
  have "filter (\<lambda>c. \<not> is_newline c) (b64_encode alph pad bs) = b64_encode alph pad bs"
    using b64_encode_set(1) [OF assms, of pad] assms(1) by (intro filter_True) (auto simp: b64_ok_def is_newline_def)
  then show ?thesis using b64_groups_encode [OF assms] by (simp add: b64_decode_def)
qed

lemma of_char_less: "(of_char c :: nat) < 256"
  using nat_of_char_less_256 by simp

lemma StdDecode_StdEncode [simp]: "StdDecode (StdEncode bs) = Some bs"
  by (simp add: StdDecode_def StdEncode_def b64_decode_encode of_char_less comp_def)

lemma RawURLDecode_RawURLEncode [simp]: "RawURLDecode (RawURLEncode bs) = Some bs"
  by (simp add: RawURLDecode_def RawURLEncode_def b64_decode_encode of_char_less comp_def)

lemma RawURLEncode_no_dot: "CHR ''.'' \<notin> set (RawURLEncode bs)"
proof -
  have "set (RawURLEncode bs) \<subseteq> set b64_url"
    unfolding RawURLEncode_def by (rule b64_encode_set(2)) (simp_all add: of_char_less)
  then show ?thesis by (auto simp: b64_url_def)
qed

section \<open>Authenticated encryption round trip\<close>

lemma xor_char_cancel [simp]: "xor_char (xor_char a b) b = a"
proof -
  have small: "take_bit 8 (of_char c :: nat) = of_char c" for c
    using of_char_less [of c] by (simp add: take_bit_eq_mod)
  have "of_char (char_of ((of_char a :: nat) XOR of_char b)) = (of_char a :: nat) XOR of_char b"
    using small by (simp add: take_bit_eq_mod [of 8, simplified, symmetric] take_bit_xor)
  then have "xor_char (xor_char a b) b = char_of (((of_char a :: nat) XOR of_char b) XOR of_char b)"
    unfolding xor_char_def by (rule arg_cong)
  then show ?thesis by (simp add: xor.assoc)
qed

lemma map2_xor_cancel: "length xs = length ks \<Longrightarrow> map2 xor_char (map2 xor_char xs ks) ks = xs"
  by (induction xs ks rule: list_induct2) auto

lemma length_gcm_stream [simp]: "length (gcm_stream key j0 n) = n"
proof -
  have "length (concat (map (\<lambda>i. be_bytes 16 (f i :: 128 word)) [0..<m])) = 16 * m" for f m
    by (induction m) (simp_all add: be_bytes_def)
  then show ?thesis by (simp add: gcm_stream_def)
qed

lemma length_gcm_crypt [simp]: "length (gcm_crypt key nonce p) = length p"
  by (simp add: gcm_crypt_def)

lemma gcm_crypt_twice [simp]: "gcm_crypt key nonce (gcm_crypt key nonce p) = p"
proof -
  let ?ks = "gcm_stream key (gcm_j0 nonce) (length p)"
  have "gcm_crypt key nonce (map2 xor_char p ?ks) = map2 xor_char (map2 xor_char p ?ks) ?ks"
    by (simp add: gcm_crypt_def)
  also have "\<dots> = p" by (rule map2_xor_cancel) simp
  finally show ?thesis by (simp add: gcm_crypt_def [of key nonce p])
qed

lemma length_gcm_tag [simp]: "length (gcm_tag key nonce c) = 16"
  by (simp add: gcm_tag_def be_bytes_def)

lemma gcm_Open_Seal [simp]: "gcm_Open key nonce (gcm_Seal key nonce p) = Some p"
  by (simp add: gcm_Open_def gcm_Seal_def Let_def)

lemma DecryptAESGCM_sealed:
  "aes_key_ok key \<Longrightarrow> length nonce = NonceSize \<Longrightarrow>
   DecryptAESGCM key (StdEncode (nonce @ gcm_Seal key nonce p)) = Inr p"
  by (simp add: DecryptAESGCM_def)

section \<open>Rotation of the key ring\<close>

lemma check_keys_ok: "check_keys i ks = None \<longleftrightarrow> (\<forall>k \<in> set ks. length (vkKey k) = 32 \<and> vkVersion k \<noteq> 0)"
  by (induction i ks rule: check_keys.induct) auto

lemma NewVersionedStore_ok:
  "NewVersionedStore keys = Inr s \<longleftrightarrow>
     keys \<noteq> [] \<and> (\<forall>k \<in> set keys. length (vkKey k) = 32 \<and> vkVersion k \<noteq> 0) \<and>
     s = \<lparr>stKey = vkKey (hd keys), stVersion = vkVersion (hd keys), stRing = keys\<rparr>"
  using check_keys_ok [of 0 keys] by (auto simp: NewVersionedStore_def split: option.splits)

lemma char_of_version [simp]: "char_of (unat (v :: 8 word)) = CHR 0x00 \<longleftrightarrow> v = 0"
proof
  assume "char_of (unat v) = CHR 0x00"
  then have "(of_char (char_of (unat v)) :: nat) = of_char CHR 0x00" by simp
  then have "unat v mod 256 = 0" by simp
  moreover have "unat v < 256" using unsigned_less [of v] by simp
  ultimately show "v = 0" by (simp add: unat_eq_zero)
next
  assume "v = 0"
  then show "char_of (unat v) = CHR 0x00" using char_of_char [of "CHR 0x00"] by simp
qed

lemma ExtractKeyVersion_sealed: "v \<noteq> 0 \<Longrightarrow> ExtractKeyVersion (StdEncode (char_of (unat v) # bs)) = Some v"
  using unsigned_less [of v, where ?'a = nat] by (simp add: ExtractKeyVersion_def)

lemma Encrypt_versioned:
  assumes "NewVersionedStore keys = Inr s"
  shows "Encrypt s (Inr nonce) p =
    Inr (StdEncode (char_of (unat (vkVersion (hd keys))) # nonce @ gcm_Seal (vkKey (hd keys)) nonce p))"
proof -
  have "hd keys \<in> set keys" using assms by (simp add: NewVersionedStore_ok)
  then have "aes_key_ok (vkKey (hd keys))" "vkVersion (hd keys) \<noteq> 0"
    using assms by (auto simp: NewVersionedStore_ok aes_key_ok_def)
  then show ?thesis
    using assms by (auto simp: NewVersionedStore_ok Encrypt_def VersionedEncryptAESGCM_def word_neq_0_conv)
qed

lemma Decrypt_sealed:
  assumes s: "NewVersionedStore ring = Inr s" and k: "find (\<lambda>k'. vkVersion k' = vkVersion k) ring = Some k"
    and n: "length nonce = NonceSize"
  shows "Decrypt s (StdEncode (char_of (unat (vkVersion k)) # nonce @ gcm_Seal (vkKey k) nonce p)) = Inr p"
proof -
  have "k \<in> set ring" using k by (auto dest: find_SomeD)
  then have ok: "aes_key_ok (vkKey k)" "vkVersion k \<noteq> 0"
    using s by (auto simp: NewVersionedStore_ok aes_key_ok_def)
  have "ring_decrypt ring (StdEncode (char_of (unat (vkVersion k)) # nonce @ gcm_Seal (vkKey k) nonce p)) = Some p"
    using ok k n by (simp add: ring_decrypt_def ExtractKeyVersion_sealed DecryptVersionedAESGCM_def DecryptAESGCM_sealed NonceSize_def)
  then show ?thesis using s by (simp add: Decrypt_def NewVersionedStore_ok)
qed

text \<open>
  C10: A secret that was encrypted under one key ring is decrypted to the same plaintext by
  that ring and by every later ring that puts keys with new versions in front of it, and
  re-encrypting it there gives a ciphertext of the new primary key with the same plaintext.
\<close>

theorem rotation_keeps_secrets:
  assumes "NewVersionedStore keys = Inr s" "length nonce = NonceSize" "length nonce' = NonceSize"
    and "NewVersionedStore (new @ keys) = Inr s'" "vkVersion ` set new \<inter> vkVersion ` set keys = {}" "new \<noteq> []"
  shows "\<exists>c c'. Encrypt s (Inr nonce) p = Inr c \<and> Decrypt s c = Inr p \<and> Decrypt s' c = Inr p \<and>
     ReEncrypt s' (Inr nonce') c = Inr (c', True) \<and> Decrypt s' c' = Inr p \<and>
     ExtractKeyVersion c' = Some (vkVersion (hd new)) \<and> ReEncrypt s' (Inr nonce') c' = Inr (c', False)"
proof -
  let ?k = "hd keys" and ?n = "hd new"
  let ?c = "\<lambda>k nonce. StdEncode (char_of (unat (vkVersion k)) # nonce @ gcm_Seal (vkKey k) nonce p)"
  have k: "?k \<in> set keys" "keys \<noteq> []" using assms(1) by (simp_all add: NewVersionedStore_ok)
  have hd: "hd (new @ keys) = ?n" using assms(6) by simp
  have v: "vkVersion ?n \<noteq> 0" "vkVersion ?k \<noteq> 0"
    using assms(4,6) k by (auto simp: NewVersionedStore_ok)
  have ne: "vkVersion k' \<noteq> vkVersion ?k" if "k' \<in> set new" for k' using assms(5) k that by blast
  have old: "find (\<lambda>k'. vkVersion k' = vkVersion ?k) keys = Some ?k" using k(2) by (cases keys) auto
  then have find_old: "find (\<lambda>k'. vkVersion k' = vkVersion ?k) (new @ keys) = Some ?k"
    using ne by (induction new) auto
  have find_new: "find (\<lambda>k'. vkVersion k' = vkVersion ?n) (new @ keys) = Some ?n"
    using assms(6) by (cases new) auto
  have E: "Encrypt s (Inr nonce) p = Inr (?c ?k nonce)" by (rule Encrypt_versioned [OF assms(1)])
  have E': "Encrypt s' (Inr nonce') p = Inr (?c ?n nonce')" using Encrypt_versioned [OF assms(4)] hd by simp
  have D: "Decrypt s (?c ?k nonce) = Inr p" by (rule Decrypt_sealed [OF assms(1) old assms(2)])
  have D': "Decrypt s' (?c ?k nonce) = Inr p" by (rule Decrypt_sealed [OF assms(4) find_old assms(2)])
  have D'': "Decrypt s' (?c ?n nonce') = Inr p" by (rule Decrypt_sealed [OF assms(4) find_new assms(3)])
  have ver: "stVersion s' = vkVersion ?n" using assms(4) hd by (simp add: NewVersionedStore_ok)
  have "vkVersion ?k \<noteq> vkVersion ?n" using ne [of ?n] assms(6) by (metis hd_in_set)
  then have R: "ReEncrypt s' (Inr nonce') (?c ?k nonce) = Inr (?c ?n nonce', True)"
    using D' E' v by (simp add: ReEncrypt_def ver ExtractKeyVersion_sealed)
  have "ReEncrypt s' (Inr nonce') (?c ?n nonce') = Inr (?c ?n nonce', False)"
    using v by (simp add: ReEncrypt_def ver ExtractKeyVersion_sealed word_neq_0_conv)
  then show ?thesis using E D D' R D'' v by (intro exI conjI) (simp_all add: ExtractKeyVersion_sealed)
qed

definition sample_key :: "8 word \<Rightarrow> VersionedKey" where
  "sample_key v = \<lparr>vkVersion = v, vkKey = replicate 32 CHR ''k''\<rparr>"

theorem rotation_keeps_secrets_witness:
  "\<exists>s s' c. NewVersionedStore [sample_key 1] = Inr s \<and> NewVersionedStore [sample_key 2, sample_key 1] = Inr s' \<and>
     Encrypt s (Inr (replicate 12 CHR ''n'')) ''secret'' = Inr c \<and> Decrypt s' c = Inr ''secret''"
proof -
  obtain s where s: "NewVersionedStore [sample_key 1] = Inr s" by (simp add: NewVersionedStore_ok sample_key_def)
  obtain s' where s': "NewVersionedStore ([sample_key 2] @ [sample_key 1]) = Inr s'"
    by (simp add: NewVersionedStore_ok sample_key_def)
  have "vkVersion ` set [sample_key 2] \<inter> vkVersion ` set [sample_key 1] = {}" by (simp add: sample_key_def)
  then show ?thesis
    using rotation_keeps_secrets [OF s _ _ s', where p = "''secret''" and nonce = "replicate 12 CHR ''n''" and nonce' = "replicate 12 CHR ''m''"]
      s s' by (auto simp: NonceSize_def)
qed

end
