(* ===== verification/EF_Auth.thy ===== *)
theory EF_Auth
  imports EF_Service EF_Crypto
begin

text \<open>
  Authentication and authorization: session tokens (\<open>internal/auth/token.go\<close>), the
  authentication service (\<open>auth.go\<close>), the role check (\<open>internal/rbac\<close>) and the middleware
  that puts them in front of the handlers (\<open>internal/api/middleware\<close>).

  The packages \<open>google/uuid\<close>, \<open>bcrypt\<close> and \<open>otp/totp\<close> are parameters (\<open>uuid_lib\<close>,
  \<open>auth_lib\<close>).  The lemmas show that a token carries its claims until it expires and which
  requests the role check lets through.
\<close>

section \<open>Claims and roles\<close>

record Claims =
  clUserID :: ID
  clTenantID :: "ID option"
  clRole :: Role
  clAPIKeyID :: "ID option"
  clMFAPending :: bool

fun role_string :: "Role \<Rightarrow> string" where
  "role_string RoleSuperUser = ''superuser''"
| "role_string RoleAdmin = ''admin''"
| "role_string RoleReadOnly = ''readonly''"
| "role_string (RoleOther s) = s"

definition role_of :: "string \<Rightarrow> Role" where
  "role_of s = (if s = ''superuser'' then RoleSuperUser else if s = ''admin'' then RoleAdmin
                else if s = ''readonly'' then RoleReadOnly else RoleOther s)"

section \<open>Session tokens\<close>

record uuid_lib =
  uuString :: "ID \<Rightarrow> string"
  uuParse :: "string \<Rightarrow> ID option"

record TokenService =
  tsSigningKey :: string
  tsTTL :: Duration

definition NewTokenService :: "string \<Rightarrow> Duration \<Rightarrow> TokenService" where
  "NewTokenService signingKey ttl = \<lparr>tsSigningKey = signingKey, tsTTL = ttl\<rparr>"

definition token_sign :: "TokenService \<Rightarrow> string \<Rightarrow> string" where
  "token_sign ts payload = hmac_sha256 (tsSigningKey ts) payload"

text \<open>\<open>Time.Unix()\<close>: whole seconds.\<close>

definition Unix :: "Time \<Rightarrow> int" where
  "Unix t = t div Second"

text \<open>
  \<open>fmt.Sscanf(s, "%d", &v)\<close> for an \<open>int64\<close>: blanks, a sign, decimal digits; the rest of the
  input is not looked at.
\<close>

definition is_blank :: "char \<Rightarrow> bool" where
  "is_blank c = (c \<in> {CHR '' '', CHR 0x09, CHR 0x0B, CHR 0x0C, CHR 0x0D})"

definition Sscanf_d :: "string \<Rightarrow> int option" where
  "Sscanf_d s =
     (let t = dropWhile is_blank s;
          neg = (t \<noteq> [] \<and> hd t = CHR ''-'');
          u = (if t \<noteq> [] \<and> hd t \<in> {CHR ''-'', CHR ''+''} then tl t else t);
          ds = takeWhile is_digit u;
          v = (if neg then - int (dec_val ds) else int (dec_val ds))
      in if ds = [] \<or> v < - (2 ^ 63) \<or> v \<ge> 2 ^ 63 then None else Some v)"

definition token_payload :: "uuid_lib \<Rightarrow> TokenService \<Rightarrow> Time \<Rightarrow> Claims \<Rightarrow> string" where
  "token_payload u ts now c =
     Join [uuString u (clUserID c), (case clTenantID c of None \<Rightarrow> '''' | Some t \<Rightarrow> uuString u t),
           role_string (clRole c), itoa (Unix now), itoa (Unix (now + tsTTL ts)),
           (if clMFAPending c then ''1'' else ''0'')] ''|''"

definition Issue :: "uuid_lib \<Rightarrow> TokenService \<Rightarrow> Time \<Rightarrow> Claims \<Rightarrow> string result" where
  "Issue u ts now c =
     (let payloadB64 = RawURLEncode (token_payload u ts now c)
      in Inr (payloadB64 @ ''.'' @ RawURLEncode (token_sign ts payloadB64)))"

text \<open>\<open>Verify\<close> after the signature check: the fields of the payload.\<close>

definition parse_payload :: "uuid_lib \<Rightarrow> Time \<Rightarrow> string \<Rightarrow> Claims result" where
  "parse_payload u now payload =
     (let fields = Split payload CHR ''|''
      in if length fields \<noteq> 5 \<and> length fields \<noteq> 6 then Inl (Errorf ''invalid token payload'')
         else case uuParse u (fields ! 0) of
                None \<Rightarrow> Inl (Errorf ''invalid user ID in token'')
              | Some uid \<Rightarrow>
                  (case (if fields ! 1 = '''' then Some None else map_option Some (uuParse u (fields ! 1))) of
                     None \<Rightarrow> Inl (Errorf ''invalid tenant ID in token'')
                   | Some tid \<Rightarrow>
                       (case Sscanf_d (fields ! 3) of
                          None \<Rightarrow> Inl (Errorf ''invalid issued time in token'')
                        | Some issuedAt \<Rightarrow>
                            (case Sscanf_d (fields ! 4) of
                               None \<Rightarrow> Inl (Errorf ''invalid expiry time in token'')
                             | Some expiresAt \<Rightarrow>
                                 if Unix now > expiresAt then Inl (Errorf ''token has expired'')
                                 else Inr \<lparr>clUserID = uid, clTenantID = tid, clRole = role_of (fields ! 2),
                                           clAPIKeyID = None,
                                           clMFAPending = (length fields = 6 \<and> fields ! 5 = ''1'')\<rparr>))))"

definition Verify :: "uuid_lib \<Rightarrow> TokenService \<Rightarrow> Time \<Rightarrow> string \<Rightarrow> Claims result" where
  "Verify u ts now token =
     (case SplitN token CHR ''.'' 2 of
        [payloadB64, sigB64] \<Rightarrow>
          (case RawURLDecode sigB64 of
             None \<Rightarrow> Inl (Errorf ''invalid token signature encoding'')
           | Some sig \<Rightarrow>
               if sig \<noteq> token_sign ts payloadB64 then Inl (Errorf ''invalid token signature'')
               else case RawURLDecode payloadB64 of
                      None \<Rightarrow> Inl (Errorf ''invalid token payload encoding'')
                    | Some payload \<Rightarrow> parse_payload u now payload)
      | _ \<Rightarrow> Inl (Errorf ''invalid token format''))"

section \<open>The authentication service\<close>

text \<open>
  \<open>bcCompare hash password\<close> holds when bcrypt accepts the password, \<open>totpValidate code
  secret\<close> when the code is right at the time of the call; \<open>totpGenerate\<close> gives the secret
  and the URL of a new key.
\<close>

record auth_lib =
  bcCompare :: "string \<Rightarrow> string \<Rightarrow> bool"
  bcGenerate :: "string \<Rightarrow> int \<Rightarrow> string result"
  totpValidate :: "string \<Rightarrow> string \<Rightarrow> bool"
  totpGenerate :: "string \<Rightarrow> string \<Rightarrow> (string \<times> string) result"

definition AuthenticatePassword :: "svc_env \<Rightarrow> auth_lib \<Rightarrow> string \<Rightarrow> string \<Rightarrow> db \<Rightarrow> User dbres" where
  "AuthenticatePassword e lib email password d =
     (case GetUserByEmail (svDB e ''get user'') email d of
        Inl _ \<Rightarrow> (Inl (Errorf ''invalid credentials''), d)
      | Inr user \<Rightarrow>
          if userStatus user \<noteq> UserStatusActive then (Inl (Errorf ''account is disabled''), d)
          else if \<not> bcCompare lib (userPasswordHash user) password then (Inl (Errorf ''invalid credentials''), d)
          else let user = user\<lparr>userLastLoginAt := Some (svNow e)\<rparr>
               in (Inr (user\<lparr>userUpdatedAt := svNow e\<rparr>), snd (UpdateUser (svDB e ''update user'') (svNow e) user d)))"

definition AuthenticateTOTP :: "svc_env \<Rightarrow> auth_lib \<Rightarrow> SecretStore \<Rightarrow> ID \<Rightarrow> string \<Rightarrow> db \<Rightarrow> unit result" where
  "AuthenticateTOTP e lib secrets uid code d =
     (case GetUser (svDB e ''get user'') uid d of
        Inl _ \<Rightarrow> Inl (Errorf ''user not found'')
      | Inr user \<Rightarrow>
          if \<not> userTOTPEnabled user \<or> userTOTPSecret user = '''' then Inl (Errorf ''TOTP not enabled for this user'')
          else case Decrypt secrets (userTOTPSecret user) of
                 Inl err \<Rightarrow> Inl (Wrapf ''failed to decrypt TOTP secret'' err)
               | Inr secret \<Rightarrow>
                   if \<not> totpValidate lib code secret then Inl (Errorf ''invalid TOTP code'') else Inr ())"

definition TrimPrefix :: "string \<Rightarrow> string \<Rightarrow> string" where
  "TrimPrefix s p = (if HasPrefix s p then drop (length p) s else s)"

definition AuthenticateAPIKey :: "svc_env \<Rightarrow> auth_lib \<Rightarrow> string \<Rightarrow> db \<Rightarrow> APIKey dbres" where
  "AuthenticateAPIKey e lib rawKey d =
     (let rawKey = TrimPrefix rawKey ''ef_''
      in if length rawKey < 8 then (Inl (Errorf ''invalid API key format''), d)
         else case GetAPIKeyByPrefix (svDB e ''get api key'') (take 8 rawKey) d of
                Inl _ \<Rightarrow> (Inl (Errorf ''invalid API key''), d)
              | Inr apiKey \<Rightarrow>
                  if (case keyExpiresAt apiKey of None \<Rightarrow> False | Some t \<Rightarrow> t < svNow e)
                  then (Inl (Errorf ''API key has expired''), d)
                  else if \<not> bcCompare lib (keyKeyHash apiKey) rawKey then (Inl (Errorf ''invalid API key''), d)
                  else (Inr apiKey, snd (UpdateAPIKeyLastUsed (svDB e ''update api key'') (svNow e) (keyID apiKey) d)))"

definition HashPassword :: "auth_lib \<Rightarrow> string \<Rightarrow> string result" where
  "HashPassword lib password =
     (case bcGenerate lib password 12 of Inl err \<Rightarrow> Inl (Wrapf ''hash password'' err) | Inr h \<Rightarrow> Inr h)"

definition EnrollTOTP ::
  "svc_env \<Rightarrow> auth_lib \<Rightarrow> SecretStore \<Rightarrow> string \<Rightarrow> string result \<Rightarrow> ID \<Rightarrow> db \<Rightarrow> (string \<times> string) dbres" where
  "EnrollTOTP e lib secrets issuer rand uid d =
     (case GetUser (svDB e ''get user'') uid d of
        Inl _ \<Rightarrow> (Inl (Errorf ''user not found''), d)
      | Inr user \<Rightarrow>
          (case totpGenerate lib issuer (userEmail user) of
             Inl err \<Rightarrow> (Inl (Wrapf ''generate TOTP key'' err), d)
           | Inr (secret, url) \<Rightarrow>
               (case Encrypt secrets rand secret of
                  Inl err \<Rightarrow> (Inl (Wrapf ''encrypt TOTP secret'' err), d)
                | Inr encrypted \<Rightarrow>
                    (case UpdateUser (svDB e ''update user'') (svNow e) (user\<lparr>userTOTPSecret := encrypted\<rparr>) d of
                       (Inl err, d) \<Rightarrow> (Inl (Wrapf ''save TOTP secret'' err), d)
                     | (Inr _, d) \<Rightarrow> (Inr (secret, url), d)))))"

definition ConfirmTOTP :: "svc_env \<Rightarrow> auth_lib \<Rightarrow> SecretStore \<Rightarrow> ID \<Rightarrow> string \<Rightarrow> db \<Rightarrow> unit dbres" where
  "ConfirmTOTP e lib secrets uid code d =
     (case GetUser (svDB e ''get user'') uid d of
        Inl _ \<Rightarrow> (Inl (Errorf ''user not found''), d)
      | Inr user \<Rightarrow>
          if userTOTPSecret user = '''' then (Inl (Errorf ''TOTP not enrolled''), d)
          else case Decrypt secrets (userTOTPSecret user) of
                 Inl err \<Rightarrow> (Inl (Wrapf ''decrypt TOTP secret'' err), d)
               | Inr secret \<Rightarrow>
                   if \<not> totpValidate lib code secret then (Inl (Errorf ''invalid TOTP code''), d)
                   else case UpdateUser (svDB e ''update user'') (svNow e) (user\<lparr>userTOTPEnabled := True\<rparr>) d of
                          (Inl err, d) \<Rightarrow> (Inl (Wrapf ''enable TOTP'' err), d)
                        | (Inr _, d) \<Rightarrow> (Inr (), d))"

definition GenerateAPIKey ::
  "svc_env \<Rightarrow> auth_lib \<Rightarrow> string result \<Rightarrow> ID \<Rightarrow> ID \<Rightarrow> string \<Rightarrow> Role \<Rightarrow> db \<Rightarrow> (string \<times> APIKey) dbres" where
  "GenerateAPIKey e lib rand tenant user nm role d =
     (case rand of
        Inl err \<Rightarrow> (Inl (Wrapf ''generate random key'' err), d)
      | Inr keyBytes \<Rightarrow>
          (let rawKey = RawURLEncode keyBytes
           in case bcGenerate lib rawKey 12 of
                Inl err \<Rightarrow> (Inl (Wrapf ''hash API key'' err), d)
              | Inr hash \<Rightarrow>
                  (let apiKey = \<lparr>keyID = svNewID e, keyTenantID = tenant, keyUserID = user, keyName = nm,
                                 keyKeyHash = hash, keyKeyPrefix = take 8 rawKey, keyRole = role,
                                 keyExpiresAt = None, keyLastUsedAt = None, keyCreatedAt = 0\<rparr>
                   in case CreateAPIKey (svDB e ''create api key'') (svNow e) apiKey d of
                        (Inl err, d) \<Rightarrow> (Inl (Wrapf ''create API key'' err), d)
                      | (Inr apiKey, d) \<Rightarrow> (Inr (''ef_'' @ rawKey, apiKey), d))))"

section \<open>Role-based access control\<close>

datatype Action = ActionCreate | ActionRead | ActionUpdate | ActionDelete | ActionList

datatype Resource =
    ResourceTenant | ResourceUser | ResourceNode | ResourceNodeGroup | ResourceGateway
  | ResourceIPAllocation | ResourceBGPSession | ResourceDNSZone | ResourceDNSRecord
  | ResourceCDNSite | ResourceCDNOrigin | ResourceRoute | ResourceSSHKey | ResourceTLSCert
  | ResourceAuditEvent | ResourceAPIKey | ResourceProvisioningJob | ResourceEnrollmentToken

definition ErrForbidden :: error where
  "ErrForbidden = Errorf ''forbidden''"

definition Authorize :: "Claims \<Rightarrow> Action \<Rightarrow> Resource \<Rightarrow> ID option \<Rightarrow> unit result" where
  "Authorize claims action res tenant =
     (if clRole claims = RoleSuperUser then Inr ()
      else if clRole claims = RoleReadOnly \<and> action \<noteq> ActionRead \<and> action \<noteq> ActionList then Inl ErrForbidden
      else case clTenantID claims of
             None \<Rightarrow> Inl ErrForbidden
           | Some t \<Rightarrow>
               if (case tenant of None \<Rightarrow> False | Some t' \<Rightarrow> t \<noteq> t') then Inl ErrForbidden
               else if res \<in> {ResourceTenant, ResourceSSHKey} \<and> action \<noteq> ActionRead \<and> action \<noteq> ActionList
               then Inl ErrForbidden
               else Inr ())"

section \<open>Middleware\<close>

text \<open>
  A request as the middleware sees it: the path, the \<open>Authorization\<close> header (empty when
  absent), the session cookie, the peer address and the values of the path parameters.
  \<open>WriteError status code message\<close> is an error response.
\<close>

record request =
  rqPath :: string
  rqAuthorization :: string
  rqCookie :: "string option"
  rqRemoteAddr :: string
  rqPathValue :: "string \<Rightarrow> string"

datatype http_error = WriteError nat string string

definition unauthorized :: "string \<Rightarrow> http_error" where
  "unauthorized msg = WriteError 401 ''unauthorized'' msg"

text \<open>The token of a request; \<open>None\<close> for an unknown authorization scheme.\<close>

definition request_token :: "request \<Rightarrow> string option" where
  "request_token r =
     (if rqAuthorization r \<noteq> '''' then
        (if \<not> HasPrefix (rqAuthorization r) ''Bearer '' then None
         else Some (TrimPrefix (rqAuthorization r) ''Bearer ''))
      else case rqCookie r of Some v \<Rightarrow> Some v | None \<Rightarrow> Some '''')"

definition token_claims ::
  "svc_env \<Rightarrow> auth_lib \<Rightarrow> uuid_lib \<Rightarrow> TokenService \<Rightarrow> string \<Rightarrow> db \<Rightarrow> (http_error + Claims) \<times> db" where
  "token_claims e lib u ts token d =
     (if HasPrefix token ''ef_'' then
        (case AuthenticateAPIKey e lib token d of
           (Inl _, d) \<Rightarrow> (Inl (unauthorized ''invalid API key''), d)
         | (Inr k, d) \<Rightarrow>
             (Inr \<lparr>clUserID = keyUserID k, clTenantID = Some (keyTenantID k), clRole = keyRole k,
                   clAPIKeyID = Some (keyID k), clMFAPending = False\<rparr>, d))
      else case Verify u ts (svNow e) token of
             Inl _ \<Rightarrow> (Inl (unauthorized ''invalid or expired token''), d)
           | Inr c \<Rightarrow> (Inr c, d))"

definition mfa_paths :: "string list" where
  "mfa_paths = [''/api/v1/auth/totp/verify'', ''/api/v1/auth/totp/confirm'', ''/api/v1/auth/me'']"

definition Auth ::
  "svc_env \<Rightarrow> auth_lib \<Rightarrow> uuid_lib \<Rightarrow> TokenService \<Rightarrow> request \<Rightarrow> db \<Rightarrow> (http_error + Claims) \<times> db" where
  "Auth e lib u ts r d =
     (case request_token r of
        None \<Rightarrow> (Inl (unauthorized ''invalid authorization scheme''), d)
      | Some token \<Rightarrow>
          if token = '''' then (Inl (unauthorized ''missing authorization''), d)
          else case token_claims e lib u ts token d of
                 (Inl err, d) \<Rightarrow> (Inl err, d)
               | (Inr claims, d) \<Rightarrow>
                   if clMFAPending claims \<and> rqPath r \<notin> set mfa_paths
                   then (Inl (WriteError 403 ''mfa_required'' ''MFA verification required''), d)
                   else (Inr claims, d))"

definition TenantFromClaims :: "Claims option \<Rightarrow> ID option" where
  "TenantFromClaims claims = (case claims of None \<Rightarrow> None | Some c \<Rightarrow> clTenantID c)"

text \<open>
  \<open>RequirePermission\<close>: \<open>None\<close> lets the request through.  \<open>tenantIDFunc\<close> is the function of
  the registration, applied to the claims of the request, or absent.
\<close>

definition RequirePermission ::
  "Action \<Rightarrow> Resource \<Rightarrow> (Claims option \<Rightarrow> ID option) option \<Rightarrow> Claims option \<Rightarrow> http_error option" where
  "RequirePermission action res tenantIDFunc claims =
     (case claims of
        None \<Rightarrow> Some (unauthorized ''authentication required'')
      | Some c \<Rightarrow>
          (let tenant = (case tenantIDFunc of None \<Rightarrow> None | Some f \<Rightarrow> f claims)
           in case Authorize c action res tenant of
                Inl _ \<Rightarrow> Some (WriteError 403 ''forbidden'' ''insufficient permissions'')
              | Inr _ \<Rightarrow> None))"

text \<open>\<open>apiutil.ParseID\<close>.\<close>

definition ParseID :: "uuid_lib \<Rightarrow> request \<Rightarrow> string \<Rightarrow> ID result" where
  "ParseID u r nm =
     (let raw = rqPathValue r nm
      in if raw = '''' then Inl (Errorf (''missing path parameter: '' @ nm))
         else case uuParse u raw of
                None \<Rightarrow> Inl (Wrapf (''invalid UUID for '' @ nm) (Errorf ''invalid UUID''))
              | Some i \<Rightarrow> Inr i)"

text \<open>\<open>err.Error()\<close> in a response: the text of an error.\<close>

fun error_text :: "error \<Rightarrow> string" where
  "error_text ErrNotFound = ''not found''"
| "error_text ErrAlreadyExists = ''already exists''"
| "error_text ErrConflict = ''conflict''"
| "error_text ErrValidation = ''validation error''"
| "error_text (Errorf m) = m"
| "error_text (Wrapf m err) = m @ '': '' @ error_text err"

definition RequireResourceOwnerOrAdmin ::
  "uuid_lib \<Rightarrow> string \<Rightarrow> Claims option \<Rightarrow> request \<Rightarrow> http_error option" where
  "RequireResourceOwnerOrAdmin u nm claims r =
     (case claims of
        None \<Rightarrow> Some (unauthorized ''authentication required'')
      | Some c \<Rightarrow>
          if clTenantID c = None \<or> clRole c = RoleAdmin \<or> clRole c = RoleSuperUser then None
          else case ParseID u r nm of
                 Inl err \<Rightarrow> Some (WriteError 400 ''bad_request'' (error_text err))
               | Inr pathID \<Rightarrow>
                   if clUserID c \<noteq> pathID then Some (WriteError 403 ''forbidden'' ''not authorized for this resource'')
                   else None)"

section \<open>Tokens carry their claims\<close>

text \<open>
  What the code relies on of \<open>google/uuid\<close>: the text of an identifier is 36 hexadecimal
  digits and dashes, and parsing it gives the identifier back.
\<close>

definition hex_dash :: string where
  "hex_dash = ''0123456789abcdef-''"

definition uuid_ok :: "uuid_lib \<Rightarrow> bool" where
  "uuid_ok u \<longleftrightarrow> (\<forall>i. uuParse u (uuString u i) = Some i \<and> length (uuString u i) = 36 \<and> set (uuString u i) \<subseteq> set hex_dash)"

lemma uuid_ok_no_bar: "uuid_ok u \<Longrightarrow> CHR ''|'' \<notin> set (uuString u i)"
  by (auto simp: uuid_ok_def hex_dash_def)

lemma uuid_ok_not_Nil: "uuid_ok u \<Longrightarrow> uuString u i \<noteq> []"
  unfolding uuid_ok_def by (metis list.size(3) zero_neq_numeral)

definition int64 :: "int \<Rightarrow> bool" where
  "int64 i \<longleftrightarrow> - (2 ^ 63) \<le> i \<and> i < 2 ^ 63"

lemma is_digit_not_blank: "is_digit c \<Longrightarrow> \<not> is_blank c \<and> c \<noteq> CHR ''+'' \<and> c \<noteq> CHR ''-'' \<and> c \<noteq> CHR ''|''"
  by (auto simp: is_digit_def is_blank_def)

lemma takeWhile_digits [simp]: "takeWhile is_digit (utoa n) = utoa n"
  using utoa_digits [of n] by (auto simp: list_all_iff takeWhile_eq_all_conv)

lemma hd_utoa: "is_digit (hd (utoa n))"
  using utoa_digits [of n] utoa_not_Nil [of n] by (auto simp: list_all_iff)

lemma utoa_unblanked: "dropWhile is_blank (utoa n) = utoa n"
  using hd_utoa [of n] is_digit_not_blank by (cases "utoa n") auto

lemma Sscanf_itoa:
  assumes "int64 i"
  shows "Sscanf_d (itoa i) = Some i"
proof (cases "i < 0")
  case True
  then show ?thesis using assms by (simp add: Sscanf_d_def itoa_def Let_def is_blank_def int64_def)
next
  case False
  then show ?thesis
    using assms hd_utoa [of "nat i"] is_digit_not_blank [of "hd (utoa (nat i))"]
    by (simp add: Sscanf_d_def itoa_def Let_def utoa_unblanked int64_def)
qed

lemma itoa_no_bar: "CHR ''|'' \<notin> set (itoa i)"
  using utoa_digits is_digit_not_blank by (auto simp: itoa_def list_all_iff)

lemma SplitN_sep: "c \<notin> set xs \<Longrightarrow> SplitN (xs @ c # ys) c 2 = [xs, ys]"
proof -
  assume "c \<notin> set xs"
  then have "dropWhile (\<lambda>x. x \<noteq> c) (xs @ c # ys) = c # ys" "takeWhile (\<lambda>x. x \<noteq> c) (xs @ c # ys) = xs"
    by (induction xs) auto
  then show ?thesis by (simp add: numeral_2_eq_2)
qed

definition issuable :: "Claims \<Rightarrow> bool" where
  "issuable c \<longleftrightarrow> role_of (role_string (clRole c)) = clRole c \<and> CHR ''|'' \<notin> set (role_string (clRole c))"

lemma payload_fields:
  assumes "uuid_ok u" "issuable c"
  shows "Split (token_payload u ts now c) CHR ''|'' =
    [uuString u (clUserID c), (case clTenantID c of None \<Rightarrow> '''' | Some t \<Rightarrow> uuString u t),
     role_string (clRole c), itoa (Unix now), itoa (Unix (now + tsTTL ts)), (if clMFAPending c then ''1'' else ''0'')]"
  unfolding token_payload_def
  by (rule Split_Join) (use assms in \<open>auto simp: uuid_ok_no_bar itoa_no_bar issuable_def split: option.split\<close>)

lemma parse_issued:
  assumes "uuid_ok u" "issuable c" "int64 (Unix now)" "int64 (Unix (now + tsTTL ts))"
  shows "parse_payload u later (token_payload u ts now c) =
    (if Unix later > Unix (now + tsTTL ts) then Inl (Errorf ''token has expired'')
     else Inr (c\<lparr>clAPIKeyID := None\<rparr>))"
proof -
  have "uuParse u (uuString u i) = Some i" for i using assms(1) by (simp add: uuid_ok_def)
  then show ?thesis
    using assms(2-4) uuid_ok_not_Nil [OF assms(1)]
    by (cases "clTenantID c") (simp_all add: parse_payload_def payload_fields [OF assms(1,2)] Sscanf_itoa issuable_def)
qed

text \<open>
  C9: A token issued for claims is verified to exactly these claims up to the second in
  which its lifetime ends, the pending second factor included, and is rejected afterwards.
\<close>

theorem token_roundtrip:
  assumes "uuid_ok u" "issuable c" "int64 (Unix now)" "int64 (Unix (now + tsTTL ts))"
  shows "\<exists>token. Issue u ts now c = Inr token \<and>
    (\<forall>later. Verify u ts later token =
       (if Unix later > Unix (now + tsTTL ts) then Inl (Errorf ''token has expired'')
        else Inr (c\<lparr>clAPIKeyID := None\<rparr>)))"
  using assms
  by (auto simp: Issue_def Verify_def Let_def SplitN_sep RawURLEncode_no_dot parse_issued)

section \<open>The canonical text of identifiers\<close>

text \<open>The form \<open>xxxxxxxx-xxxx-xxxx-xxxx-xxxxxxxxxxxx\<close> of an identifier, an instance of \<open>uuid_ok\<close>.\<close>

definition nibbles :: "nat \<Rightarrow> nat \<Rightarrow> nat list" where
  "nibbles m n = map (\<lambda>k. n div 16 ^ k mod 16) (rev [0..<m])"

definition nibbles_val :: "nat list \<Rightarrow> nat" where
  "nibbles_val xs = foldl (\<lambda>a x. 16 * a + x) 0 xs"

definition dashed :: "string \<Rightarrow> string" where
  "dashed s = take 8 s @ ''-'' @ take 4 (drop 8 s) @ ''-'' @ take 4 (drop 12 s) @ ''-'' @
              take 4 (drop 16 s) @ ''-'' @ drop 20 s"

definition hex_val :: "char \<Rightarrow> nat" where
  "hex_val c = (case find (\<lambda>i. hex_dash ! i = c) [0..<16] of Some i \<Rightarrow> i | None \<Rightarrow> 0)"

definition canonical_uuid :: uuid_lib where
  "canonical_uuid =
     \<lparr>uuString = (\<lambda>i. dashed (map (\<lambda>x. hex_dash ! x) (nibbles 32 (unat i)))),
      uuParse = (\<lambda>s. if length s = 36 \<and> set s \<subseteq> set hex_dash
                     then Some (word_of_nat (nibbles_val (map hex_val (filter (\<lambda>c. c \<noteq> CHR ''-'') s)))) else None)\<rparr>"

lemma nibbles_value: "foldl (\<lambda>a x. 16 * a + x) a (nibbles m n) = a * 16 ^ m + n mod 16 ^ m"
proof (induction m arbitrary: a)
  case (Suc m)
  have "nibbles (Suc m) n = n div 16 ^ m mod 16 # nibbles m n" by (simp add: nibbles_def)
  then show ?case
    using Suc [of "16 * a + n div 16 ^ m mod 16"] mod_mult2_eq [of n "16 ^ m" 16] by (simp add: algebra_simps)
qed (simp add: nibbles_def)

lemma filter_dashed: "CHR ''-'' \<notin> set s \<Longrightarrow> filter (\<lambda>c. c \<noteq> CHR ''-'') (dashed s) = s"
proof -
  assume s: "CHR ''-'' \<notin> set s"
  have keep: "filter (\<lambda>c. c \<noteq> CHR ''-'') (take i (drop j s)) = take i (drop j s)" for i j
    using s by (intro filter_True) (auto dest: in_set_takeD in_set_dropD)
  have "filter (\<lambda>c. c \<noteq> CHR ''-'') (dashed s) =
      take 8 (drop 0 s) @ take 4 (drop 8 s) @ take 4 (drop 12 s) @ take 4 (drop 16 s) @ take (length s) (drop 20 s)"
    unfolding dashed_def using keep [of 8 0] keep [of 4] keep [of "length s" 20] by simp
  also have "\<dots> = s"
    using append_take_drop_id [of 8 s] append_take_drop_id [of 4 "drop 8 s"] append_take_drop_id [of 4 "drop 12 s"]
      append_take_drop_id [of 4 "drop 16 s"] by simp
  finally show ?thesis .
qed

lemma set_dashed: "set (dashed s) \<subseteq> insert CHR ''-'' (set s)"
  by (auto simp: dashed_def dest!: in_set_takeD in_set_dropD)

lemma length_dashed: "length s = 32 \<Longrightarrow> length (dashed s) = 36"
  by (simp add: dashed_def)

lemma hex_val_nth: "x < 16 \<Longrightarrow> hex_val (hex_dash ! x) = x"
proof -
  assume "x < 16"
  then have "x \<in> set [0..<16]" by simp
  then show ?thesis by (simp add: upt_rec hex_val_def hex_dash_def, elim disjE) simp_all
qed

lemma canonical_uuid_ok: "uuid_ok canonical_uuid"
proof -
  have "uuParse canonical_uuid (uuString canonical_uuid i) = Some i \<and> length (uuString canonical_uuid i) = 36 \<and>
      set (uuString canonical_uuid i) \<subseteq> set hex_dash" for i
  proof -
    let ?h = "map (\<lambda>x. hex_dash ! x) (nibbles 32 (unat i))"
    have small: "\<forall>x \<in> set (nibbles 32 (unat i)). x < 16" by (auto simp: nibbles_def)
    have len: "length ?h = 32" by (simp add: nibbles_def)
    have "hex_dash ! x \<in> set (take 16 hex_dash)" if "x < 16" for x
    proof -
      have "length (take 16 hex_dash) = 16" by (simp add: hex_dash_def)
      then have "take 16 hex_dash ! x \<in> set (take 16 hex_dash)" using that by (intro nth_mem) simp
      then show ?thesis using that by (simp only: nth_take)
    qed
    then have "set ?h \<subseteq> set (take 16 hex_dash)" using small by auto
    then have sub: "set ?h \<subseteq> set hex_dash" "CHR ''-'' \<notin> set ?h" by (auto simp: hex_dash_def)
    have "CHR ''-'' \<in> set hex_dash" by (simp add: hex_dash_def)
    then have str: "length (dashed ?h) = 36" "set (dashed ?h) \<subseteq> set hex_dash"
      using length_dashed [OF len] set_dashed [of ?h] sub(1) by (blast+)
    have "map hex_val ?h = nibbles 32 (unat i)" using small by (simp add: hex_val_nth map_idI)
    then have "nibbles_val (map hex_val (filter (\<lambda>c. c \<noteq> CHR ''-'') (dashed ?h))) = unat i mod 16 ^ 32"
      using nibbles_value [of 0 32 "unat i"] by (simp only: filter_dashed [OF sub(2)] nibbles_val_def)
    moreover have "unat i mod 16 ^ 32 = unat i" using unsigned_less [of i, where ?'a = nat] by simp
    ultimately show ?thesis using str by (simp add: canonical_uuid_def)
  qed
  then show ?thesis by (simp add: uuid_ok_def)
qed

definition sample_claims :: Claims where
  "sample_claims = \<lparr>clUserID = 5, clTenantID = Some 7, clRole = RoleAdmin, clAPIKeyID = None, clMFAPending = True\<rparr>"

definition sample_tokens :: TokenService where
  "sample_tokens = NewTokenService ''signing key'' (24 * Hour)"

theorem token_roundtrip_witness:
  "\<exists>token. Issue canonical_uuid sample_tokens 0 sample_claims = Inr token \<and>
     Verify canonical_uuid sample_tokens (23 * Hour) token = Inr sample_claims \<and>
     Verify canonical_uuid sample_tokens (25 * Hour) token = Inl (Errorf ''token has expired'')"
proof -
  have "issuable sample_claims" by (simp add: issuable_def sample_claims_def role_of_def)
  moreover have "int64 (Unix 0)" "int64 (Unix (0 + tsTTL sample_tokens))"
    by (simp_all add: int64_def Unix_def sample_tokens_def NewTokenService_def)
  ultimately obtain token where t: "Issue canonical_uuid sample_tokens 0 sample_claims = Inr token"
    "\<forall>later. Verify canonical_uuid sample_tokens later token =
       (if Unix later > Unix (0 + tsTTL sample_tokens) then Inl (Errorf ''token has expired'')
        else Inr (sample_claims\<lparr>clAPIKeyID := None\<rparr>))"
    using token_roundtrip [OF canonical_uuid_ok, of sample_claims 0 sample_tokens] by blast
  have "sample_claims\<lparr>clAPIKeyID := None\<rparr> = sample_claims" by (simp add: sample_claims_def)
  then show ?thesis
    using t(1) t(2) [rule_format, of "23 * Hour"] t(2) [rule_format, of "25 * Hour"]
    by (simp add: Unix_def sample_tokens_def NewTokenService_def)
qed

end
