(* ===== verification/EF_Fleet.thy ===== *)
theory EF_Fleet
  imports EF_Auth EF_Events
begin

text \<open>
  The controller's services for tenants (\<open>internal/tenant\<close>), users (\<open>internal/user\<close>) and the
  fleet of nodes, node groups and gateways (\<open>internal/fleet\<close>), the audit log
  (\<open>internal/audit\<close>) and the seeding of the first user (\<open>internal/app/seed.go\<close>).

  Requests are records of optional fields.  \<open>validAddr\<close> is whether \<open>net/mail\<close> parses an
  address.
\<close>

section \<open>Tenants\<close>

record TenantCreateRequest =
  tcName :: string
  tcSlug :: string

record TenantUpdateRequest =
  tuName :: "string option"
  tuStatus :: "TenantStatus option"

definition slug_edge :: "char \<Rightarrow> bool" where
  "slug_edge c = (is_digit c \<or> (97 \<le> (of_char c :: nat) \<and> (of_char c :: nat) \<le> 122))"

text \<open>\<open>slugPattern\<close>: \<open>^[a-z0-9][a-z0-9-]*[a-z0-9]$\<close>.\<close>

definition slug_match :: "string \<Rightarrow> bool" where
  "slug_match s = (length s \<ge> 2 \<and> slug_edge (hd s) \<and> slug_edge (last s) \<and>
     list_all (\<lambda>c. slug_edge c \<or> c = CHR ''-'') s)"

definition Tenant_Create :: "svc_env \<Rightarrow> TenantCreateRequest \<Rightarrow> db \<Rightarrow> Tenant dbres" where
  "Tenant_Create e req d =
     (let nm = TrimSpace (tcName req); slug = TrimSpace (ToLower (tcSlug req))
      in if nm = '''' then (Inl (Errorf ''name is required''), d)
         else if slug = '''' then (Inl (Errorf ''slug is required''), d)
         else if length slug < 2 \<or> \<not> slug_match slug
         then (Inl (Errorf ''slug must be lowercase alphanumeric with hyphens, at least 2 characters''), d)
         else CreateTenant (svDB e ''create'') (svNow e)
                \<lparr>tenantID = svNewID e, tenantName = nm, tenantSlug = slug, tenantStatus = TenantStatusActive,
                 tenantSettings = '''', tenantCreatedAt = 0, tenantUpdatedAt = 0\<rparr> d)"

definition Tenant_Get :: "svc_env \<Rightarrow> ID \<Rightarrow> db \<Rightarrow> Tenant result" where
  "Tenant_Get e i d = GetTenant (svDB e ''get'') i d"

definition Tenant_GetBySlug :: "svc_env \<Rightarrow> string \<Rightarrow> db \<Rightarrow> Tenant result" where
  "Tenant_GetBySlug e slug d = GetTenantBySlug (svDB e ''get'') slug d"

definition clamp_limit :: "ListParams \<Rightarrow> ListParams" where
  "clamp_limit p =
     (let p = (if lpLimit p \<le> 0 then p\<lparr>lpLimit := DefaultLimit\<rparr> else p)
      in if lpLimit p > 200 then p\<lparr>lpLimit := 200\<rparr> else p)"

definition Tenant_List :: "svc_env \<Rightarrow> ListParams \<Rightarrow> db \<Rightarrow> (Tenant list \<times> int) result" where
  "Tenant_List e p d = ListTenants (svDB e ''list'') (clamp_limit p) d"

definition Tenant_Update :: "svc_env \<Rightarrow> ID \<Rightarrow> TenantUpdateRequest \<Rightarrow> db \<Rightarrow> Tenant dbres" where
  "Tenant_Update e i req d =
     (case GetTenant (svDB e ''get'') i d of
        Inl err \<Rightarrow> (Inl err, d)
      | Inr t \<Rightarrow>
          (let nm = map_option TrimSpace (tuName req)
           in if nm = Some '''' then (Inl (Errorf ''name cannot be empty''), d)
              else let t = (case nm of None \<Rightarrow> t | Some n \<Rightarrow> t\<lparr>tenantName := n\<rparr>);
                       t = (case tuStatus req of None \<Rightarrow> t | Some s \<Rightarrow> t\<lparr>tenantStatus := s\<rparr>)
                   in UpdateTenant (svDB e ''update'') (svNow e) t d))"

definition Tenant_Delete :: "svc_env \<Rightarrow> ID \<Rightarrow> db \<Rightarrow> unit dbres" where
  "Tenant_Delete e i d =
     (case GetTenant (svDB e ''get'') i d of
        Inl err \<Rightarrow> (Inl err, d)
      | Inr t \<Rightarrow>
          (case UpdateTenant (svDB e ''update'') (svNow e) (t\<lparr>tenantStatus := TenantStatusDeleted\<rparr>) d of
             (Inl err, d) \<Rightarrow> (Inl err, d)
           | (Inr _, d) \<Rightarrow> (Inr (), d)))"

section \<open>Users\<close>

record UserCreateRequest =
  ucTenantID :: "ID option"
  ucEmail :: string
  ucName :: string
  ucPassword :: string
  ucRole :: Role

record UserUpdateRequest =
  uuName :: "string option"
  uuPassword :: "string option"
  uuRole :: "Role option"
  uuStatus :: "UserStatus option"

definition user_invalid :: "(string \<Rightarrow> bool) \<Rightarrow> UserCreateRequest \<Rightarrow> string option" where
  "user_invalid validAddr req =
     (if ucEmail req = '''' then Some ''email is required''
      else if \<not> validAddr (ucEmail req) then Some ''invalid email address''
      else if ucName req = '''' then Some ''name is required''
      else if ucPassword req = '''' then Some ''password is required''
      else if length (ucPassword req) < 8 then Some ''password must be at least 8 characters''
      else if ucRole req = RoleOther '''' then Some ''role is required''
      else if ucRole req = RoleSuperUser \<and> ucTenantID req \<noteq> None then Some ''superusers cannot be assigned to a tenant''
      else if ucRole req \<noteq> RoleSuperUser \<and> ucTenantID req = None
      then Some ''non-superuser users must be assigned to a tenant''
      else None)"

definition User_Create ::
  "svc_env \<Rightarrow> auth_lib \<Rightarrow> (string \<Rightarrow> bool) \<Rightarrow> UserCreateRequest \<Rightarrow> db \<Rightarrow> User dbres" where
  "User_Create e lib validAddr req d =
     (let req = req\<lparr>ucEmail := TrimSpace (ToLower (ucEmail req)), ucName := TrimSpace (ucName req)\<rparr>
      in case user_invalid validAddr req of
           Some m \<Rightarrow> (Inl (Errorf m), d)
         | None \<Rightarrow>
             (case HashPassword lib (ucPassword req) of
                Inl err \<Rightarrow> (Inl (Wrapf ''hash password'' err), d)
              | Inr hash \<Rightarrow>
                  CreateUser (svDB e ''create'') (svNow e)
                    \<lparr>userID = svNewID e, userTenantID = ucTenantID req, userEmail = ucEmail req, userName = ucName req,
                     userPasswordHash = hash, userTOTPSecret = '''', userTOTPEnabled = False, userRole = ucRole req,
                     userStatus = UserStatusActive, userLastLoginAt = None, userCreatedAt = 0, userUpdatedAt = 0\<rparr> d))"

definition User_Get :: "svc_env \<Rightarrow> ID \<Rightarrow> db \<Rightarrow> User result" where
  "User_Get e i d = GetUser (svDB e ''get'') i d"

definition User_GetByEmail :: "svc_env \<Rightarrow> string \<Rightarrow> db \<Rightarrow> User result" where
  "User_GetByEmail e email d = GetUserByEmail (svDB e ''get'') email d"

definition User_List :: "svc_env \<Rightarrow> ID option \<Rightarrow> ListParams \<Rightarrow> db \<Rightarrow> (User list \<times> int) result" where
  "User_List e tenant p d = ListUsers (svDB e ''list'') tenant (clamp_limit p) d"

text \<open>The new password hash of an update, or why there is none.\<close>

definition new_hash :: "auth_lib \<Rightarrow> UserUpdateRequest \<Rightarrow> string option result" where
  "new_hash lib req =
     (case uuPassword req of
        None \<Rightarrow> Inr None
      | Some pw \<Rightarrow>
          if length pw < 8 then Inl (Errorf ''password must be at least 8 characters'')
          else (case HashPassword lib pw of Inl err \<Rightarrow> Inl (Wrapf ''hash password'' err) | Inr h \<Rightarrow> Inr (Some h)))"

definition User_Update :: "svc_env \<Rightarrow> auth_lib \<Rightarrow> ID \<Rightarrow> UserUpdateRequest \<Rightarrow> db \<Rightarrow> User dbres" where
  "User_Update e lib i req d =
     (case GetUser (svDB e ''get'') i d of
        Inl err \<Rightarrow> (Inl err, d)
      | Inr u \<Rightarrow>
          (let nm = map_option TrimSpace (uuName req)
           in if nm = Some '''' then (Inl (Errorf ''name cannot be empty''), d)
              else case new_hash lib req of
                     Inl err \<Rightarrow> (Inl err, d)
                   | Inr hash \<Rightarrow>
                       (let u = (case nm of None \<Rightarrow> u | Some n \<Rightarrow> u\<lparr>userName := n\<rparr>);
                            u = (case hash of None \<Rightarrow> u | Some h \<Rightarrow> u\<lparr>userPasswordHash := h\<rparr>);
                            u = (case uuRole req of None \<Rightarrow> u | Some r \<Rightarrow> u\<lparr>userRole := r\<rparr>);
                            u = (case uuStatus req of None \<Rightarrow> u | Some s \<Rightarrow> u\<lparr>userStatus := s\<rparr>)
                        in UpdateUser (svDB e ''update'') (svNow e) u d)))"

definition User_Delete :: "svc_env \<Rightarrow> ID \<Rightarrow> db \<Rightarrow> unit dbres" where
  "User_Delete e i d = DeleteUser (svDB e ''delete'') i d"

definition SeedSuperUser :: "svc_env \<Rightarrow> auth_lib \<Rightarrow> (string \<Rightarrow> bool) \<Rightarrow> string result \<Rightarrow> db \<Rightarrow> unit dbres" where
  "SeedSuperUser e lib validAddr rand d =
     (case ListUsers (svDB e ''list'') None \<lparr>lpOffset = 0, lpLimit = 1\<rparr> d of
        Inl err \<Rightarrow> (Inl err, d)
      | Inr (_, n) \<Rightarrow>
          if n > 0 then (Inr (), d)
          else case GenerateRandomString rand of
                 Inl err \<Rightarrow> (Inl err, d)
               | Inr password \<Rightarrow>
                   (case User_Create e lib validAddr
                           \<lparr>ucTenantID = None, ucEmail = ''admin@edgefabric.local'', ucName = ''Admin'',
                            ucPassword = password, ucRole = RoleSuperUser\<rparr> d of
                      (Inl err, d) \<Rightarrow> (if errors_Is err ErrAlreadyExists then (Inr (), d) else (Inl err, d))
                    | (Inr _, d) \<Rightarrow> (Inr (), d)))"

section \<open>Nodes\<close>

record CreateNodeRequest =
  cnTenantID :: "ID option"
  cnName :: string
  cnHostname :: string
  cnPublicIP :: string
  cnRegion :: string
  cnProvider :: string
  cnSSHPort :: int
  cnSSHUser :: string

record UpdateNodeRequest =
  unName :: "string option"
  unTenantID :: "ID option"
  unStatus :: "NodeStatus option"
  unRegion :: "string option"

definition new_node :: "ID \<Rightarrow> CreateNodeRequest \<Rightarrow> Node" where
  "new_node i req =
     \<lparr>nodeID = i, nodeTenantID = cnTenantID req, nodeName = cnName req, nodeHostname = cnHostname req,
      nodePublicIP = cnPublicIP req, nodeWireGuardIP = '''', nodeWireGuardIPv6 = '''',
      nodeStatus = NodeStatusPending, nodeRegion = cnRegion req, nodeProvider = cnProvider req,
      nodeSSHPort = (if cnSSHPort req = 0 then 22 else cnSSHPort req),
      nodeSSHUser = (if cnSSHUser req = '''' then ''root'' else cnSSHUser req),
      nodeSSHKeyID = None, nodeBinaryVersion = '''', nodeLastHeartbeat = None, nodeLastConfigSync = None,
      nodeCapabilities = [], nodeMetadata = '''', nodeCreatedAt = 0, nodeUpdatedAt = 0\<rparr>"

definition Fleet_CreateNode :: "svc_env \<Rightarrow> CreateNodeRequest \<Rightarrow> db \<Rightarrow> Node dbres" where
  "Fleet_CreateNode e req d =
     (if cnName req = '''' then (Inl (Errorf ''name is required''), d)
      else if cnHostname req = '''' then (Inl (Errorf ''hostname is required''), d)
      else if cnPublicIP req = '''' then (Inl (Errorf ''public_ip is required''), d)
      else if ParseIP (cnPublicIP req) = None
      then (Inl (Errorf (''invalid public_ip: '' @ go_quote (cnPublicIP req))), d)
      else wrap ''create node'' (CreateNode (svDB e ''create'') (svNow e) (new_node (svNewID e) req) d))"

definition Fleet_GetNode :: "svc_env \<Rightarrow> ID \<Rightarrow> db \<Rightarrow> Node result" where
  "Fleet_GetNode e i d = GetNode (svDB e ''get'') i d"

definition Fleet_ListNodes :: "svc_env \<Rightarrow> ID option \<Rightarrow> ListParams \<Rightarrow> db \<Rightarrow> (Node list \<times> int) result" where
  "Fleet_ListNodes e tenant p d = ListNodes (svDB e ''list'') tenant p d"

definition update_node_fields :: "UpdateNodeRequest \<Rightarrow> Node \<Rightarrow> Node" where
  "update_node_fields req n =
     (let n = (case unName req of None \<Rightarrow> n | Some x \<Rightarrow> n\<lparr>nodeName := x\<rparr>);
          n = (case unTenantID req of None \<Rightarrow> n | Some x \<Rightarrow> n\<lparr>nodeTenantID := Some x\<rparr>);
          n = (case unStatus req of None \<Rightarrow> n | Some x \<Rightarrow> n\<lparr>nodeStatus := x\<rparr>)
      in case unRegion req of None \<Rightarrow> n | Some x \<Rightarrow> n\<lparr>nodeRegion := x\<rparr>)"

definition Fleet_UpdateNode :: "svc_env \<Rightarrow> ID \<Rightarrow> UpdateNodeRequest \<Rightarrow> db \<Rightarrow> Node dbres" where
  "Fleet_UpdateNode e i req d =
     (case GetNode (svDB e ''get for update'') i d of
        Inl err \<Rightarrow> (Inl err, d)
      | Inr n \<Rightarrow> wrap ''update node'' (UpdateNode (svDB e ''update'') (svNow e) (update_node_fields req n) d))"

definition Fleet_DeleteNode :: "svc_env \<Rightarrow> ID \<Rightarrow> db \<Rightarrow> unit dbres" where
  "Fleet_DeleteNode e i d = DeleteNode (svDB e ''delete'') i d"

text \<open>
  The heartbeats also return the events that are published; \<open>idstr\<close> is the text of an
  identifier.  Without a bus, or when the status cannot be read, the previous status is
  the empty string.
\<close>

fun node_status_string :: "NodeStatus \<Rightarrow> string" where
  "node_status_string NodeStatusPending = ''pending''"
| "node_status_string NodeStatusEnrolling = ''enrolling''"
| "node_status_string NodeStatusOnline = ''online''"
| "node_status_string NodeStatusOffline = ''offline''"
| "node_status_string NodeStatusError = ''error''"
| "node_status_string NodeStatusDecommissioned = ''decommissioned''"
| "node_status_string (NodeStatusOther s) = s"

definition status_event :: "EventType \<Rightarrow> string \<Rightarrow> string \<Rightarrow> Event" where
  "status_event et res previous =
     \<lparr>evType = et, evSeverity = SeverityInfo, evResource = res,
      evDetails = [(''previous_status'', previous), (''new_status'', ''online'')]\<rparr>"

definition RecordNodeHeartbeat ::
  "svc_env \<Rightarrow> (ID \<Rightarrow> string) \<Rightarrow> bool \<Rightarrow> ID \<Rightarrow> db \<Rightarrow> unit dbres \<times> Event list" where
  "RecordNodeHeartbeat e idstr hasBus i d =
     (let previous = (if hasBus then (case GetNode (svDB e ''read status'') i d of
                                        Inr n \<Rightarrow> nodeStatus n | Inl _ \<Rightarrow> NodeStatusOther '''')
                      else NodeStatusOther '''')
      in case UpdateNodeHeartbeat (svDB e ''heartbeat'') (svNow e) i d of
           (Inl err, d) \<Rightarrow> ((Inl err, d), [])
         | (Inr _, d) \<Rightarrow>
             ((Inr (), d),
              if hasBus \<and> previous \<noteq> NodeStatusOnline
              then [status_event EvNodeStatusChanged (''node/'' @ idstr i) (node_status_string previous)] else []))"

section \<open>Gateways\<close>

record CreateGatewayRequest =
  cgTenantID :: ID
  cgName :: string
  cgPublicIP :: string

record UpdateGatewayRequest =
  ugName :: "string option"
  ugStatus :: "GatewayStatus option"

definition Fleet_CreateGateway :: "svc_env \<Rightarrow> CreateGatewayRequest \<Rightarrow> db \<Rightarrow> Gateway dbres" where
  "Fleet_CreateGateway e req d =
     (if cgName req = '''' then (Inl (Errorf ''name is required''), d)
      else wrap ''create gateway'' (CreateGateway (svDB e ''create'') (svNow e)
             \<lparr>gwID = svNewID e, gwTenantID = cgTenantID req, gwName = cgName req, gwPublicIP = cgPublicIP req,
              gwWireGuardIP = '''', gwStatus = GatewayStatusPending, gwEnrollmentToken = '''',
              gwLastHeartbeat = None, gwLastConfigSync = None, gwMetadata = '''',
              gwCreatedAt = svNow e, gwUpdatedAt = svNow e\<rparr> d))"

definition Fleet_GetGateway :: "svc_env \<Rightarrow> ID \<Rightarrow> db \<Rightarrow> Gateway result" where
  "Fleet_GetGateway e i d = GetGateway (svDB e ''get'') i d"

definition Fleet_ListGateways :: "svc_env \<Rightarrow> ID option \<Rightarrow> ListParams \<Rightarrow> db \<Rightarrow> (Gateway list \<times> int) result" where
  "Fleet_ListGateways e tenant p d = ListGateways (svDB e ''list'') tenant p d"

definition update_gateway_fields :: "UpdateGatewayRequest \<Rightarrow> Gateway \<Rightarrow> Gateway" where
  "update_gateway_fields req g =
     (let g = (case ugName req of None \<Rightarrow> g | Some x \<Rightarrow> g\<lparr>gwName := x\<rparr>)
      in case ugStatus req of None \<Rightarrow> g | Some x \<Rightarrow> g\<lparr>gwStatus := x\<rparr>)"

definition Fleet_UpdateGateway :: "svc_env \<Rightarrow> ID \<Rightarrow> UpdateGatewayRequest \<Rightarrow> db \<Rightarrow> Gateway dbres" where
  "Fleet_UpdateGateway e i req d =
     (case GetGateway (svDB e ''get for update'') i d of
        Inl err \<Rightarrow> (Inl err, d)
      | Inr g \<Rightarrow> wrap ''update gateway'' (UpdateGateway (svDB e ''update'') (svNow e) (update_gateway_fields req g) d))"

definition Fleet_DeleteGateway :: "svc_env \<Rightarrow> ID \<Rightarrow> db \<Rightarrow> unit dbres" where
  "Fleet_DeleteGateway e i d = DeleteGateway (svDB e ''delete'') i d"

fun gateway_status_string :: "GatewayStatus \<Rightarrow> string" where
  "gateway_status_string GatewayStatusPending = ''pending''"
| "gateway_status_string GatewayStatusEnrolling = ''enrolling''"
| "gateway_status_string GatewayStatusOnline = ''online''"
| "gateway_status_string GatewayStatusOffline = ''offline''"
| "gateway_status_string GatewayStatusError = ''error''"
| "gateway_status_string (GatewayStatusOther s) = s"

definition RecordGatewayHeartbeat ::
  "svc_env \<Rightarrow> (ID \<Rightarrow> string) \<Rightarrow> bool \<Rightarrow> ID \<Rightarrow> db \<Rightarrow> unit dbres \<times> Event list" where
  "RecordGatewayHeartbeat e idstr hasBus i d =
     (let previous = (if hasBus then (case GetGateway (svDB e ''read status'') i d of
                                        Inr g \<Rightarrow> gwStatus g | Inl _ \<Rightarrow> GatewayStatusOther '''')
                      else GatewayStatusOther '''')
      in case UpdateGatewayHeartbeat (svDB e ''heartbeat'') (svNow e) i d of
           (Inl err, d) \<Rightarrow> ((Inl err, d), [])
         | (Inr _, d) \<Rightarrow>
             ((Inr (), d),
              if hasBus \<and> previous \<noteq> GatewayStatusOnline
              then [status_event EvGatewayStatusChanged (''gateway/'' @ idstr i) (gateway_status_string previous)] else []))"

section \<open>Node groups and SSH keys\<close>

record CreateNodeGroupRequest =
  ngTenantID :: ID
  ngName :: string
  ngDescription :: string

definition Fleet_CreateNodeGroup :: "svc_env \<Rightarrow> CreateNodeGroupRequest \<Rightarrow> db \<Rightarrow> NodeGroup dbres" where
  "Fleet_CreateNodeGroup e req d =
     (if ngName req = '''' then (Inl (Errorf ''name is required''), d)
      else wrap ''create node group'' (CreateNodeGroup (svDB e ''create'') (svNow e)
             \<lparr>groupID = svNewID e, groupTenantID = ngTenantID req, groupName = ngName req,
              groupDescription = ngDescription req, groupCreatedAt = 0, groupUpdatedAt = 0\<rparr> d))"

definition Fleet_GetNodeGroup :: "svc_env \<Rightarrow> ID \<Rightarrow> db \<Rightarrow> NodeGroup result" where
  "Fleet_GetNodeGroup e i d = GetNodeGroup (svDB e ''get'') i d"

definition Fleet_ListNodeGroups :: "svc_env \<Rightarrow> ID \<Rightarrow> ListParams \<Rightarrow> db \<Rightarrow> (NodeGroup list \<times> int) result" where
  "Fleet_ListNodeGroups e tenant p d = ListNodeGroups (svDB e ''list'') tenant p d"

definition Fleet_AddNodeToGroup :: "svc_env \<Rightarrow> ID \<Rightarrow> ID \<Rightarrow> db \<Rightarrow> unit dbres" where
  "Fleet_AddNodeToGroup e gid nid d =
     (case GetNodeGroup (svDB e ''get group'') gid d of
        Inl err \<Rightarrow> (Inl (Wrapf ''get group'' err), d)
      | Inr _ \<Rightarrow>
          (case GetNode (svDB e ''get node'') nid d of
             Inl err \<Rightarrow> (Inl (Wrapf ''get node'' err), d)
           | Inr _ \<Rightarrow> AddNodeToGroup (svDB e ''add'') gid nid d))"

definition Fleet_DeleteNodeGroup :: "svc_env \<Rightarrow> ID \<Rightarrow> db \<Rightarrow> unit dbres" where
  "Fleet_DeleteNodeGroup e i d = DeleteNodeGroup (svDB e ''delete'') i d"

definition Fleet_RemoveNodeFromGroup :: "svc_env \<Rightarrow> ID \<Rightarrow> ID \<Rightarrow> db \<Rightarrow> unit dbres" where
  "Fleet_RemoveNodeFromGroup e gid nid d = RemoveNodeFromGroup (svDB e ''remove'') gid nid d"

definition Fleet_CreateSSHKey :: "svc_env \<Rightarrow> SSHKey \<Rightarrow> db \<Rightarrow> SSHKey dbres" where
  "Fleet_CreateSSHKey e k d = CreateSSHKey (svDB e ''create'') (svNow e) k d"

definition Fleet_GetSSHKey :: "svc_env \<Rightarrow> ID \<Rightarrow> db \<Rightarrow> SSHKey result" where
  "Fleet_GetSSHKey e i d = GetSSHKey (svDB e ''get'') i d"

definition Fleet_ListSSHKeys :: "svc_env \<Rightarrow> ListParams \<Rightarrow> db \<Rightarrow> (SSHKey list \<times> int) result" where
  "Fleet_ListSSHKeys e p d = ListSSHKeys (svDB e ''list'') p d"

definition Fleet_DeleteSSHKey :: "svc_env \<Rightarrow> ID \<Rightarrow> db \<Rightarrow> unit dbres" where
  "Fleet_DeleteSSHKey e i d = DeleteSSHKey (svDB e ''delete'') i d"

section \<open>The audit log\<close>

record LogEvent =
  leTenantID :: "ID option"
  leUserID :: "ID option"
  leAPIKeyID :: "ID option"
  leAction :: string
  leResource :: string
  leDetails :: "(string \<times> string) list"
  leSourceIP :: string

text \<open>\<open>i\<close> is the fresh identifier of the event.\<close>

definition audit_Log :: "svc_env \<Rightarrow> ID \<Rightarrow> LogEvent \<Rightarrow> db \<Rightarrow> unit dbres" where
  "audit_Log e i ev d =
     CreateAuditEvent (svDB e ''audit'')
       \<lparr>auditID = i, auditTenantID = leTenantID ev, auditUserID = leUserID ev, auditAPIKeyID = leAPIKeyID ev,
        auditAction = leAction ev, auditResource = leResource ev, auditDetails = leDetails ev,
        auditSourceIP = leSourceIP ev, auditTimestamp = svNow e\<rparr> d"

definition audit_List :: "svc_env \<Rightarrow> ID option \<Rightarrow> ListParams \<Rightarrow> db \<Rightarrow> (AuditEvent list \<times> int) result" where
  "audit_List e tenant p d = ListAuditEvents (svDB e ''list audit'') tenant p d"

end
