(* ===== verification/EF_Leader.thy ===== *)
theory EF_Leader
  imports EF_Events
begin

text \<open>
  Leader election of the controllers, \<open>internal/ha/leader.go\<close>: the elector
  that holds a PostgreSQL advisory lock on a connection of its own, the no-op
  elector of a single instance, and a cluster of electors over one database.

  PostgreSQL is a parameter: \<open>pg_locks\<close> has the three things a session can do to
  an advisory lock and the view of who holds it, and \<open>pg_ok\<close> states what the
  manual says of them (a lock is held by one session at a time, the same session
  may take it several times and must release it as often, and the end of a
  session releases what it holds).
\<close>

section \<open>Advisory locks\<close>

type_synonym session = nat

record 'l pg_locks =
  pgTry :: "int \<Rightarrow> session \<Rightarrow> 'l \<Rightarrow> bool \<times> 'l"
  pgUnlock :: "int \<Rightarrow> session \<Rightarrow> 'l \<Rightarrow> 'l"
  pgEnd :: "session \<Rightarrow> 'l \<Rightarrow> 'l"
  pgHeld :: "'l \<Rightarrow> int \<Rightarrow> session \<Rightarrow> nat"

definition pg_ok :: "'l pg_locks \<Rightarrow> bool" where
  "pg_ok L \<longleftrightarrow>
     (\<forall>k s l. fst (pgTry L k s l) = (\<forall>s'. s' \<noteq> s \<longrightarrow> pgHeld L l k s' = 0)) \<and>
     (\<forall>k s l. pgHeld L (snd (pgTry L k s l)) =
        (if fst (pgTry L k s l) then (pgHeld L l)(k := (pgHeld L l k)(s := pgHeld L l k s + 1))
         else pgHeld L l)) \<and>
     (\<forall>k s l. pgHeld L (pgUnlock L k s l) =
        (pgHeld L l)(k := (pgHeld L l k)(s := pgHeld L l k s - 1))) \<and>
     (\<forall>s l. pgHeld L (pgEnd L s l) = (\<lambda>k. (pgHeld L l k)(s := 0)))"

section \<open>The elector\<close>

text \<open>
  The callbacks are names, recorded in the order they are called; \<open>None\<close> for a
  nil callback or bus.  \<open>elConnDone\<close> is the state of the dedicated \<open>sql.Conn\<close>:
  once the driver has reported a bad connection every later use of it fails.
\<close>

datatype leader_call = CallElected | CallDemoted | CallHandler Handler Event

record PostgresLeaderElector =
  elIsLeader :: bool
  elOnElected :: bool
  elOnDemoted :: bool
  elBus :: "Bus option"
  elInterval :: int
  elLockID :: int
  elConnDone :: bool
  elCalls :: "leader_call list"

definition defaultLockID :: int where
  "defaultLockID = 0x45464C4452"

definition defaultInterval :: int where
  "defaultInterval = 5 * 1000000000"

datatype elector_option = WithElectionInterval int | WithLockID int

fun apply_option :: "elector_option \<Rightarrow> PostgresLeaderElector \<Rightarrow> PostgresLeaderElector" where
  "apply_option (WithElectionInterval d) e = e\<lparr>elInterval := d\<rparr>"
| "apply_option (WithLockID k) e = e\<lparr>elLockID := k\<rparr>"

definition NewPostgresLeaderElector ::
    "Bus option \<Rightarrow> bool \<Rightarrow> bool \<Rightarrow> elector_option list \<Rightarrow> PostgresLeaderElector" where
  "NewPostgresLeaderElector bus onElected onDemoted opts =
     fold apply_option opts
       \<lparr>elIsLeader = False, elOnElected = onElected, elOnDemoted = onDemoted, elBus = bus,
        elInterval = defaultInterval, elLockID = defaultLockID, elConnDone = False,
        elCalls = []\<rparr>"

definition elector_call :: "leader_call \<Rightarrow> PostgresLeaderElector \<Rightarrow> PostgresLeaderElector" where
  "elector_call c e = e\<lparr>elCalls := elCalls e @ [c]\<rparr>"

definition elector_publish :: "Event \<Rightarrow> PostgresLeaderElector \<Rightarrow> PostgresLeaderElector" where
  "elector_publish ev e =
     (case elBus e of None \<Rightarrow> e
      | Some b \<Rightarrow>
          (case Publish b ev of (calls, b') \<Rightarrow>
             e\<lparr>elBus := Some b',
               elCalls := elCalls e @ map (\<lambda>(h, ev). CallHandler h ev) calls\<rparr>))"

definition elect :: "PostgresLeaderElector \<Rightarrow> PostgresLeaderElector" where
  "elect e =
     (let e = e\<lparr>elIsLeader := True\<rparr>;
          e = (if elOnElected e then elector_call CallElected e else e)
      in elector_publish
           \<lparr>evType = EvLeaderElected, evSeverity = SeverityInfo, evResource = ''controller'',
            evDetails = [(''action'', ''elected'')]\<rparr> e)"

definition demote :: "PostgresLeaderElector \<Rightarrow> PostgresLeaderElector" where
  "demote e =
     (let e = e\<lparr>elIsLeader := False\<rparr>;
          e = (if elOnDemoted e then elector_call CallDemoted e else e)
      in elector_publish
           \<lparr>evType = EvLeaderLost, evSeverity = SeverityWarning, evResource = ''controller'',
            evDetails = [(''action'', ''demoted'')]\<rparr> e)"

text \<open>
  How a statement on the dedicated connection went: \<open>Answered\<close>, or an error, where
  the server may have run the statement and the driver may have reported a bad
  connection.  A statement on a connection that is done, or whose session the
  server has ended, always fails and never runs.
\<close>

datatype query_outcome = Answered | QueryFailed (ranAnyway: bool) (badConn: bool)

definition conn_after :: "query_outcome \<Rightarrow> PostgresLeaderElector \<Rightarrow> PostgresLeaderElector" where
  "conn_after q e =
     (case q of
        QueryFailed _ bad \<Rightarrow> e\<lparr>elConnDone := elConnDone e \<or> bad\<rparr>
      | Answered \<Rightarrow> e)"

definition query_lock ::
    "'l pg_locks \<Rightarrow> session \<Rightarrow> bool \<Rightarrow> query_outcome \<Rightarrow> PostgresLeaderElector \<Rightarrow> 'l \<Rightarrow> bool option \<times> 'l" where
  "query_lock L s alive q e l =
     (if elConnDone e \<or> \<not> alive then (None, l)
      else (case q of
              Answered \<Rightarrow> (case pgTry L (elLockID e) s l of (acquired, l') \<Rightarrow> (Some acquired, l'))
            | QueryFailed run _ \<Rightarrow> (None, if run then snd (pgTry L (elLockID e) s l) else l)))"

definition tryAcquire ::
    "'l pg_locks \<Rightarrow> session \<Rightarrow> bool \<Rightarrow> query_outcome \<Rightarrow> PostgresLeaderElector \<Rightarrow> 'l
     \<Rightarrow> PostgresLeaderElector \<times> 'l" where
  "tryAcquire L s alive q e l =
     (case query_lock L s alive q e l of
        (None, l') \<Rightarrow>
          (let e = conn_after q e
           in (if elIsLeader e then demote e else e, l'))
      | (Some acquired, l') \<Rightarrow>
          (let wasLeader = elIsLeader e
           in (if acquired \<and> \<not> wasLeader then elect e
               else if \<not> acquired \<and> wasLeader then demote e
               else e, l')))"

definition releaseLock ::
    "'l pg_locks \<Rightarrow> session \<Rightarrow> bool \<Rightarrow> query_outcome \<Rightarrow> PostgresLeaderElector \<Rightarrow> 'l
     \<Rightarrow> PostgresLeaderElector \<times> 'l" where
  "releaseLock L s alive q e l =
     (if elConnDone e \<or> \<not> alive then (conn_after q e, l)
      else (case q of
              Answered \<Rightarrow> (e, pgUnlock L (elLockID e) s l)
            | QueryFailed run _ \<Rightarrow>
                (conn_after q e, if run then pgUnlock L (elLockID e) s l else l)))"

text \<open>
  The three parts of \<open>Start\<close>: up to the first attempt (\<open>None\<close> when the pool has no
  connection and \<open>Start\<close> returns the error), one turn of the loop, and the return
  when the context is cancelled.  Closing the \<open>sql.Conn\<close> hands the session back to
  the pool; it does not end the session.
\<close>

definition Start_begin ::
    "'l pg_locks \<Rightarrow> session \<Rightarrow> bool \<Rightarrow> query_outcome \<Rightarrow> PostgresLeaderElector \<Rightarrow> 'l
     \<Rightarrow> (PostgresLeaderElector \<times> 'l) option" where
  "Start_begin L s connOK q e l = (if connOK then Some (tryAcquire L s True q e l) else None)"

definition Start_cancelled ::
    "'l pg_locks \<Rightarrow> session \<Rightarrow> bool \<Rightarrow> query_outcome \<Rightarrow> PostgresLeaderElector \<Rightarrow> 'l
     \<Rightarrow> PostgresLeaderElector \<times> 'l" where
  "Start_cancelled L s alive q e l =
     (if elIsLeader e
      then (case releaseLock L s alive q e l of (e', l') \<Rightarrow> (demote e', l'))
      else (e, l))"

section \<open>The elector of a single instance\<close>

record NoopLeaderElector =
  noopIsLeader :: bool
  noopOnElected :: bool
  noopOnDemoted :: bool
  noopCalls :: "leader_call list"

definition NewNoopLeaderElector :: "bool \<Rightarrow> bool \<Rightarrow> NoopLeaderElector" where
  "NewNoopLeaderElector onElected onDemoted =
     \<lparr>noopIsLeader = False, noopOnElected = onElected, noopOnDemoted = onDemoted, noopCalls = []\<rparr>"

definition Noop_Start_begin :: "NoopLeaderElector \<Rightarrow> NoopLeaderElector" where
  "Noop_Start_begin e =
     e\<lparr>noopIsLeader := True,
       noopCalls := noopCalls e @ (if noopOnElected e then [CallElected] else [])\<rparr>"

definition Noop_Start_cancelled :: "NoopLeaderElector \<Rightarrow> NoopLeaderElector" where
  "Noop_Start_cancelled e =
     e\<lparr>noopIsLeader := False,
       noopCalls := noopCalls e @ (if noopOnDemoted e then [CallDemoted] else [])\<rparr>"

section \<open>A cluster of controllers\<close>

text \<open>
  The controllers of a deployment, numbered; controller \<open>i\<close> uses session \<open>i\<close>.
  \<open>clRunning\<close> holds while \<open>Start\<close> is in its loop and \<open>clAlive\<close> while the server keeps
  the session.  The steps are the parts of \<open>Start\<close> and the end of a session.
\<close>

record 'l cluster =
  clElector :: "nat \<Rightarrow> PostgresLeaderElector"
  clRunning :: "nat \<Rightarrow> bool"
  clStarted :: "nat \<Rightarrow> bool"
  clAlive :: "nat \<Rightarrow> bool"
  clLocks :: 'l

datatype leader_step =
    StartElector nat bool query_outcome
  | Tick nat query_outcome
  | Cancel nat query_outcome
  | SessionEnds nat

definition set_elector :: "nat \<Rightarrow> PostgresLeaderElector \<times> 'l \<Rightarrow> 'l cluster \<Rightarrow> 'l cluster" where
  "set_elector i r c = c\<lparr>clElector := (clElector c)(i := fst r), clLocks := snd r\<rparr>"

fun cluster_step :: "'l pg_locks \<Rightarrow> leader_step \<Rightarrow> 'l cluster \<Rightarrow> 'l cluster" where
  "cluster_step L (StartElector i connOK q) c =
     (if clStarted c i then c
      else (case Start_begin L i connOK q (clElector c i) (clLocks c) of
              None \<Rightarrow> c\<lparr>clStarted := (clStarted c)(i := True)\<rparr>
            | Some r \<Rightarrow>
                set_elector i r
                  (c\<lparr>clStarted := (clStarted c)(i := True), clAlive := (clAlive c)(i := True),
                     clRunning := (clRunning c)(i := True)\<rparr>)))"
| "cluster_step L (Tick i q) c =
     (if clRunning c i
      then set_elector i (tryAcquire L i (clAlive c i) q (clElector c i) (clLocks c)) c
      else c)"
| "cluster_step L (Cancel i q) c =
     (if clRunning c i
      then set_elector i (Start_cancelled L i (clAlive c i) q (clElector c i) (clLocks c))
             (c\<lparr>clRunning := (clRunning c)(i := False)\<rparr>)
      else c)"
| "cluster_step L (SessionEnds i) c =
     c\<lparr>clAlive := (clAlive c)(i := False), clLocks := pgEnd L i (clLocks c)\<rparr>"

definition new_cluster :: "(nat \<Rightarrow> PostgresLeaderElector) \<Rightarrow> 'l \<Rightarrow> 'l cluster" where
  "new_cluster es l =
     \<lparr>clElector = es, clRunning = (\<lambda>_. False), clStarted = (\<lambda>_. False), clAlive = (\<lambda>_. False),
      clLocks = l\<rparr>"

inductive cluster_reachable :: "'l pg_locks \<Rightarrow> 'l cluster \<Rightarrow> bool" for L where
  start: "\<lbrakk>\<And>i. \<exists>bus up down opts. es i = NewPostgresLeaderElector bus up down opts;
           \<And>k s. pgHeld L l k s = 0\<rbrakk>
          \<Longrightarrow> cluster_reachable L (new_cluster es l)"
| step: "cluster_reachable L c \<Longrightarrow> cluster_reachable L (cluster_step L a c)"


section \<open>Safety\<close>

lemma elector_publish_sel [simp]:
  "elIsLeader (elector_publish ev e) = elIsLeader e"
  "elLockID (elector_publish ev e) = elLockID e"
  "elConnDone (elector_publish ev e) = elConnDone e"
  by (simp_all add: elector_publish_def Publish_def Let_def split: option.split)

lemma elect_sel [simp]:
  "elIsLeader (elect e)" "elLockID (elect e) = elLockID e" "elConnDone (elect e) = elConnDone e"
  by (simp_all add: elect_def elector_call_def Let_def)

lemma demote_sel [simp]:
  "\<not> elIsLeader (demote e)" "elLockID (demote e) = elLockID e" "elConnDone (demote e) = elConnDone e"
  by (simp_all add: demote_def elector_call_def Let_def)

lemma conn_after_sel [simp]:
  "elIsLeader (conn_after q e) = elIsLeader e" "elLockID (conn_after q e) = elLockID e"
  "elConnDone e \<Longrightarrow> elConnDone (conn_after q e)"
  by (simp_all add: conn_after_def split: query_outcome.split)

lemma tryAcquire_leader:
  "elIsLeader (fst (tryAcquire L s alive q e l)) \<longleftrightarrow>
     \<not> elConnDone e \<and> alive \<and> q = Answered \<and> fst (pgTry L (elLockID e) s l)"
  by (auto simp: tryAcquire_def query_lock_def Let_def split: query_outcome.split prod.split)

lemma tryAcquire_lockID [simp]:
  "elLockID (fst (tryAcquire L s alive q e l)) = elLockID e"
  by (auto simp: tryAcquire_def query_lock_def Let_def split: query_outcome.split prod.split)

lemma tryAcquire_locks:
  "snd (tryAcquire L s alive q e l) =
     (if \<not> elConnDone e \<and> alive \<and> (q = Answered \<or> ranAnyway q)
      then snd (pgTry L (elLockID e) s l) else l)"
  by (cases q) (auto simp: tryAcquire_def query_lock_def Let_def split: prod.split)

lemma Start_cancelled_elector:
  "\<not> elIsLeader (fst (Start_cancelled L s alive q e l))"
  "elLockID (fst (Start_cancelled L s alive q e l)) = elLockID e"
  by (simp_all add: Start_cancelled_def releaseLock_def split: query_outcome.split prod.split)

lemma Start_cancelled_locks:
  "snd (Start_cancelled L s alive q e l) =
     (if elIsLeader e \<and> \<not> elConnDone e \<and> alive \<and> (q = Answered \<or> ranAnyway q)
      then pgUnlock L (elLockID e) s l else l)"
  by (cases q) (auto simp: Start_cancelled_def releaseLock_def)

lemma apply_option_sel [simp]:
  "elIsLeader (apply_option op e) = elIsLeader e" "elConnDone (apply_option op e) = elConnDone e"
  by (cases op; simp)+

lemma new_elector_sel [simp]:
  "\<not> elIsLeader (NewPostgresLeaderElector bus up down opts)"
  "\<not> elConnDone (NewPostgresLeaderElector bus up down opts)"
proof -
  have "elIsLeader (fold apply_option os e) = elIsLeader e \<and>
        elConnDone (fold apply_option os e) = elConnDone e" for os e
    by (induction os arbitrary: e) simp_all
  then show "\<not> elIsLeader (NewPostgresLeaderElector bus up down opts)"
    "\<not> elConnDone (NewPostgresLeaderElector bus up down opts)"
    by (simp_all add: NewPostgresLeaderElector_def)
qed

text \<open>A lock is held by one session, and only by a session that the server still has.\<close>

definition locks_inv :: "(int \<Rightarrow> session \<Rightarrow> nat) \<Rightarrow> (session \<Rightarrow> bool) \<Rightarrow> bool" where
  "locks_inv held alive \<longleftrightarrow>
     (\<forall>k s s'. 0 < held k s \<longrightarrow> 0 < held k s' \<longrightarrow> s = s') \<and>
     (\<forall>k s. \<not> alive s \<longrightarrow> held k s = 0)"

definition cluster_inv :: "'l pg_locks \<Rightarrow> 'l cluster \<Rightarrow> bool" where
  "cluster_inv L c \<longleftrightarrow>
     locks_inv (pgHeld L (clLocks c)) (clAlive c) \<and>
     (\<forall>i. elIsLeader (clElector c i) \<longrightarrow> clRunning c i \<and>
        (clAlive c i \<longrightarrow> 0 < pgHeld L (clLocks c) (elLockID (clElector c i)) i)) \<and>
     (\<forall>i. clRunning c i \<longrightarrow> clStarted c i)"

lemma pg_okD:
  assumes "pg_ok L"
  shows "fst (pgTry L k s l) = (\<forall>s'. s' \<noteq> s \<longrightarrow> pgHeld L l k s' = 0)"
    and "pgHeld L (snd (pgTry L k s l)) =
        (if \<forall>s'. s' \<noteq> s \<longrightarrow> pgHeld L l k s' = 0
         then (pgHeld L l)(k := (pgHeld L l k)(s := pgHeld L l k s + 1)) else pgHeld L l)"
    and "pgHeld L (pgUnlock L k s l) = (pgHeld L l)(k := (pgHeld L l k)(s := pgHeld L l k s - 1))"
    and "pgHeld L (pgEnd L s l) = (\<lambda>k. (pgHeld L l k)(s := 0))"
  using assms unfolding pg_ok_def by metis+

lemma locks_inv_try:
  assumes "pg_ok L" "locks_inv (pgHeld L l) alive" "alive s"
  shows "locks_inv (pgHeld L (snd (pgTry L k s l))) alive"
  using assms(2,3) unfolding locks_inv_def pg_okD(2) [OF assms(1)] by (auto split: if_splits)

lemma locks_inv_mono:
  assumes "locks_inv held alive" "\<And>k s. held' k s \<le> held k s"
  shows "locks_inv held' alive"
proof -
  have "0 < held k s" if "0 < held' k s" for k s
    using that assms(2) [of k s] by simp
  then show ?thesis
    using assms(1) unfolding locks_inv_def by (metis gr0I less_irrefl)
qed

lemma locks_inv_unlock:
  assumes "pg_ok L" "locks_inv (pgHeld L l) alive"
  shows "locks_inv (pgHeld L (pgUnlock L k s l)) alive"
  using assms(2) by (rule locks_inv_mono) (simp add: pg_okD(3) [OF assms(1)])

lemma locks_inv_end:
  assumes "pg_ok L" "locks_inv (pgHeld L l) alive"
  shows "locks_inv (pgHeld L (pgEnd L s l)) (alive(s := False))"
  using assms(2) unfolding locks_inv_def pg_okD(4) [OF assms(1)] by auto

lemma locks_inv_more:
  "locks_inv held alive \<Longrightarrow> locks_inv held (alive(s := True))"
  unfolding locks_inv_def by auto

lemma cluster_inv_new:
  assumes "\<And>i. \<exists>bus up down opts. es i = NewPostgresLeaderElector bus up down opts"
    and "\<And>k s. pgHeld L l k s = 0"
  shows "cluster_inv L (new_cluster es l)"
proof -
  have "\<not> elIsLeader (es i)" for i
    using assms(1) [of i] by auto
  then show ?thesis
    by (simp add: cluster_inv_def new_cluster_def locks_inv_def assms(2))
qed

lemma cluster_inv_acquire:
  assumes ok: "pg_ok L" and inv: "cluster_inv L c" and run: "clRunning c i"
  shows "cluster_inv L (set_elector i (tryAcquire L i (clAlive c i) q (clElector c i) (clLocks c)) c)"
proof -
  let ?r = "tryAcquire L i (clAlive c i) q (clElector c i) (clLocks c)"
  let ?k = "elLockID (clElector c i)"
  have locks: "locks_inv (pgHeld L (clLocks c)) (clAlive c)"
    using inv by (simp add: cluster_inv_def)
  have locks': "locks_inv (pgHeld L (snd ?r)) (clAlive c)"
    using locks_inv_try [OF ok locks] locks by (simp add: tryAcquire_locks)
  have mono: "pgHeld L (clLocks c) k s \<le> pgHeld L (snd ?r) k s" for k s
    by (simp add: tryAcquire_locks pg_okD(2) [OF ok])
  have mine: "0 < pgHeld L (snd ?r) ?k i" if "elIsLeader (fst ?r)"
    using that by (simp add: tryAcquire_leader tryAcquire_locks pg_okD [OF ok])
  have other: "0 < pgHeld L (snd ?r) (elLockID (clElector c j)) j"
    if "elIsLeader (clElector c j)" "clAlive c j" for j
    using that inv mono [of "elLockID (clElector c j)" j] unfolding cluster_inv_def
    by (meson less_le_trans)
  have "clRunning c j" if "elIsLeader (clElector c j)" for j
    using that inv unfolding cluster_inv_def by blast
  moreover have "clRunning c j \<longrightarrow> clStarted c j" for j
    using inv unfolding cluster_inv_def by blast
  moreover have "elLockID (fst ?r) = ?k" by simp
  moreover obtain e' l' where r: "?r = (e', l')" by fastforce
  ultimately show ?thesis
    using locks' mine other run unfolding cluster_inv_def set_elector_def r by simp
qed

lemma cluster_inv_cancel:
  assumes ok: "pg_ok L" and inv: "cluster_inv L c"
  shows "cluster_inv L
     (set_elector i (Start_cancelled L i (clAlive c i) q (clElector c i) (clLocks c))
        (c\<lparr>clRunning := (clRunning c)(i := False)\<rparr>))"
proof -
  let ?r = "Start_cancelled L i (clAlive c i) q (clElector c i) (clLocks c)"
  have locks: "locks_inv (pgHeld L (clLocks c)) (clAlive c)"
    using inv by (simp add: cluster_inv_def)
  have locks': "locks_inv (pgHeld L (snd ?r)) (clAlive c)"
    using locks_inv_unlock [OF ok locks] locks by (simp add: Start_cancelled_locks)
  have other: "pgHeld L (snd ?r) k j = pgHeld L (clLocks c) k j" if "j \<noteq> i" for k j
    using that by (simp add: Start_cancelled_locks pg_okD(3) [OF ok])
  show ?thesis
    using inv locks' other Start_cancelled_elector [of L i "clAlive c i" q "clElector c i" "clLocks c"]
    unfolding cluster_inv_def set_elector_def by auto
qed

lemma cluster_inv_step:
  assumes ok: "pg_ok L" and inv: "cluster_inv L c"
  shows "cluster_inv L (cluster_step L a c)"
proof (cases a)
  case (StartElector i connOK q)
  let ?c = "c\<lparr>clStarted := (clStarted c)(i := True), clAlive := (clAlive c)(i := True),
              clRunning := (clRunning c)(i := True)\<rparr>"
  have "clRunning c i \<longrightarrow> clStarted c i" "elIsLeader (clElector c i) \<longrightarrow> clRunning c i"
    using inv unfolding cluster_inv_def by blast+
  then have "cluster_inv L ?c" if "\<not> clStarted c i"
    using inv that locks_inv_more unfolding cluster_inv_def by auto
  from cluster_inv_acquire [OF ok this, of i q] show ?thesis
    using inv StartElector by (auto simp: Start_begin_def cluster_inv_def)
next
  case (Tick i q)
  then show ?thesis using cluster_inv_acquire [OF ok inv] inv by simp
next
  case (Cancel i q)
  then show ?thesis using cluster_inv_cancel [OF ok inv] inv by simp
next
  case (SessionEnds i)
  then show ?thesis
    using inv locks_inv_end [OF ok] unfolding cluster_inv_def by (auto simp: pg_okD(4) [OF ok])
qed

lemma cluster_inv_reachable:
  assumes "cluster_reachable L c" "pg_ok L"
  shows "cluster_inv L c"
  using assms(1)
proof induction
  case (start es l)
  then show ?case by (rule cluster_inv_new)
next
  case (step c a)
  then show ?case using cluster_inv_step [OF assms(2)] by blast
qed

text \<open>
  C3: two controllers that compete for the same lock never both believe to be the
  leader unless the server has ended the session of one of them, and that one
  steps down at its next turn, whatever its statement returns.  This is the
  safety that the advisory lock gives in every interleaving of elections,
  failed statements, shutdowns and lost sessions.
\<close>

theorem leaders_exclude_each_other:
  assumes "pg_ok L" "cluster_reachable L c"
    and "i \<noteq> j" "elLockID (clElector c i) = elLockID (clElector c j)"
    and "elIsLeader (clElector c i)" "elIsLeader (clElector c j)"
  shows "\<exists>k\<in>{i, j}. \<not> clAlive c k \<and>
           (\<forall>q. \<not> elIsLeader (clElector (cluster_step L (Tick k q) c) k))"
proof -
  note inv = cluster_inv_reachable [OF assms(2,1)]
  have held: "clAlive c k \<Longrightarrow> 0 < pgHeld L (clLocks c) (elLockID (clElector c k)) k"
    and run: "clRunning c k" if "k \<in> {i, j}" for k
    using that inv assms(5,6) unfolding cluster_inv_def by blast+
  have "\<not> clAlive c i \<or> \<not> clAlive c j"
    using held [of i] held [of j] inv assms(3,4) unfolding cluster_inv_def locks_inv_def by auto
  moreover have "\<not> elIsLeader (clElector (cluster_step L (Tick k q) c) k)"
    if "\<not> clAlive c k" "k \<in> {i, j}" for k q
    using run [OF that(2)] that(1) by (simp add: set_elector_def tryAcquire_leader)
  ultimately show ?thesis by blast
qed

section \<open>Liveness\<close>

text \<open>
  When a lock has an owner that keeps ticking, it stays the only leader.
\<close>

definition leads_alone :: "'l pg_locks \<Rightarrow> nat set \<Rightarrow> int \<Rightarrow> nat \<Rightarrow> 'l cluster \<Rightarrow> bool" where
  "leads_alone L live k i c \<longleftrightarrow>
     0 < pgHeld L (clLocks c) k i \<and> (\<forall>s. s \<noteq> i \<longrightarrow> pgHeld L (clLocks c) k s = 0) \<and>
     (\<forall>j\<in>live. elIsLeader (clElector c j) \<longleftrightarrow> j = i)"

definition competing :: "nat set \<Rightarrow> int \<Rightarrow> 'l cluster \<Rightarrow> bool" where
  "competing live k c \<longleftrightarrow>
     (\<forall>j\<in>live. clRunning c j \<and> clAlive c j \<and> \<not> elConnDone (clElector c j) \<and>
        elLockID (clElector c j) = k)"

lemma tryAcquire_answered:
  "elConnDone (fst (tryAcquire L s alive Answered e l)) = elConnDone e"
  by (auto simp: tryAcquire_def query_lock_def conn_after_def Let_def split: prod.split)

lemma competing_tick:
  assumes "competing live k c"
  shows "competing live k (cluster_step L (Tick i Answered) c)"
  using assms by (auto simp: competing_def set_elector_def tryAcquire_answered)

lemma first_tick_elects:
  assumes ok: "pg_ok L" and comp: "competing live k c" and i: "i \<in> live"
    and free: "\<And>s. pgHeld L (clLocks c) k s = 0"
    and none: "\<And>j. j \<in> live \<Longrightarrow> \<not> elIsLeader (clElector c j)"
  shows "leads_alone L live k i (cluster_step L (Tick i Answered) c)"
proof -
  have "clRunning c i" "clAlive c i" "\<not> elConnDone (clElector c i)" "elLockID (clElector c i) = k"
    using comp i by (auto simp: competing_def)
  then show ?thesis
    using none i free
    by (simp add: leads_alone_def set_elector_def tryAcquire_leader tryAcquire_locks pg_okD [OF ok])
qed

lemma leader_stays:
  assumes ok: "pg_ok L" and comp: "competing live k c" and j: "j \<in> live"
    and lead: "leads_alone L live k i c"
  shows "leads_alone L live k i (cluster_step L (Tick j Answered) c)"
proof -
  have "clRunning c j" "clAlive c j" "\<not> elConnDone (clElector c j)" "elLockID (clElector c j) = k"
    using comp j by (auto simp: competing_def)
  then show ?thesis
    using lead j
    by (auto simp: leads_alone_def set_elector_def tryAcquire_leader tryAcquire_locks pg_okD [OF ok])
qed


section \<open>Where the election stays stuck\<close>

lemma broken_connection_stays:
  assumes "elConnDone (clElector c i)" "clStarted c i" "\<not> elIsLeader (clElector c i)"
  shows "elConnDone (clElector (cluster_step L a c) i) \<and> clStarted (cluster_step L a c) i \<and>
         \<not> elIsLeader (clElector (cluster_step L a c) i)"
proof -
  have "elConnDone (fst (tryAcquire L i al q e l))" if "elConnDone e" for al q e l
    using that by (simp add: tryAcquire_def query_lock_def Let_def)
  then show ?thesis
    using assms
    by (cases a) (auto simp: set_elector_def tryAcquire_leader Start_begin_def Start_cancelled_def)
qed

text \<open>
  C38: an elector keeps the one connection it was started with.  Once the driver has
  reported that connection bad (after a restart of the database, say) the
  elector is not the leader and never will be again, whatever else happens:
  \<open>Start\<close> does not take a new connection from the pool.
\<close>

theorem broken_connection_never_leads:
  assumes "pg_ok L" "cluster_reachable L c" "clRunning c i"
  shows "\<not> elIsLeader (clElector
           (fold (cluster_step L) later (cluster_step L (Tick i (QueryFailed ranAny True)) c)) i)"
proof -
  have fold_steps: "\<not> elIsLeader (clElector (fold (cluster_step L) steps c) i)"
    if "elConnDone (clElector c i)" "clStarted c i" "\<not> elIsLeader (clElector c i)" for steps c
    using that by (induction steps arbitrary: c) (simp_all add: broken_connection_stays)
  have "clStarted c i"
    using cluster_inv_reachable [OF assms(2,1)] assms(3) by (simp add: cluster_inv_def)
  moreover have "elConnDone (fst (tryAcquire L i (clAlive c i) (QueryFailed ranAny True) e l))" for e l
    by (simp add: tryAcquire_def query_lock_def conn_after_def Let_def)
  ultimately show ?thesis
    using assms(3) by (intro fold_steps) (simp_all add: set_elector_def tryAcquire_leader)
qed

definition lock_kept :: "'l pg_locks \<Rightarrow> nat \<Rightarrow> nat \<Rightarrow> 'l cluster \<Rightarrow> bool" where
  "lock_kept L i j c \<longleftrightarrow>
     0 < pgHeld L (clLocks c) (elLockID (clElector c j)) i \<and> clStarted c i \<and> \<not> clRunning c i \<and>
     \<not> elIsLeader (clElector c j)"

lemma lock_kept_step:
  assumes ok: "pg_ok L" and "i \<noteq> j" "lock_kept L i j c" "a \<noteq> SessionEnds i"
  shows "lock_kept L i j (cluster_step L a c)"
proof -
  let ?k = "elLockID (clElector c j)"
  have held: "0 < pgHeld L (snd (tryAcquire L s al q e (clLocks c))) ?k i" for s al q e
    using assms(3) by (auto simp: lock_kept_def tryAcquire_locks pg_okD(2) [OF ok])
  have lost: "\<not> elIsLeader (fst (tryAcquire L j al q (clElector c j) (clLocks c)))" for al q
    using assms(2,3) by (auto simp: lock_kept_def tryAcquire_leader pg_okD(1) [OF ok])
  have unlocked: "0 < pgHeld L (snd (Start_cancelled L s al q e (clLocks c))) ?k i" if "s \<noteq> i" for s al q e
    using assms(3) that by (auto simp: lock_kept_def Start_cancelled_locks pg_okD(3) [OF ok])
  show ?thesis
    using assms(2-4) held lost unlocked
    by (cases a)
       (auto simp: lock_kept_def Start_begin_def set_elector_def Start_cancelled_elector
         pg_okD(4) [OF ok])
qed

lemma lock_kept_steps:
  assumes "pg_ok L" "i \<noteq> j" "lock_kept L i j c" "SessionEnds i \<notin> set steps"
  shows "lock_kept L i j (fold (cluster_step L) steps c)"
  using assms(3,4)
proof (induction steps arbitrary: c)
  case (Cons a steps)
  then have "lock_kept L i j (cluster_step L a c)"
    using lock_kept_step [OF assms(1,2) Cons.prems(1)] by fastforce
  then show ?case using Cons by simp
qed simp

text \<open>
  C39: an orderly shutdown does not hand over.  Every turn of a leader takes the lock
  once more and the shutdown releases it once, so after one further turn the
  session that goes back to the pool still holds the lock: no other controller
  becomes the leader, whatever happens, until the server ends that session.
\<close>

theorem shutdown_keeps_lock:
  assumes "pg_ok L" "cluster_reachable L c" "i \<noteq> j"
    and "elLockID (clElector c i) = elLockID (clElector c j)"
    and "elIsLeader (clElector c i)" "clAlive c i" "\<not> elConnDone (clElector c i)"
    and "\<not> elIsLeader (clElector c j)" "SessionEnds i \<notin> set later"
  shows "\<not> elIsLeader (clElector
           (fold (cluster_step L) (Tick i Answered # Cancel i Answered # later) c) j)"
proof -
  let ?e = "clElector c i"
  let ?l = "clLocks c"
  have inv: "cluster_inv L c" by (rule cluster_inv_reachable [OF assms(2,1)])
  then have held: "0 < pgHeld L ?l (elLockID ?e) i" and run: "clRunning c i" "clStarted c i"
    using assms(5,6) by (auto simp: cluster_inv_def)
  have alone: "\<forall>s. s \<noteq> i \<longrightarrow> pgHeld L ?l (elLockID ?e) s = 0"
    using inv held unfolding cluster_inv_def locks_inv_def by (metis gr0I)
  let ?r = "tryAcquire L i True Answered ?e ?l"
  have r: "elIsLeader (fst ?r)" "\<not> elConnDone (fst ?r)" "elLockID (fst ?r) = elLockID ?e"
    "snd ?r = snd (pgTry L (elLockID ?e) i ?l)"
    using alone assms(7)
    by (simp_all add: tryAcquire_leader tryAcquire_answered tryAcquire_locks pg_okD(1) [OF assms(1)])
  have "lock_kept L i j (fold (cluster_step L) [Tick i Answered, Cancel i Answered] c)"
    using assms(3,4,6,8) held alone run r
    by (simp add: lock_kept_def set_elector_def Start_cancelled_locks pg_okD [OF assms(1)])
  from lock_kept_steps [OF assms(1,3) this assms(9)] show ?thesis
    unfolding lock_kept_def fold_simps by blast
qed

section \<open>The theorems on a concrete lock table\<close>

definition counted_locks :: "(int \<Rightarrow> (session \<times> nat) option) pg_locks" where
  "counted_locks =
     \<lparr>pgTry = (\<lambda>k s l. case l k of None \<Rightarrow> (True, l(k := Some (s, 0)))
        | Some (s', n) \<Rightarrow> if s' = s then (True, l(k := Some (s, Suc n))) else (False, l)),
      pgUnlock = (\<lambda>k s l. case l k of Some (s', n) \<Rightarrow>
          if s' = s then l(k := (case n of 0 \<Rightarrow> None | Suc m \<Rightarrow> Some (s, m))) else l
        | None \<Rightarrow> l),
      pgEnd = (\<lambda>s l k. case l k of Some (s', n) \<Rightarrow> if s' = s then None else l k | None \<Rightarrow> None),
      pgHeld = (\<lambda>l k s. case l k of Some (s', n) \<Rightarrow> if s' = s then Suc n else 0 | None \<Rightarrow> 0)\<rparr>"

lemma counted_locks_ok: "pg_ok counted_locks"
  unfolding pg_ok_def counted_locks_def
  by (auto simp: fun_eq_iff split: option.split nat.split)

definition sample_cluster :: "(int \<Rightarrow> (session \<times> nat) option) cluster" where
  "sample_cluster =
     fold (cluster_step counted_locks)
       [StartElector 0 True Answered, StartElector 1 True Answered]
       (new_cluster (\<lambda>_. NewPostgresLeaderElector None False False []) (\<lambda>_. None))"

lemma sample_cluster_reachable: "cluster_reachable counted_locks sample_cluster"
  unfolding sample_cluster_def fold_simps
  by (intro cluster_reachable.intros) (auto simp: counted_locks_def)

definition split_cluster :: "(int \<Rightarrow> (session \<times> nat) option) cluster" where
  "split_cluster =
     cluster_step counted_locks (Tick 1 Answered)
       (cluster_step counted_locks (SessionEnds 0) sample_cluster)"

lemma split_cluster_reachable: "cluster_reachable counted_locks split_cluster"
  unfolding split_cluster_def by (intro cluster_reachable.step sample_cluster_reachable)

lemma split_cluster_sel:
  "elIsLeader (clElector split_cluster 0)" "elIsLeader (clElector split_cluster 1)"
  "elLockID (clElector split_cluster 0) = elLockID (clElector split_cluster 1)"
  "clAlive split_cluster 1"
  by code_simp+

theorem leaders_exclude_each_other_witness:
  "\<not> elIsLeader (clElector (cluster_step counted_locks (Tick 0 Answered) split_cluster) 0)"
  using leaders_exclude_each_other [OF counted_locks_ok split_cluster_reachable, of 0 1]
    split_cluster_sel by auto

definition orphan_cluster :: "(int \<Rightarrow> (session \<times> nat) option) cluster" where
  "orphan_cluster = cluster_step counted_locks (SessionEnds 0) sample_cluster"

primrec orphan_run :: "nat \<Rightarrow> (int \<Rightarrow> (session \<times> nat) option) cluster" where
  "orphan_run 0 = orphan_cluster"
| "orphan_run (Suc n) = cluster_step counted_locks (Tick 1 Answered) (orphan_run n)"

lemma orphan_free: "clLocks orphan_cluster = (\<lambda>_. None)"
  by (rule ext)
     (simp add: orphan_cluster_def sample_cluster_def counted_locks_def new_cluster_def
       Start_begin_def tryAcquire_def query_lock_def set_elector_def NewPostgresLeaderElector_def
       elect_def elector_publish_def Let_def)


theorem broken_connection_never_leads_witness:
  "\<not> elIsLeader (clElector (fold (cluster_step counted_locks) [Tick 0 Answered, Tick 0 Answered]
       (cluster_step counted_locks (Tick 0 (QueryFailed False True)) sample_cluster)) 0)"
proof -
  have "clRunning sample_cluster 0" by code_simp
  then show ?thesis
    by (rule broken_connection_never_leads [OF counted_locks_ok sample_cluster_reachable])
qed

theorem shutdown_keeps_lock_witness:
  "\<not> elIsLeader (clElector (fold (cluster_step counted_locks)
       [Tick 0 Answered, Cancel 0 Answered, Tick 1 Answered] sample_cluster) 1)"
proof -
  have "elLockID (clElector sample_cluster 0) = elLockID (clElector sample_cluster 1)"
    "elIsLeader (clElector sample_cluster 0)" "clAlive sample_cluster 0"
    "\<not> elConnDone (clElector sample_cluster 0)" "\<not> elIsLeader (clElector sample_cluster 1)"
    by code_simp+
  then show ?thesis
    by (intro shutdown_keeps_lock [OF counted_locks_ok sample_cluster_reachable]) simp_all
qed

end
