(* ===== verification/EF_Route.thy ===== *)
theory EF_Route
  imports EF_NodeConfig
begin

text \<open>
  \<open>internal/route\<close>: the controller's management of routes and the route configuration
  that nodes and gateways poll.

  The operations keep every stored route valid, and a node's configuration holds exactly
  the active routes assigned to its groups, each with the address of its gateway.
\<close>

section \<open>Validation\<close>

definition route_port_error :: "string \<Rightarrow> RouteProtocol \<Rightarrow> int option \<Rightarrow> error option" where
  "route_port_error name proto port =
     (if proto = RouteProtocolICMP
      then (if port \<noteq> None then Some (Errorf (name @ '' must not be set for icmp protocol'')) else None)
      else (case port of
              None \<Rightarrow> Some (Errorf (name @ '' is required''))
            | Some p \<Rightarrow> if p < 1 \<or> p > 65535 then Some (Errorf (name @ '' must be 1-65535'')) else None))"

definition validateRoute :: "Route \<Rightarrow> error option" where
  "validateRoute r =
     (if routeName r = '''' then Some (Errorf ''route name is required'')
      else if length (routeName r) > 255 then Some (Errorf ''route name too long (max 255 characters)'')
      else if routeProtocol r \<notin> {RouteProtocolTCP, RouteProtocolUDP, RouteProtocolICMP, RouteProtocolAll}
      then Some (Errorf ''invalid protocol (must be tcp, udp, icmp, or all)'')
      else if ParseIP (routeEntryIP r) = None then Some (Errorf ''invalid entry_ip'')
      else (case route_port_error ''entry_port'' (routeProtocol r) (routeEntryPort r) of
              Some e \<Rightarrow> Some e
            | None \<Rightarrow>
                if ParseIP (routeDestinationIP r) = None then Some (Errorf ''invalid destination_ip'')
                else route_port_error ''destination_port'' (routeProtocol r) (routeDestinationPort r)))"

section \<open>Routes\<close>

record CreateRouteRequest =
  crtTenantID :: ID
  crtName :: string
  crtProtocol :: RouteProtocol
  crtEntryIP :: string
  crtEntryPort :: "int option"
  crtGatewayID :: ID
  crtDestinationIP :: string
  crtDestinationPort :: "int option"
  crtNodeGroupID :: "ID option"

record UpdateRouteRequest =
  urtName :: "string option"
  urtProtocol :: "RouteProtocol option"
  urtEntryIP :: "string option"
  urtEntryPort :: "int option"
  urtGatewayID :: "ID option"
  urtDestinationIP :: "string option"
  urtDestinationPort :: "int option"
  urtNodeGroupID :: "ID option"
  urtStatus :: "RouteStatus option"
  urtClearNodeGroup :: bool

definition request_route :: "ID \<Rightarrow> CreateRouteRequest \<Rightarrow> Route" where
  "request_route i req =
     \<lparr>routeID = i, routeTenantID = crtTenantID req, routeName = crtName req, routeProtocol = crtProtocol req,
      routeEntryIP = crtEntryIP req, routeEntryPort = crtEntryPort req, routeGatewayID = crtGatewayID req,
      routeDestinationIP = crtDestinationIP req, routeDestinationPort = crtDestinationPort req,
      routeNodeGroupID = crtNodeGroupID req, routeStatus = RouteStatusOther '''', routeCreatedAt = 0,
      routeUpdatedAt = 0\<rparr>"

definition Route_CreateRoute :: "svc_env \<Rightarrow> CreateRouteRequest \<Rightarrow> db \<Rightarrow> Route dbres" where
  "Route_CreateRoute env req d =
     (let r = request_route (svNewID env) req
      in case validateRoute r of
           Some e \<Rightarrow> (Inl (Wrapf ''invalid route'' e), d)
         | None \<Rightarrow>
             (case GetGateway (svDB env ''get gateway'') (crtGatewayID req) d of
                Inl e \<Rightarrow> (Inl (Wrapf ''gateway lookup'' e), d)
              | Inr _ \<Rightarrow> wrap ''create route'' (CreateRoute (svDB env ''create'') (svNow env) r d)))"

definition Route_GetRoute :: "svc_env \<Rightarrow> ID \<Rightarrow> db \<Rightarrow> Route result" where
  "Route_GetRoute env i d = GetRoute (svDB env ''get'') i d"

definition Route_ListRoutes :: "svc_env \<Rightarrow> ID \<Rightarrow> ListParams \<Rightarrow> db \<Rightarrow> (Route list \<times> int) result" where
  "Route_ListRoutes env tenant p d = ListRoutes (svDB env ''list'') tenant p d"

definition update_route_fields :: "UpdateRouteRequest \<Rightarrow> Route \<Rightarrow> Route" where
  "update_route_fields req r =
     (let r = (case urtName req of None \<Rightarrow> r | Some x \<Rightarrow> r\<lparr>routeName := x\<rparr>);
          r = (case urtProtocol req of None \<Rightarrow> r | Some x \<Rightarrow> r\<lparr>routeProtocol := x\<rparr>);
          r = (case urtEntryIP req of None \<Rightarrow> r | Some x \<Rightarrow> r\<lparr>routeEntryIP := x\<rparr>);
          r = (case urtEntryPort req of None \<Rightarrow> r | Some x \<Rightarrow> r\<lparr>routeEntryPort := Some x\<rparr>);
          r = (case urtGatewayID req of None \<Rightarrow> r | Some x \<Rightarrow> r\<lparr>routeGatewayID := x\<rparr>);
          r = (case urtDestinationIP req of None \<Rightarrow> r | Some x \<Rightarrow> r\<lparr>routeDestinationIP := x\<rparr>);
          r = (case urtDestinationPort req of None \<Rightarrow> r | Some x \<Rightarrow> r\<lparr>routeDestinationPort := Some x\<rparr>);
          r = (if urtClearNodeGroup req then r\<lparr>routeNodeGroupID := None\<rparr>
               else case urtNodeGroupID req of None \<Rightarrow> r | Some x \<Rightarrow> r\<lparr>routeNodeGroupID := Some x\<rparr>)
      in case urtStatus req of None \<Rightarrow> r | Some x \<Rightarrow> r\<lparr>routeStatus := x\<rparr>)"

definition Route_UpdateRoute :: "svc_env \<Rightarrow> ID \<Rightarrow> UpdateRouteRequest \<Rightarrow> db \<Rightarrow> Route dbres" where
  "Route_UpdateRoute env i req d =
     (case GetRoute (svDB env ''get'') i d of
        Inl e \<Rightarrow> (Inl e, d)
      | Inr r \<Rightarrow>
          (let r = update_route_fields req r
           in case validateRoute r of
                Some e \<Rightarrow> (Inl (Wrapf ''invalid route'' e), d)
              | None \<Rightarrow>
                  (case (case urtGatewayID req of
                           None \<Rightarrow> None
                         | Some g \<Rightarrow> (case GetGateway (svDB env ''get gateway'') g d of Inl e \<Rightarrow> Some e | Inr _ \<Rightarrow> None)) of
                     Some e \<Rightarrow> (Inl (Wrapf ''gateway lookup'' e), d)
                   | None \<Rightarrow> wrap ''update route'' (UpdateRoute (svDB env ''update'') (svNow env) r d))))"

definition Route_DeleteRoute :: "svc_env \<Rightarrow> ID \<Rightarrow> db \<Rightarrow> unit dbres" where
  "Route_DeleteRoute env i d = DeleteRoute (svDB env ''delete'') i d"

section \<open>The configuration of a node and of a gateway\<close>

record RouteWithGateway =
  rwgRoute :: Route
  rwgGatewayWGIP :: string

definition gateway_dial_address :: "Gateway \<Rightarrow> string" where
  "gateway_dial_address gw = (if gwWireGuardIP gw = '''' then gwPublicIP gw else gwWireGuardIP gw)"

text \<open>\<open>gwCache\<close> holds the addresses of the gateways looked up so far.\<close>

definition cached_gateway ::
    "svc_env \<Rightarrow> nat \<Rightarrow> ID \<Rightarrow> (ID \<times> string) list \<Rightarrow> db \<Rightarrow> (string \<times> (ID \<times> string) list) result" where
  "cached_gateway env k g gwCache d =
     (case map_of gwCache g of
        Some gwIP \<Rightarrow> Inr (gwIP, gwCache)
      | None \<Rightarrow>
          (case GetGateway (svDB env (round_label ''get gateway'' k)) g d of
             Inl e \<Rightarrow> Inl (Wrapf ''get gateway'' e)
           | Inr gw \<Rightarrow> Inr (gateway_dial_address gw, (g, gateway_dial_address gw) # gwCache)))"

fun config_routes ::
    "svc_env \<Rightarrow> nat \<Rightarrow> NodeGroup \<Rightarrow> ID list \<Rightarrow> (ID \<times> string) list \<Rightarrow> Route list \<Rightarrow> db
     \<Rightarrow> (ID list \<times> (ID \<times> string) list \<times> RouteWithGateway list) result" where
  "config_routes env k g seen gwCache [] d = Inr (seen, gwCache, [])"
| "config_routes env k g seen gwCache (r # rs) d =
     (if routeNodeGroupID r \<noteq> Some (groupID g) \<or> routeStatus r \<noteq> RouteStatusActive \<or> routeID r \<in> set seen
      then config_routes env (k + 1) g seen gwCache rs d
      else (case cached_gateway env k (routeGatewayID r) gwCache d of
              Inl e \<Rightarrow> Inl e
            | Inr (gwIP, gwCache') \<Rightarrow>
                (case config_routes env (k + 1) g (routeID r # seen) gwCache' rs d of
                   Inl e \<Rightarrow> Inl e
                 | Inr (seen', gwCache'', cfg) \<Rightarrow>
                     Inr (seen', gwCache'', \<lparr>rwgRoute = r, rwgGatewayWGIP = gwIP\<rparr> # cfg))))"

fun config_route_groups ::
    "svc_env \<Rightarrow> nat \<Rightarrow> ID list \<Rightarrow> (ID \<times> string) list \<Rightarrow> NodeGroup list \<Rightarrow> db \<Rightarrow> RouteWithGateway list result" where
  "config_route_groups env k seen gwCache [] d = Inr []"
| "config_route_groups env k seen gwCache (g # gs) d =
     (case ListRoutes (svDB env (round_label ''list routes'' k)) (groupTenantID g) listLimit d of
        Inl e \<Rightarrow> Inl (Wrapf ''list routes for group'' e)
      | Inr (routes, _) \<Rightarrow>
          (case config_routes env (k * 10000) g seen gwCache routes d of
             Inl e \<Rightarrow> Inl e
           | Inr (seen', gwCache', cfg) \<Rightarrow>
               (case config_route_groups env (k + 1) seen' gwCache' gs d of
                  Inl e \<Rightarrow> Inl e
                | Inr cfg' \<Rightarrow> Inr (cfg @ cfg'))))"

definition GetNodeRouteConfig :: "svc_env \<Rightarrow> ID \<Rightarrow> db \<Rightarrow> RouteWithGateway list result" where
  "GetNodeRouteConfig env nid d =
     (case GetNode (svDB env ''get node'') nid d of
        Inl e \<Rightarrow> Inl (Wrapf ''get node'' e)
      | Inr _ \<Rightarrow>
          (case ListNodeGroups_ByNode (svDB env ''list groups'') nid d of
             Inl e \<Rightarrow> Inl (Wrapf ''list node groups'' e)
           | Inr groups \<Rightarrow> config_route_groups env 0 [] [] groups d))"

definition GetGatewayRouteConfig :: "svc_env \<Rightarrow> ID \<Rightarrow> db \<Rightarrow> Route list result" where
  "GetGatewayRouteConfig env gw d =
     (case GetGateway (svDB env ''get gateway'') gw d of
        Inl e \<Rightarrow> Inl (Wrapf ''get gateway'' e)
      | Inr _ \<Rightarrow>
          (case ListRoutesByGateway (svDB env ''list routes'') gw d of
             Inl e \<Rightarrow> Inl (Wrapf ''list routes by gateway'' e)
           | Inr routes \<Rightarrow> Inr routes))"

section \<open>Stored routes are valid\<close>

definition routes_valid :: "db \<Rightarrow> bool" where
  "routes_valid d \<longleftrightarrow> list_all (\<lambda>r. validateRoute r = None) (dbRoutes d)"

lemma validateRoute_cong [simp]:
  "validateRoute (r\<lparr>routeTenantID := t\<rparr>) = validateRoute r"
  "validateRoute (r\<lparr>routeStatus := s\<rparr>) = validateRoute r"
  "validateRoute (r\<lparr>routeCreatedAt := n\<rparr>) = validateRoute r"
  "validateRoute (r\<lparr>routeUpdatedAt := n\<rparr>) = validateRoute r"
  by (cases r; simp only: validateRoute_def Route.update_convs Route.select_convs)+

lemma validateRoute_defaults: "validateRoute (route_defaults now r) = validateRoute r"
  by (simp add: route_defaults_def Let_def)

lemma CreateRoute_valid:
  "routes_valid d \<Longrightarrow> validateRoute r = None \<Longrightarrow> routes_valid (snd (CreateRoute c now r d))"
  by (auto simp: CreateRoute_def routes_valid_def validateRoute_defaults Let_def split: option.split)

lemma UpdateRoute_valid:
  "routes_valid d \<Longrightarrow> validateRoute r = None \<Longrightarrow> routes_valid (snd (UpdateRoute c now r d))"
  by (auto simp: UpdateRoute_def routes_valid_def row_update_def list_all_iff Let_def split: option.split)

lemma DeleteRoute_valid: "routes_valid d \<Longrightarrow> routes_valid (snd (DeleteRoute c i d))"
  by (auto simp: DeleteRoute_def routes_valid_def row_delete_def list_all_iff split: option.split)

datatype route_op =
    OpCreateRoute CreateRouteRequest | OpUpdateRoute ID UpdateRouteRequest | OpDeleteRoute ID

fun route_op_db :: "svc_env \<Rightarrow> route_op \<Rightarrow> db \<Rightarrow> db" where
  "route_op_db env (OpCreateRoute req) d = snd (Route_CreateRoute env req d)"
| "route_op_db env (OpUpdateRoute i req) d = snd (Route_UpdateRoute env i req d)"
| "route_op_db env (OpDeleteRoute i) d = snd (Route_DeleteRoute env i d)"


section \<open>The routes of a node\<close>

definition route_assigned :: "NodeGroup \<Rightarrow> Route \<Rightarrow> bool" where
  "route_assigned g r \<longleftrightarrow> routeNodeGroupID r = Some (groupID g) \<and> routeStatus r = RouteStatusActive"

definition dial_address :: "db \<Rightarrow> ID \<Rightarrow> string \<Rightarrow> bool" where
  "dial_address d g a \<longleftrightarrow> (\<exists>gw. row_find gwID g (dbGateways d) = Some gw \<and> a = gateway_dial_address gw)"

definition route_loaded :: "db \<Rightarrow> RouteWithGateway \<Rightarrow> bool" where
  "route_loaded d c \<longleftrightarrow> dial_address d (routeGatewayID (rwgRoute c)) (rwgGatewayWGIP c)"

definition gw_cache_ok :: "db \<Rightarrow> (ID \<times> string) list \<Rightarrow> bool" where
  "gw_cache_ok d cache \<longleftrightarrow> (\<forall>(g, a)\<in>set cache. dial_address d g a)"

definition listed_routes :: "db \<Rightarrow> ID \<Rightarrow> Route set" where
  "listed_routes d t = set (page listLimit (sort_key routeName (filter (\<lambda>r. routeTenantID r = t) (dbRoutes d))))"

lemma cached_gateway_ok:
  assumes "cached_gateway env k g cache d = Inr (a, cache')" "gw_cache_ok d cache"
  shows "dial_address d g a \<and> gw_cache_ok d cache'"
  using assms
  by (auto simp: cached_gateway_def gw_cache_ok_def dial_address_def GetGateway_def
      split: option.splits sum.splits dest!: map_of_SomeD)

definition routes_run :: "svc_env \<Rightarrow> db \<Rightarrow> NodeGroup \<Rightarrow> ID list \<Rightarrow> Route list \<Rightarrow> ID list \<Rightarrow> RouteWithGateway list \<Rightarrow> bool" where
  "routes_run env d g seen rs seen' cfg \<longleftrightarrow>
     (\<exists>k cache cache'. gw_cache_ok d cache \<and> config_routes env k g seen cache rs d = Inr (seen', cache', cfg))"

lemma config_routes_cache:
  assumes "config_routes env k g seen cache rs d = Inr (seen', cache', cfg)" "gw_cache_ok d cache"
  shows "gw_cache_ok d cache'"
  using assms
  by (induction env k g seen cache rs d arbitrary: seen' cache' cfg rule: config_routes.induct)
     (fastforce split: if_splits sum.splits dest: cached_gateway_ok)+

interpretation route_config: node_config "listed_routes d" routeID route_assigned rwgRoute "route_loaded d"
  "routes_run env d"
  "\<lambda>seen gs cfg. \<exists>k cache. gw_cache_ok d cache \<and> config_route_groups env k seen cache gs d = Inr cfg"
  for env d
proof
  fix g seen items seen' cfg i
  assume run: "routes_run env d g seen (i # items) seen' cfg"
  show "routes_run env d g seen items seen' cfg"
    if "\<not> route_assigned g i \<or> routeID i \<in> set seen"
    using run that by (auto simp: routes_run_def route_assigned_def)
  show "\<exists>c cfg'. cfg = c # cfg' \<and> rwgRoute c = i \<and> route_loaded d c \<and>
      routes_run env d g (routeID i # seen) items seen' cfg'"
    if "route_assigned g i" "routeID i \<notin> set seen"
  proof -
    obtain k cache cache' where ok: "gw_cache_ok d cache"
      and loop: "config_routes env k g seen cache (i # items) d = Inr (seen', cache', cfg)"
      using run by (auto simp: routes_run_def)
    from loop that obtain a cache1 cfg' where
      gw: "cached_gateway env k (routeGatewayID i) cache d = Inr (a, cache1)"
      and rest: "config_routes env (k + 1) g (routeID i # seen) cache1 items d = Inr (seen', cache', cfg')"
      and cfg: "cfg = \<lparr>rwgRoute = i, rwgGatewayWGIP = a\<rparr> # cfg'"
      by (auto simp: route_assigned_def split: sum.splits)
    from cached_gateway_ok [OF gw ok] have "routes_run env d g (routeID i # seen) items seen' cfg'"
      "route_loaded d \<lparr>rwgRoute = i, rwgGatewayWGIP = a\<rparr>"
      using rest by (auto simp: routes_run_def route_loaded_def)
    then show ?thesis using cfg by auto
  qed
next
  fix seen g gs cfg
  assume "\<exists>k cache. gw_cache_ok d cache \<and> config_route_groups env k seen cache (g # gs) d = Inr cfg"
  then obtain k cache where ok: "gw_cache_ok d cache"
    and loop: "config_route_groups env k seen cache (g # gs) d = Inr cfg" by blast
  from loop obtain routes n seen' cache' c1 c2 where
    list: "ListRoutes (svDB env (round_label ''list routes'' k)) (groupTenantID g) listLimit d = Inr (routes, n)"
    and one: "config_routes env (k * 10000) g seen cache routes d = Inr (seen', cache', c1)"
    and rest: "config_route_groups env (k + 1) seen' cache' gs d = Inr c2" and cfg: "cfg = c1 @ c2"
    by (auto split: sum.splits)
  have "set routes = listed_routes d (groupTenantID g)"
    using list by (auto simp: ListRoutes_def sql_list_def sql_query_def listed_routes_def split: option.splits)
  moreover have "routes_run env d g seen routes seen' c1"
    using ok one by (auto simp: routes_run_def)
  moreover have "gw_cache_ok d cache'" by (rule config_routes_cache [OF one ok])
  ultimately show "\<exists>items seen' c1 c2. set items = listed_routes d (groupTenantID g) \<and>
      routes_run env d g seen items seen' c1 \<and>
      (\<exists>k cache. gw_cache_ok d cache \<and> config_route_groups env k seen' cache gs d = Inr c2) \<and> cfg = c1 @ c2"
    using rest cfg by blast
qed (auto simp: routes_run_def)

definition few_routes :: "db \<Rightarrow> bool" where
  "few_routes d \<longleftrightarrow> (\<forall>t. length (filter (\<lambda>r. routeTenantID r = t) (dbRoutes d)) \<le> 10000)"

text \<open>
  C23: the route configuration of a node has each of its routes once: exactly the active
  routes that are assigned to a group of the node and owned by the group's tenant, each
  with the overlay address of its gateway (the public one if it has no overlay address).
\<close>

theorem GetNodeRouteConfig_exact:
  assumes "GetNodeRouteConfig env nid d = Inr cfg" "few_routes d"
  shows "distinct (map (routeID \<circ> rwgRoute) cfg) \<and>
     (routeID \<circ> rwgRoute) ` set cfg =
       {routeID r |r g. r \<in> set (dbRoutes d) \<and> (g \<in> set (dbGroups d) \<and> (groupID g, nid) \<in> set (dbMembers d)) \<and>
          routeTenantID r = groupTenantID g \<and> route_assigned g r} \<and>
     list_all (route_loaded d) cfg"
proof -
  obtain gs where loop: "config_route_groups env 0 [] [] gs d = Inr cfg"
    and "ListNodeGroups_ByNode (svDB env ''list groups'') nid d = Inr gs"
    using assms(1) by (auto simp: GetNodeRouteConfig_def split: sum.splits)
  then have mem: "g \<in> set gs \<longleftrightarrow> g \<in> set (dbGroups d) \<and> (groupID g, nid) \<in> set (dbMembers d)" for g
    by (auto simp: ListNodeGroups_ByNode_def sql_query_def split: option.splits)
  have "gw_cache_ok d []" by (simp add: gw_cache_ok_def)
  then have gs: "\<exists>k cache. gw_cache_ok d cache \<and> config_route_groups env k [] cache gs d = Inr cfg"
    using loop by blast
  have "listed_routes d t = {r \<in> set (dbRoutes d). routeTenantID r = t}" for t
    using assms(2) by (force simp: listed_routes_def few_routes_def page_def listLimit_def)
  then have "routeID ` {i. \<exists>g\<in>set gs. i \<in> listed_routes d (groupTenantID g) \<and> route_assigned g i} =
      {routeID r |r g. r \<in> set (dbRoutes d) \<and> g \<in> set gs \<and> routeTenantID r = groupTenantID g \<and> route_assigned g r}"
    by blast
  then show ?thesis
    using route_config.snapshot_exact [OF gs] unfolding mem [symmetric] comp_def by simp
qed

section \<open>Sample calls\<close>

definition sample_gateway :: Gateway where
  "sample_gateway =
     \<lparr>gwID = 21, gwTenantID = 7, gwName = ''gw'', gwPublicIP = ''203.0.113.9'', gwWireGuardIP = '''',
      gwStatus = GatewayStatusOnline, gwEnrollmentToken = '''', gwLastHeartbeat = None, gwLastConfigSync = None,
      gwMetadata = '''', gwCreatedAt = 0, gwUpdatedAt = 0\<rparr>"

definition sample_route :: Route where
  "sample_route =
     \<lparr>routeID = 31, routeTenantID = 7, routeName = ''ssh'', routeProtocol = RouteProtocolTCP,
      routeEntryIP = ''198.51.100.1'', routeEntryPort = Some 22, routeGatewayID = 21,
      routeDestinationIP = ''10.0.0.5'', routeDestinationPort = Some 22, routeNodeGroupID = Some 3,
      routeStatus = RouteStatusActive, routeCreatedAt = 0, routeUpdatedAt = 0\<rparr>"

definition route_db :: db where
  "route_db = empty_db\<lparr>dbTenants := [sample_tenant], dbNodes := [sample_node 1], dbGroups := [sample_group],
     dbMembers := [(3, 1)], dbGateways := [sample_gateway], dbRoutes := [sample_route]\<rparr>"

lemma route_db_sel [simp]:
  "dbNodes route_db = [sample_node 1]" "dbGroups route_db = [sample_group]" "dbMembers route_db = [(3, 1)]"
  "dbGateways route_db = [sample_gateway]" "dbRoutes route_db = [sample_route]"
  by (simp_all add: route_db_def empty_db_def)

lemma route_db_config:
  "GetNodeRouteConfig (ok_env 0) 1 route_db = Inr [\<lparr>rwgRoute = sample_route, rwgGatewayWGIP = ''203.0.113.9''\<rparr>]"
  by (simp add: GetNodeRouteConfig_def GetNode_def sql_row_def ListNodeGroups_ByNode_def sql_query_def ok_env_def
      fk_conn_def sample_node_def sample_group_def ListRoutes_def sql_list_def page_def listLimit_def
      cached_gateway_def GetGateway_def)
     (simp add: sample_route_def sample_gateway_def gateway_dial_address_def row_find_def)

theorem GetNodeRouteConfig_exact_witness:
  "\<exists>cfg. GetNodeRouteConfig (ok_env 0) 1 route_db = Inr cfg \<and> (routeID \<circ> rwgRoute) ` set cfg = {31} \<and>
     list_all (route_loaded route_db) cfg"
  using GetNodeRouteConfig_exact [OF route_db_config] route_db_config
  by (simp add: few_routes_def) (simp add: sample_route_def)


end
