(* ===== verification/EF_CDN.thy ===== *)
theory EF_CDN
  imports EF_DNS
begin

unbundle bit_operations_syntax

text \<open>
  \<open>internal/cdn\<close>: the controller's management of CDN sites and origins, with the check that
  keeps origins out of internal networks, and the CDN configuration that nodes poll.

  Name resolution is I/O: \<open>cdnLookup\<close> gives the addresses \<open>net.LookupHost\<close> returns, \<open>None\<close>
  for an error.  \<open>cdnRules\<close> decodes the JSON text of header rules, \<open>None\<close> for a decoding
  error; an empty text stands for a nil \<open>json.RawMessage\<close>.
\<close>

section \<open>Validation of sites\<close>

record HeaderRule =
  hrAction :: string
  hrHeader :: string
  hrValue :: string

record cdn_lib =
  cdnAllowPrivate :: bool
  cdnLookup :: "string \<Rightarrow> string list option"
  cdnRules :: "string \<Rightarrow> HeaderRule list option"

text \<open>\<open>hostnameRegex\<close> of this package: no underscores, unlike the one for zones.\<close>

definition cdn_hostname_match :: "string \<Rightarrow> bool" where
  "cdn_hostname_match s = list_all (label_ok alnum) (Split (TrimSuffix s ''.'') CHR ''.'')"

definition validateDomain :: "string \<Rightarrow> error option" where
  "validateDomain hn =
     (if hn = '''' then Some (Errorf ''domain must not be empty'')
      else let clean = TrimSuffix hn ''.''
           in if length clean > 253 then Some (Errorf ''domain too long (max 253 characters)'')
              else if \<not> cdn_hostname_match clean then Some (Errorf ''not a valid hostname'')
              else None)"

fun validateDomains :: "string list \<Rightarrow> error option" where
  "validateDomains [] = None"
| "validateDomains (x # xs) =
     (case validateDomain x of Some e \<Rightarrow> Some (Wrapf ''invalid domain'' e) | None \<Rightarrow> validateDomains xs)"

definition validateTLSMode :: "TLSMode \<Rightarrow> error option" where
  "validateTLSMode mode =
     (case mode of
        TLSModeOther s \<Rightarrow>
          if s = '''' then Some (Errorf ''tls_mode is required'')
          else Some (Errorf ''invalid tls_mode (must be auto, manual, or disabled)'')
      | _ \<Rightarrow> None)"

fun header_rules_error :: "HeaderRule list \<Rightarrow> error option" where
  "header_rules_error [] = None"
| "header_rules_error (r # rs) =
     (if hrHeader r = '''' then Some (Errorf ''header is required'')
      else if hrAction r = ''add'' \<or> hrAction r = ''set''
      then (if hrValue r = '''' then Some (Errorf ''value is required for action'') else header_rules_error rs)
      else if hrAction r = ''remove'' then header_rules_error rs
      else Some (Errorf ''invalid action (must be add, set, or remove)''))"

definition validateHeaderRules :: "cdn_lib \<Rightarrow> string \<Rightarrow> error option" where
  "validateHeaderRules lib raw =
     (case cdnRules lib raw of
        None \<Rightarrow> Some (Errorf ''must be a valid JSON array'')
      | Some rules \<Rightarrow> header_rules_error rules)"

definition validateWAFMode :: "string \<Rightarrow> error option" where
  "validateWAFMode mode =
     (if mode = ''detect'' \<or> mode = ''block'' \<or> mode = '''' then None
      else Some (Errorf ''invalid waf_mode (must be detect, block, or empty)''))"

definition validateSiteUpdate :: "cdn_lib \<Rightarrow> CDNSite \<Rightarrow> error option" where
  "validateSiteUpdate lib s =
     (if siteName s = '''' then Some (Errorf ''site name is required'')
      else if length (siteName s) > 255 then Some (Errorf ''site name too long (max 255 characters)'')
      else case validateDomains (siteDomains s) of Some e \<Rightarrow> Some e | None \<Rightarrow>
           (case validateTLSMode (siteTLSMode s) of Some e \<Rightarrow> Some e | None \<Rightarrow>
             (if siteCacheTTL s < 0 then Some (Errorf ''cache_ttl must be >= 0'')
              else if (case siteRateLimitRPS s of None \<Rightarrow> False | Some n \<Rightarrow> n \<le> 0)
              then Some (Errorf ''rate_limit_rps must be > 0 when set'')
              else case (if siteHeaderRules s = '''' then None else validateHeaderRules lib (siteHeaderRules s)) of
                     Some e \<Rightarrow> Some (Wrapf ''invalid header_rules'' e)
                   | None \<Rightarrow> validateWAFMode (siteWAFMode s))))"

text \<open>The checks on creation are the same and one more: at least one domain.\<close>

definition validateSite :: "cdn_lib \<Rightarrow> CDNSite \<Rightarrow> error option" where
  "validateSite lib s =
     (if siteName s = '''' then Some (Errorf ''site name is required'')
      else if length (siteName s) > 255 then Some (Errorf ''site name too long (max 255 characters)'')
      else if siteDomains s = [] then Some (Errorf ''at least one domain is required'')
      else validateSiteUpdate lib s)"

section \<open>Validation of origins\<close>

text \<open>The predicates of \<open>net.IP\<close> that \<open>isBlockedIP\<close> uses; \<open>byte4\<close> and \<open>byte16\<close> index its bytes.\<close>

definition byte4 :: "32 word \<Rightarrow> nat \<Rightarrow> nat" where "byte4 w k = unat w div 2 ^ (8 * (3 - k)) mod 256"
definition byte16 :: "128 word \<Rightarrow> nat \<Rightarrow> nat" where "byte16 w k = unat w div 2 ^ (8 * (15 - k)) mod 256"

definition IP_Equal :: "ip \<Rightarrow> ip \<Rightarrow> bool" where
  "IP_Equal a b = (To16 a = To16 b)"

definition IsLoopback :: "ip \<Rightarrow> bool" where
  "IsLoopback a = (case To4 a of Some w \<Rightarrow> byte4 w 0 = 127 | None \<Rightarrow> IP_Equal a (IP16 1))"

definition IsLinkLocalUnicast :: "ip \<Rightarrow> bool" where
  "IsLinkLocalUnicast a =
     (case To4 a of
        Some w \<Rightarrow> byte4 w 0 = 169 \<and> byte4 w 1 = 254
      | None \<Rightarrow> byte16 (To16 a) 0 = 0xfe \<and> byte16 (To16 a) 1 AND 0xc0 = 0x80)"

definition IsLinkLocalMulticast :: "ip \<Rightarrow> bool" where
  "IsLinkLocalMulticast a =
     (case To4 a of
        Some w \<Rightarrow> byte4 w 0 = 224 \<and> byte4 w 1 = 0 \<and> byte4 w 2 = 0
      | None \<Rightarrow> byte16 (To16 a) 0 = 0xff \<and> byte16 (To16 a) 1 AND 0x0f = 0x02)"

definition IsUnspecified :: "ip \<Rightarrow> bool" where
  "IsUnspecified a = (IP_Equal a (IP4 0) \<or> IP_Equal a (IP16 0))"

definition privateRanges :: "string list" where
  "privateRanges = [''10.0.0.0/8'', ''172.16.0.0/12'', ''192.168.0.0/16'', ''fc00::/7'']"

definition metadataIPs :: "string list" where
  "metadataIPs = [''169.254.169.254'', ''fd00:ec2::254'']"

definition isBlockedIP :: "ip \<Rightarrow> bool" where
  "isBlockedIP a =
     (if IsLoopback a then True
      else if IsLinkLocalUnicast a \<or> IsLinkLocalMulticast a then True
      else if list_ex (\<lambda>cidr. case ParseCIDR cidr of Some (_, n) \<Rightarrow> net_Contains n a | None \<Rightarrow> False) privateRanges
      then True
      else if list_ex (\<lambda>m. case ParseIP m of Some b \<Rightarrow> IP_Equal a b | None \<Rightarrow> False) metadataIPs then True
      else IsUnspecified a)"

definition blockedHosts :: "string list" where
  "blockedHosts =
     [''localhost'', ''metadata.google.internal'', ''metadata.google'', ''kubernetes.default'',
      ''kubernetes.default.svc'']"

definition origin_host :: "string \<Rightarrow> string" where
  "origin_host address = (case SplitHostPort address of Some (h, _) \<Rightarrow> h | None \<Rightarrow> address)"

text \<open>The addresses that are checked; \<open>None\<close> when the host neither resolves nor is an address.\<close>

definition origin_ips :: "cdn_lib \<Rightarrow> string \<Rightarrow> string list option" where
  "origin_ips lib host =
     (case cdnLookup lib host of
        Some ips \<Rightarrow> Some ips
      | None \<Rightarrow> (case ParseIP host of None \<Rightarrow> None | Some a \<Rightarrow> Some [IP_String (Some a)]))"

definition validateOriginAddress :: "cdn_lib \<Rightarrow> string \<Rightarrow> error option" where
  "validateOriginAddress lib address =
     (let host = origin_host address; lower = ToLower host
      in if list_ex (\<lambda>b. lower = b \<or> HasSuffix lower (''.'' @ b)) blockedHosts
         then Some (Errorf ''origin address resolves to a blocked internal host'')
         else case origin_ips lib host of
                None \<Rightarrow> Some (Errorf ''cannot resolve origin address'')
              | Some ips \<Rightarrow>
                  if list_ex (\<lambda>s. case ParseIP s of None \<Rightarrow> False | Some a \<Rightarrow> isBlockedIP a) ips
                  then Some (Errorf ''origin address resolves to blocked IP (private/internal network)'')
                  else None)"

definition validateOriginScheme :: "CDNOriginScheme \<Rightarrow> error option" where
  "validateOriginScheme scheme =
     (case scheme of
        CDNOriginSchemeOther s \<Rightarrow>
          if s = '''' then Some (Errorf ''origin scheme is required'')
          else Some (Errorf ''invalid origin scheme (must be http or https)'')
      | _ \<Rightarrow> None)"

definition validateOrigin :: "cdn_lib \<Rightarrow> CDNOrigin \<Rightarrow> error option" where
  "validateOrigin lib a =
     (if originAddress a = '''' then Some (Errorf ''origin address is required'')
      else case (if cdnAllowPrivate lib then None else validateOriginAddress lib (originAddress a)) of
             Some e \<Rightarrow> Some (Wrapf ''origin address'' e)
           | None \<Rightarrow>
               (case validateOriginScheme (originScheme a) of
                  Some e \<Rightarrow> Some e
                | None \<Rightarrow>
                    if originWeight a < 1 then Some (Errorf ''origin weight must be >= 1'')
                    else if originHealthCheckPath a \<noteq> '''' \<and> \<not> HasPrefix (originHealthCheckPath a) ''/''
                    then Some (Errorf ''health_check_path must start with /'')
                    else if (case originHealthCheckInterval a of None \<Rightarrow> False | Some n \<Rightarrow> n < 5)
                    then Some (Errorf ''health_check_interval must be >= 5 seconds when set'')
                    else None))"

section \<open>Sites and origins\<close>

record CreateSiteRequest =
  csTenantID :: ID
  csName :: string
  csDomains :: "string list"
  csTLSMode :: TLSMode
  csCacheEnabled :: bool
  csCacheTTL :: int
  csCompressionEnabled :: bool
  csRateLimitRPS :: "int option"
  csNodeGroupID :: "ID option"
  csHeaderRules :: string
  csWAFEnabled :: bool
  csWAFMode :: string

record UpdateSiteRequest =
  usName :: "string option"
  usDomains :: "string list option"
  usTLSMode :: "TLSMode option"
  usCacheEnabled :: "bool option"
  usCacheTTL :: "int option"
  usCompressionEnabled :: "bool option"
  usRateLimitRPS :: "int option"
  usNodeGroupID :: "ID option"
  usHeaderRules :: string
  usWAFEnabled :: "bool option"
  usWAFMode :: "string option"
  usStatus :: "CDNSiteStatus option"
  usClearNodeGroup :: bool
  usClearRateLimit :: bool

record CreateOriginRequest =
  coSiteID :: ID
  coAddress :: string
  coScheme :: CDNOriginScheme
  coWeight :: int
  coHealthCheckPath :: string
  coHealthCheckInterval :: "int option"

record UpdateOriginRequest =
  uoAddress :: "string option"
  uoScheme :: "CDNOriginScheme option"
  uoWeight :: "int option"
  uoHealthCheckPath :: "string option"
  uoHealthCheckInterval :: "int option"
  uoStatus :: "CDNOriginStatus option"

definition request_site :: "ID \<Rightarrow> CreateSiteRequest \<Rightarrow> CDNSite" where
  "request_site i req =
     \<lparr>siteID = i, siteTenantID = csTenantID req, siteName = csName req, siteDomains = csDomains req,
      siteTLSMode = csTLSMode req, siteTLSCertID = None, siteCacheEnabled = csCacheEnabled req,
      siteCacheTTL = csCacheTTL req, siteCompressionEnabled = csCompressionEnabled req,
      siteRateLimitRPS = csRateLimitRPS req, siteNodeGroupID = csNodeGroupID req,
      siteHeaderRules = csHeaderRules req, siteWAFEnabled = csWAFEnabled req, siteWAFMode = csWAFMode req,
      siteStatus = CDNSiteStatusOther '''', siteCreatedAt = 0, siteUpdatedAt = 0\<rparr>"

definition CreateSite :: "svc_env \<Rightarrow> cdn_lib \<Rightarrow> CreateSiteRequest \<Rightarrow> db \<Rightarrow> CDNSite dbres" where
  "CreateSite env lib req d =
     (let s = request_site (svNewID env) req
      in case validateSite lib s of
           Some e \<Rightarrow> (Inl (Wrapf ''invalid site'' e), d)
         | None \<Rightarrow> wrap ''create site'' (CreateCDNSite (svDB env ''create'') (svNow env) s d))"

definition GetSite :: "svc_env \<Rightarrow> ID \<Rightarrow> db \<Rightarrow> CDNSite result" where
  "GetSite env i d = GetCDNSite (svDB env ''get'') i d"

definition ListSites :: "svc_env \<Rightarrow> ID \<Rightarrow> ListParams \<Rightarrow> db \<Rightarrow> (CDNSite list \<times> int) result" where
  "ListSites env tenant p d = ListCDNSites (svDB env ''list'') tenant p d"

definition update_site_fields :: "UpdateSiteRequest \<Rightarrow> CDNSite \<Rightarrow> CDNSite" where
  "update_site_fields req s =
     (let s = (case usName req of None \<Rightarrow> s | Some x \<Rightarrow> s\<lparr>siteName := x\<rparr>);
          s = (case usDomains req of None \<Rightarrow> s | Some x \<Rightarrow> s\<lparr>siteDomains := x\<rparr>);
          s = (case usTLSMode req of None \<Rightarrow> s | Some x \<Rightarrow> s\<lparr>siteTLSMode := x\<rparr>);
          s = (case usCacheEnabled req of None \<Rightarrow> s | Some x \<Rightarrow> s\<lparr>siteCacheEnabled := x\<rparr>);
          s = (case usCacheTTL req of None \<Rightarrow> s | Some x \<Rightarrow> s\<lparr>siteCacheTTL := x\<rparr>);
          s = (case usCompressionEnabled req of None \<Rightarrow> s | Some x \<Rightarrow> s\<lparr>siteCompressionEnabled := x\<rparr>);
          s = (if usClearRateLimit req then s\<lparr>siteRateLimitRPS := None\<rparr>
               else case usRateLimitRPS req of None \<Rightarrow> s | Some x \<Rightarrow> s\<lparr>siteRateLimitRPS := Some x\<rparr>);
          s = (if usClearNodeGroup req then s\<lparr>siteNodeGroupID := None\<rparr>
               else case usNodeGroupID req of None \<Rightarrow> s | Some x \<Rightarrow> s\<lparr>siteNodeGroupID := Some x\<rparr>);
          s = (if usHeaderRules req = '''' then s else s\<lparr>siteHeaderRules := usHeaderRules req\<rparr>);
          s = (case usWAFEnabled req of None \<Rightarrow> s | Some x \<Rightarrow> s\<lparr>siteWAFEnabled := x\<rparr>);
          s = (case usWAFMode req of None \<Rightarrow> s | Some x \<Rightarrow> s\<lparr>siteWAFMode := x\<rparr>)
      in case usStatus req of None \<Rightarrow> s | Some x \<Rightarrow> s\<lparr>siteStatus := x\<rparr>)"

definition UpdateSite :: "svc_env \<Rightarrow> cdn_lib \<Rightarrow> ID \<Rightarrow> UpdateSiteRequest \<Rightarrow> db \<Rightarrow> CDNSite dbres" where
  "UpdateSite env lib i req d =
     (case GetCDNSite (svDB env ''get'') i d of
        Inl e \<Rightarrow> (Inl e, d)
      | Inr s \<Rightarrow>
          (let s = update_site_fields req s
           in case validateSiteUpdate lib s of
                Some e \<Rightarrow> (Inl (Wrapf ''invalid site'' e), d)
              | None \<Rightarrow> wrap ''update site'' (UpdateCDNSite (svDB env ''update'') (svNow env) s d)))"

definition DeleteSite :: "svc_env \<Rightarrow> ID \<Rightarrow> db \<Rightarrow> unit dbres" where
  "DeleteSite env i d = DeleteCDNSite (svDB env ''delete'') i d"

definition request_origin :: "ID \<Rightarrow> CreateOriginRequest \<Rightarrow> CDNOrigin" where
  "request_origin i req =
     \<lparr>originID = i, originSiteID = coSiteID req, originAddress = coAddress req, originScheme = coScheme req,
      originWeight = (if coWeight req = 0 then 1 else coWeight req), originHealthCheckPath = coHealthCheckPath req,
      originHealthCheckInterval = coHealthCheckInterval req, originStatus = CDNOriginStatusOther '''',
      originCreatedAt = 0, originUpdatedAt = 0\<rparr>"

definition CreateOrigin :: "svc_env \<Rightarrow> cdn_lib \<Rightarrow> CreateOriginRequest \<Rightarrow> db \<Rightarrow> CDNOrigin dbres" where
  "CreateOrigin env lib req d =
     (case GetCDNSite (svDB env ''get site'') (coSiteID req) d of
        Inl e \<Rightarrow> (Inl (Wrapf ''site lookup'' e), d)
      | Inr _ \<Rightarrow>
          (let a = request_origin (svNewID env) req
           in case validateOrigin lib a of
                Some e \<Rightarrow> (Inl (Wrapf ''invalid origin'' e), d)
              | None \<Rightarrow> wrap ''create origin'' (CreateCDNOrigin (svDB env ''create'') (svNow env) a d)))"

definition GetOrigin :: "svc_env \<Rightarrow> ID \<Rightarrow> db \<Rightarrow> CDNOrigin result" where
  "GetOrigin env i d = GetCDNOrigin (svDB env ''get'') i d"

definition ListOrigins :: "svc_env \<Rightarrow> ID \<Rightarrow> ListParams \<Rightarrow> db \<Rightarrow> (CDNOrigin list \<times> int) result" where
  "ListOrigins env site p d = ListCDNOrigins (svDB env ''list'') site p d"

definition update_origin_fields :: "UpdateOriginRequest \<Rightarrow> CDNOrigin \<Rightarrow> CDNOrigin" where
  "update_origin_fields req a =
     (let a = (case uoAddress req of None \<Rightarrow> a | Some x \<Rightarrow> a\<lparr>originAddress := x\<rparr>);
          a = (case uoScheme req of None \<Rightarrow> a | Some x \<Rightarrow> a\<lparr>originScheme := x\<rparr>);
          a = (case uoWeight req of None \<Rightarrow> a | Some x \<Rightarrow> a\<lparr>originWeight := x\<rparr>);
          a = (case uoHealthCheckPath req of None \<Rightarrow> a | Some x \<Rightarrow> a\<lparr>originHealthCheckPath := x\<rparr>);
          a = (case uoHealthCheckInterval req of None \<Rightarrow> a | Some x \<Rightarrow> a\<lparr>originHealthCheckInterval := Some x\<rparr>)
      in case uoStatus req of None \<Rightarrow> a | Some x \<Rightarrow> a\<lparr>originStatus := x\<rparr>)"

definition UpdateOrigin :: "svc_env \<Rightarrow> cdn_lib \<Rightarrow> ID \<Rightarrow> UpdateOriginRequest \<Rightarrow> db \<Rightarrow> CDNOrigin dbres" where
  "UpdateOrigin env lib i req d =
     (case GetCDNOrigin (svDB env ''get'') i d of
        Inl e \<Rightarrow> (Inl e, d)
      | Inr a \<Rightarrow>
          (let a = update_origin_fields req a
           in case validateOrigin lib a of
                Some e \<Rightarrow> (Inl (Wrapf ''invalid origin'' e), d)
              | None \<Rightarrow> wrap ''update origin'' (UpdateCDNOrigin (svDB env ''update'') (svNow env) a d)))"

definition DeleteOrigin :: "svc_env \<Rightarrow> ID \<Rightarrow> db \<Rightarrow> unit dbres" where
  "DeleteOrigin env i d = DeleteCDNOrigin (svDB env ''delete'') i d"

text \<open>A purge only checks that the site exists: nothing is stored or sent to a node.\<close>

definition PurgeSiteCache :: "svc_env \<Rightarrow> ID \<Rightarrow> db \<Rightarrow> unit result" where
  "PurgeSiteCache env i d =
     (case GetCDNSite (svDB env ''get'') i d of
        Inl e \<Rightarrow> Inl (Wrapf ''site lookup'' e)
      | Inr _ \<Rightarrow> Inr ())"

section \<open>The configuration of a node\<close>

record SiteWithOrigins =
  swoSite :: CDNSite
  swoOrigins :: "CDNOrigin list"

fun config_sites ::
    "svc_env \<Rightarrow> nat \<Rightarrow> NodeGroup \<Rightarrow> ID list \<Rightarrow> CDNSite list \<Rightarrow> db \<Rightarrow> (ID list \<times> SiteWithOrigins list) result" where
  "config_sites env k g seen [] d = Inr (seen, [])"
| "config_sites env k g seen (s # ss) d =
     (if siteNodeGroupID s \<noteq> Some (groupID g) \<or> siteStatus s \<noteq> CDNSiteActive \<or> siteID s \<in> set seen
      then config_sites env (k + 1) g seen ss d
      else (case ListCDNOrigins (svDB env (round_label ''list origins'' k)) (siteID s) listLimit d of
              Inl e \<Rightarrow> Inl (Wrapf ''list origins for site'' e)
            | Inr (origins, _) \<Rightarrow>
                (case config_sites env (k + 1) g (siteID s # seen) ss d of
                   Inl e \<Rightarrow> Inl e
                 | Inr (seen', cfg) \<Rightarrow> Inr (seen', \<lparr>swoSite = s, swoOrigins = origins\<rparr> # cfg))))"

fun config_site_groups ::
    "svc_env \<Rightarrow> nat \<Rightarrow> ID list \<Rightarrow> NodeGroup list \<Rightarrow> db \<Rightarrow> SiteWithOrigins list result" where
  "config_site_groups env k seen [] d = Inr []"
| "config_site_groups env k seen (g # gs) d =
     (case ListCDNSites (svDB env (round_label ''list sites'' k)) (groupTenantID g) listLimit d of
        Inl e \<Rightarrow> Inl (Wrapf ''list sites for group'' e)
      | Inr (sites, _) \<Rightarrow>
          (case config_sites env (k * 10000) g seen sites d of
             Inl e \<Rightarrow> Inl e
           | Inr (seen', cfg) \<Rightarrow>
               (case config_site_groups env (k + 1) seen' gs d of
                  Inl e \<Rightarrow> Inl e
                | Inr cfg' \<Rightarrow> Inr (cfg @ cfg'))))"

definition GetNodeCDNConfig :: "svc_env \<Rightarrow> ID \<Rightarrow> db \<Rightarrow> SiteWithOrigins list result" where
  "GetNodeCDNConfig env nid d =
     (case GetNode (svDB env ''get node'') nid d of
        Inl e \<Rightarrow> Inl (Wrapf ''get node'' e)
      | Inr _ \<Rightarrow>
          (case ListNodeGroups_ByNode (svDB env ''list groups'') nid d of
             Inl e \<Rightarrow> Inl (Wrapf ''list node groups'' e)
           | Inr groups \<Rightarrow> config_site_groups env 0 [] groups d))"

section \<open>Internal addresses\<close>

text \<open>
  The networks an origin must stay out of, by the number of the address: this host
  (0.0.0.0), 10.0.0.0/8, 127.0.0.0/8, 172.16.0.0/12, 169.254.0.0/16, 192.168.0.0/16 and
  224.0.0.0/24; for IPv6 the unspecified address, the loopback address, fe80::/10,
  fc00::/7 and the link-local multicast addresses.
\<close>

definition internal_v4 :: "nat \<Rightarrow> bool" where
  "internal_v4 n \<longleftrightarrow> n = 0 \<or> n div 2 ^ 24 = 10 \<or> n div 2 ^ 24 = 127 \<or> n div 2 ^ 20 = 2753 \<or>
     n div 2 ^ 16 = 43518 \<or> n div 2 ^ 16 = 49320 \<or> n div 2 ^ 8 = 14680064"

definition internal_v6 :: "nat \<Rightarrow> bool" where
  "internal_v6 n \<longleftrightarrow> n = 0 \<or> n = 1 \<or> n div 2 ^ 118 = 1018 \<or> n div 2 ^ 121 = 126 \<or>
     n div 2 ^ 120 = 255 \<and> n div 2 ^ 112 mod 16 = 2"

definition internal_ip :: "ip \<Rightarrow> bool" where
  "internal_ip a = (case To4 a of Some w \<Rightarrow> internal_v4 (unat w) | None \<Rightarrow> internal_v6 (unat (To16 a)))"

lemma unat_and_mask32_eq:
  "w AND mask32 n = x AND mask32 n \<longleftrightarrow> unat w div 2 ^ (32 - n) = unat x div 2 ^ (32 - n)"
  by (simp add: word_unat_eq_iff mask32_def unat_and_not_mask)

lemma unat_and_mask128_eq:
  "w AND mask128 n = x AND mask128 n \<longleftrightarrow> unat w div 2 ^ (128 - n) = unat x div 2 ^ (128 - n)"
  by (simp add: word_unat_eq_iff mask128_def unat_and_not_mask)

lemma ucast_v4_mapped: "ucast (v4_mapped w) = w"
  using To4_v4_mapped [of w] by (simp split: if_splits)

lemma private_networks:
  "ParseCIDR ''10.0.0.0/8'' = Some (IP16 (v4_mapped 0x0A000000), net4 0x0A000000 8)"
  "ParseCIDR ''172.16.0.0/12'' = Some (IP16 (v4_mapped 0xAC100000), net4 0xAC100000 12)"
  "ParseCIDR ''192.168.0.0/16'' = Some (IP16 (v4_mapped 0xC0A80000), net4 0xC0A80000 16)"
  by (simp_all add: ParseCIDR_def ParseAddr_def dtoi_all_def net4_def parseIPv4_def parse_octet_def
      word_of_octets_def is_digit_def dec_val_def digit_val_def ucast_v4_mapped)

lemma parse_fc00:
  "ParseCIDR ''fc00::/7'' =
     Some (IP16 0xfc000000000000000000000000000000,
           \<lparr>netIP = IP16 (0xfc000000000000000000000000000000 AND mask128 7), netOnes = 7, netBits = 128\<rparr>)"
proof -
  have h: "hex_run ''fc00::'' = (''fc00'', ''::'')" "hex_num ''fc00'' = 0xfc00"
    by (simp_all add: hex_run_def hex_num_def hex_val_def)
  have "parse_groups [] None ''fc00::'' = Some ([0xfc00], Some 1)"
    by (subst parse_groups.simps) (simp add: h)
  moreover have "replicate 7 (0::nat) = [0, 0, 0, 0, 0, 0, 0]" by (simp add: numeral_eq_Suc)
  ultimately have "parseIPv6 ''fc00::'' = Some 0xfc000000000000000000000000000000"
    by (simp add: parseIPv6_def HasPrefix_def expand_groups_def groups_word_def)
  moreover have "dtoi_all ''7'' = Some 7"
    by (simp add: dtoi_all_def is_digit_def dec_val_def digit_val_def)
  ultimately show ?thesis by (simp add: ParseCIDR_def ParseAddr_def)
qed

lemma parse_metadata:
  "ParseIP ''169.254.169.254'' = Some (IP16 (v4_mapped 0xA9FEA9FE))"
  "ParseIP ''fd00:ec2::254'' = Some (IP16 0xfd000ec2000000000000000000000254)"
proof -
  have h: "hex_run ''fd00:ec2::254'' = (''fd00'', '':ec2::254'')" "hex_num ''fd00'' = 0xfd00"
    "hex_run ''ec2::254'' = (''ec2'', ''::254'')" "hex_num ''ec2'' = 0xec2"
    "hex_run ''254'' = (''254'', '''')" "hex_num ''254'' = 0x254"
    by (simp_all add: hex_run_def hex_num_def hex_val_def)
  have "parse_groups [] None ''fd00:ec2::254'' = Some ([0xfd00, 0xec2, 0x254], Some 2)"
    by (subst parse_groups.simps, simp add: h)+
  moreover have "replicate 5 (0::nat) = [0, 0, 0, 0, 0]" by (simp add: numeral_eq_Suc)
  ultimately have "parseIPv6 ''fd00:ec2::254'' = Some 0xfd000ec2000000000000000000000254"
    by (simp add: parseIPv6_def HasPrefix_def expand_groups_def groups_word_def)
  then show "ParseIP ''fd00:ec2::254'' = Some (IP16 0xfd000ec2000000000000000000000254)"
    by (simp add: ParseIP_def ParseAddr_def)
  show "ParseIP ''169.254.169.254'' = Some (IP16 (v4_mapped 0xA9FEA9FE))"
    by (simp add: ParseIP_def ParseAddr_def parseIPv4_def parse_octet_def word_of_octets_def
        is_digit_def dec_val_def digit_val_def)
qed

lemma and_192: "b < 256 \<Longrightarrow> b AND 192 = 128 \<longleftrightarrow> b div 64 = 2" for b :: nat
proof -
  assume "b < 256"
  then have b: "take_bit 8 b = b" by (simp add: take_bit_eq_mod)
  have m: "(192 :: nat) = push_bit 6 (mask 2)" by (simp add: mask_eq_exp_minus_1 push_bit_eq_mult)
  have "take_bit 8 b AND push_bit 6 (mask 2) = push_bit 6 (drop_bit 6 (take_bit 8 b))"
    by (rule bit_eqI)
       (auto simp: bit_and_iff bit_push_bit_iff bit_mask_iff bit_drop_bit_eq bit_take_bit_iff)
  then have "b AND 192 = push_bit 6 (drop_bit 6 (take_bit 8 b))" unfolding m b .
  also have "\<dots> = 64 * (b div 64)" by (simp add: b push_bit_eq_mult drop_bit_eq_div)
  finally show "b AND 192 = 128 \<longleftrightarrow> b div 64 = 2" by simp
qed

lemma and_15: "b AND 15 = b mod 16" for b :: nat
  using take_bit_eq_mask [of 4 b] by (simp add: take_bit_eq_mod mask_eq_exp_minus_1)

lemma two_bytes: "n div 2 ^ (h + 8) mod 256 = x \<and> n div 2 ^ h mod 256 = y \<longleftrightarrow>
    n div 2 ^ h mod 65536 = 256 * x + y \<and> x < 256 \<and> y < 256" for n :: nat
proof -
  define q where "q = n div 2 ^ h"
  have "n div 2 ^ (h + 8) = q div 256" by (simp add: q_def power_add div_mult2_eq)
  moreover have "q mod 65536 = 256 * (q div 256 mod 256) + q mod 256"
    using mod_mult2_eq [of q 256 256] by simp
  moreover have "a = x \<and> b = y \<longleftrightarrow> 256 * a + b = 256 * x + y \<and> x < 256 \<and> y < 256"
    if "a < 256" "b < 256" for a b :: nat
  proof -
    have "(256 * k + l) div 256 = k \<and> (256 * k + l) mod 256 = l" if "l < 256" for k l :: nat
      using that by simp
    then show ?thesis using that by metis
  qed
  ultimately show ?thesis unfolding q_def [symmetric] by simp
qed

lemma unat_div_32: "unat (w :: 32 word) div 2 ^ 24 < 256" "unat w div 2 ^ 16 < 65536" "unat w div 2 ^ 8 < 16777216"
  using unat_less_32 [of w] by (simp_all add: less_mult_imp_div_less)

lemma unat_div_128: "unat (w :: 128 word) div 2 ^ 120 < 256" "unat w div 2 ^ 112 < 65536"
  using unsigned_less [of w, where ?'a = nat] by (simp_all add: less_mult_imp_div_less)

lemma contains_net4:
  "net_Contains (net4 b n) a \<longleftrightarrow>
     (case To4 a of Some w \<Rightarrow> unat b div 2 ^ (32 - n) = unat w div 2 ^ (32 - n) | None \<Rightarrow> False)"
  by (simp add: net_Contains_def net4_def net_mask32_def and.assoc unat_and_mask32_eq split: option.split)

lemma contains_fc00:
  "net_Contains \<lparr>netIP = IP16 (0xfc000000000000000000000000000000 AND mask128 7), netOnes = 7, netBits = 128\<rparr> a \<longleftrightarrow>
     (case To4 a of Some _ \<Rightarrow> False | None \<Rightarrow> unat (To16 a) div 2 ^ 121 = 126)"
proof -
  have m: "(0xfc000000000000000000000000000000 AND mask128 7 :: 128 word) = 0xfc000000000000000000000000000000"
    by (simp add: word_unat_eq_iff mask128_def unat_and_not_mask)
  have "To4 (IP16 (0xfc000000000000000000000000000000 AND mask128 7)) = None"
    unfolding m by (simp add: word_unat_eq_iff unat_drop_bit_eq drop_bit_eq_div)
  then show ?thesis
    by (simp add: net_Contains_def and.assoc unat_and_mask128_eq del: To4.simps split: option.split)
qed

lemma To4_SomeD: "To4 a = Some w \<Longrightarrow> To16 a = v4_mapped w"
proof (cases a)
  case (IP16 x)
  assume "To4 a = Some w"
  then have hi: "drop_bit 32 x = 0xffff" and w: "w = ucast x" by (auto simp: IP16 split: if_splits)
  have "x = push_bit 32 (drop_bit 32 x) OR take_bit 32 x"
    by (rule bit_word_eqI) (auto simp: bit_or_iff bit_push_bit_iff bit_drop_bit_eq bit_take_bit_iff)
  moreover have "take_bit 32 x = ucast w"
    by (rule bit_word_eqI) (auto simp: w bit_take_bit_iff bit_ucast_iff)
  ultimately show "To16 a = v4_mapped w" by (simp add: IP16 hi v4_mapped_def)
qed simp

lemma To4_constants: "To4 (IP16 0) = None" "To4 (IP16 0xfd000ec2000000000000000000000254) = None"
  by (simp_all add: word_unat_eq_iff unat_drop_bit_eq drop_bit_eq_div)

lemma list_ex_code:
  "list_ex P [] = False" "list_ex P (x # xs) = (P x \<or> list_ex P xs)"
  by simp_all

lemma blocked_v4:
  assumes "To4 a = Some w"
  shows "isBlockedIP a \<longleftrightarrow> internal_v4 (unat w)"
proof -
  let ?n = "unat w"
  note size = unat_div_32 [of w]
  have b: "byte4 w 0 = ?n div 2 ^ 24" using size(1) by (simp add: byte4_def)
  have bb: "byte4 w 0 = x \<and> byte4 w 1 = y \<longleftrightarrow> ?n div 2 ^ 16 = 256 * x + y \<and> x < 256 \<and> y < 256" for x y
    using two_bytes [of ?n 16 x y] size(2) by (simp add: byte4_def)
  have bbb: "byte4 w 0 = 224 \<and> byte4 w 1 = 0 \<and> byte4 w 2 = 0 \<longleftrightarrow> ?n div 2 ^ 8 = 14680064"
  proof -
    have "?n div 2 ^ 8 = 14680064 \<longleftrightarrow> ?n div 2 ^ 16 = 57344 \<and> ?n div 2 ^ 8 mod 256 = 0"
    proof -
      have "?n div 2 ^ 16 = ?n div 2 ^ 8 div 256" by (simp flip: div_mult2_eq)
      then show ?thesis by auto
    qed
    then show ?thesis using bb [of 224 0] by (auto simp: byte4_def)
  qed
  have eq: "IP_Equal a (IP4 0) \<longleftrightarrow> ?n = 0" "\<not> IP_Equal a (IP16 0)"
    "IP_Equal a (IP16 (v4_mapped 0xA9FEA9FE)) \<Longrightarrow> ?n div 2 ^ 16 = 43518"
    "\<not> IP_Equal a (IP16 0xfd000ec2000000000000000000000254)"
  proof -
    have inj: "v4_mapped x = v4_mapped y \<longleftrightarrow> x = y" for x y
      using ucast_v4_mapped by metis
    have to16: "To16 a = v4_mapped w" by (rule To4_SomeD [OF assms])
    show "IP_Equal a (IP4 0) \<longleftrightarrow> ?n = 0"
      by (simp add: IP_Equal_def to16 inj unat_eq_zero)
    have no: "To16 a \<noteq> x" if "To4 (IP16 x) = None" for x
      using that To4_v4_mapped [of w] to16 by auto
    show "\<not> IP_Equal a (IP16 0)" "\<not> IP_Equal a (IP16 0xfd000ec2000000000000000000000254)"
      using no [OF To4_constants(1)] no [OF To4_constants(2)] by (simp_all add: IP_Equal_def)
    show "IP_Equal a (IP16 (v4_mapped 0xA9FEA9FE)) \<Longrightarrow> ?n div 2 ^ 16 = 43518"
      by (simp add: IP_Equal_def to16 inj)
  qed
  show ?thesis
    unfolding isBlockedIP_def IsLoopback_def IsLinkLocalUnicast_def IsLinkLocalMulticast_def IsUnspecified_def
      privateRanges_def metadataIPs_def internal_v4_def list_ex_code private_networks parse_fc00 parse_metadata
      prod.case option.case contains_net4 contains_fc00 assms
    using b bb [of 169 254] bbb eq by auto
qed

lemma split_byte:
  "q div 64 = 4 * (q div 256) + q mod 256 div 64" "q div 512 = q div 256 div 2" for q :: nat
proof -
  have "(64 * (4 * (q div 256)) + q mod 256) div 64 = 4 * (q div 256) + q mod 256 div 64"
    by (simp only: div_mult_self4 div_mult_self2 zero_neq_numeral [symmetric] not_False_eq_True)
  then show "q div 64 = 4 * (q div 256) + q mod 256 div 64" by simp
  show "q div 512 = q div 256 div 2" by (simp flip: div_mult2_eq)
qed

lemma blocked_v6:
  assumes "To4 a = None"
  shows "isBlockedIP a \<longleftrightarrow> internal_v6 (unat (To16 a))"
proof -
  let ?n = "unat (To16 a)"
  define q where "q = ?n div 2 ^ 112"
  have q: "q < 65536" "?n div 2 ^ 120 = q div 256" "?n div 2 ^ 118 = q div 64" "?n div 2 ^ 121 = q div 512"
    using unat_div_128(2) [of "To16 a"] by (simp_all add: q_def flip: div_mult2_eq)
  have bytes: "byte16 (To16 a) 0 = q div 256" "byte16 (To16 a) 1 = q mod 256"
    using q(1,2) by (simp_all add: byte16_def less_mult_imp_div_less) (simp add: q_def)
  have llu: "q div 256 = 254 \<and> q mod 256 AND 192 = 128 \<longleftrightarrow> q div 64 = 1018"
  proof -
    have "4 * x + z = 1018 \<longleftrightarrow> x = 254 \<and> z = 2" if "z < 4" for x z :: nat
      using that by presburger
    from this [of "q mod 256 div 64" "q div 256"] show ?thesis
      using and_192 [of "q mod 256"] split_byte(1) [of q] by (simp add: less_mult_imp_div_less)
  qed
  have llm: "q mod 256 AND 15 = q mod 16" by (simp add: and_15 mod_mod_cancel)
  have "To16 a \<noteq> v4_mapped w" for w
    using assms To4_v4_mapped [of w] by (cases a) auto
  then have eq: "\<not> IP_Equal a (IP4 0)" "\<not> IP_Equal a (IP16 (v4_mapped 0xA9FEA9FE))"
    by (simp_all add: IP_Equal_def)
  have eq': "IP_Equal a (IP16 0) \<longleftrightarrow> ?n = 0" "IP_Equal a (IP16 1) \<longleftrightarrow> ?n = 1"
    using word_unat_eq_iff [of "To16 a" 0] word_unat_eq_iff [of "To16 a" 1] by (simp_all add: IP_Equal_def)
  have meta: "?n div 2 ^ 121 = 126" if "IP_Equal a (IP16 0xfd000ec2000000000000000000000254)"
    using that by (simp add: IP_Equal_def)
  show ?thesis
    unfolding isBlockedIP_def IsLoopback_def IsLinkLocalUnicast_def IsLinkLocalMulticast_def IsUnspecified_def
      privateRanges_def metadataIPs_def internal_v6_def list_ex_code private_networks parse_fc00 parse_metadata
      prod.case option.case contains_net4 contains_fc00 assms bytes llm q(2,3) q_def [symmetric] eq'
    using llu eq meta by argo
qed

lemma isBlockedIP_iff: "isBlockedIP a \<longleftrightarrow> internal_ip a"
  by (cases "To4 a") (simp_all add: internal_ip_def blocked_v4 blocked_v6)

lemma validateOrigin_public:
  assumes "validateOrigin lib a = None" "\<not> cdnAllowPrivate lib"
  shows "\<exists>ips. origin_ips lib (origin_host (originAddress a)) = Some ips \<and>
     (\<forall>s\<in>set ips. \<forall>b. ParseIP s = Some b \<longrightarrow> \<not> internal_ip b)"
  using assms
  by (auto simp: validateOrigin_def validateOriginAddress_def Let_def isBlockedIP_iff list_ex_iff
      split: option.splits if_splits)


section \<open>The sites of a node\<close>

definition site_assigned :: "NodeGroup \<Rightarrow> CDNSite \<Rightarrow> bool" where
  "site_assigned g s \<longleftrightarrow> siteNodeGroupID s = Some (groupID g) \<and> siteStatus s = CDNSiteActive"

definition listed_sites :: "db \<Rightarrow> ID \<Rightarrow> CDNSite set" where
  "listed_sites d t =
     set (page listLimit (map loadCDNSiteDomains (sort_key siteName (filter (\<lambda>s. siteTenantID s = t) (dbSites d)))))"

definition listed_origins :: "db \<Rightarrow> SiteWithOrigins \<Rightarrow> bool" where
  "listed_origins d c \<longleftrightarrow> swoOrigins c = page listLimit
     (sort_key originAddress (filter (\<lambda>a. originSiteID a = siteID (swoSite c)) (dbOrigins d)))"

lemma ListCDNSites_listed: "ListCDNSites c t listLimit d = Inr (ss, k) \<Longrightarrow> set ss = listed_sites d t"
  by (auto simp: ListCDNSites_def sql_list_def sql_query_def listed_sites_def split: option.splits)

lemma ListCDNOrigins_listed:
  "ListCDNOrigins c (siteID s) listLimit d = Inr (os, k) \<Longrightarrow> listed_origins d \<lparr>swoSite = s, swoOrigins = os\<rparr>"
  by (auto simp: ListCDNOrigins_def sql_list_def sql_query_def listed_origins_def split: option.splits)

interpretation cdn_config: node_config "listed_sites d" siteID site_assigned swoSite "listed_origins d"
  "\<lambda>g seen items seen' cfg. \<exists>k. config_sites env k g seen items d = Inr (seen', cfg)"
  "\<lambda>seen gs cfg. \<exists>k. config_site_groups env k seen gs d = Inr cfg"
  for env d
proof
  fix g seen items seen' cfg i
  assume run: "\<exists>k. config_sites env k g seen (i # items) d = Inr (seen', cfg)"
  show "\<exists>k. config_sites env k g seen items d = Inr (seen', cfg)"
    if "\<not> site_assigned g i \<or> siteID i \<in> set seen"
    using run that by (auto simp: site_assigned_def)
  show "\<exists>c cfg'. cfg = c # cfg' \<and> swoSite c = i \<and> listed_origins d c \<and>
      (\<exists>k. config_sites env k g (siteID i # seen) items d = Inr (seen', cfg'))"
    if "site_assigned g i" "siteID i \<notin> set seen"
    using run that ListCDNOrigins_listed by (fastforce simp: site_assigned_def split: sum.splits)
next
  fix seen g gs cfg
  assume "\<exists>k. config_site_groups env k seen (g # gs) d = Inr cfg"
  then show "\<exists>items seen' c1 c2. set items = listed_sites d (groupTenantID g) \<and>
      (\<exists>k. config_sites env k g seen items d = Inr (seen', c1)) \<and>
      (\<exists>k. config_site_groups env k seen' gs d = Inr c2) \<and> cfg = c1 @ c2"
    using ListCDNSites_listed by (fastforce split: sum.splits)
qed auto

definition few_sites :: "db \<Rightarrow> bool" where
  "few_sites d \<longleftrightarrow>
     (\<forall>t. length (filter (\<lambda>s. siteTenantID s = t) (dbSites d)) \<le> 10000) \<and>
     (\<forall>i. length (filter (\<lambda>a. originSiteID a = i) (dbOrigins d)) \<le> 10000)"

text \<open>
  C22: the CDN configuration of a node has each of its sites once: exactly the active sites
  that are assigned to a group of the node and owned by the group's tenant, each with
  exactly its origins.
\<close>

theorem GetNodeCDNConfig_exact:
  assumes "GetNodeCDNConfig env nid d = Inr cfg" "few_sites d"
  shows "distinct (map (siteID \<circ> swoSite) cfg) \<and>
     (siteID \<circ> swoSite) ` set cfg =
       {siteID s |s g. s \<in> set (dbSites d) \<and> (g \<in> set (dbGroups d) \<and> (groupID g, nid) \<in> set (dbMembers d)) \<and>
          siteTenantID s = groupTenantID g \<and> site_assigned g s} \<and>
     list_all (\<lambda>c. set (swoOrigins c) = {a \<in> set (dbOrigins d). originSiteID a = siteID (swoSite c)}) cfg"
proof -
  obtain gs where gs: "\<exists>k. config_site_groups env k [] gs d = Inr cfg"
    and "ListNodeGroups_ByNode (svDB env ''list groups'') nid d = Inr gs"
    using assms(1) by (auto simp: GetNodeCDNConfig_def split: sum.splits)
  then have mem: "g \<in> set gs \<longleftrightarrow> g \<in> set (dbGroups d) \<and> (groupID g, nid) \<in> set (dbMembers d)" for g
    by (auto simp: ListNodeGroups_ByNode_def sql_query_def split: option.splits)
  have rows: "listed_sites d t = loadCDNSiteDomains ` {s \<in> set (dbSites d). siteTenantID s = t}" for t
    using assms(2) by (force simp: listed_sites_def few_sites_def page_def listLimit_def)
  have load: "siteID (loadCDNSiteDomains s) = siteID s" "site_assigned g (loadCDNSiteDomains s) = site_assigned g s" for s g
    by (simp_all add: loadCDNSiteDomains_def site_assigned_def)
  have "siteID ` {i. \<exists>g\<in>set gs. i \<in> listed_sites d (groupTenantID g) \<and> site_assigned g i} =
      {siteID s |s g. s \<in> set (dbSites d) \<and> g \<in> set gs \<and> siteTenantID s = groupTenantID g \<and> site_assigned g s}"
  proof -
    have "{i. \<exists>g\<in>set gs. i \<in> loadCDNSiteDomains ` A g \<and> site_assigned g i} =
        loadCDNSiteDomains ` {s. \<exists>g\<in>set gs. s \<in> A g \<and> site_assigned g s}" for A :: "NodeGroup \<Rightarrow> CDNSite set"
      by (auto simp: load) (rule imageI, blast)
    then show ?thesis unfolding rows by (simp only: image_image load) blast
  qed
  moreover have "set (swoOrigins c) = {a \<in> set (dbOrigins d). originSiteID a = siteID (swoSite c)}"
    if "listed_origins d c" for c
    using that assms(2) by (auto simp: listed_origins_def few_sites_def page_def listLimit_def)
  ultimately show ?thesis
    using cdn_config.snapshot_exact [OF gs] unfolding mem [symmetric] comp_def by (auto simp: list_all_iff)
qed

section \<open>Sample calls\<close>

definition sample_site :: CDNSite where
  "sample_site = (request_site 50
     \<lparr>csTenantID = 7, csName = ''shop'', csDomains = [''shop.example''], csTLSMode = TLSModeAuto, csCacheEnabled = True,
      csCacheTTL = 60, csCompressionEnabled = False, csRateLimitRPS = None, csNodeGroupID = Some 3,
      csHeaderRules = '''', csWAFEnabled = False, csWAFMode = ''''\<rparr>)\<lparr>siteStatus := CDNSiteActive\<rparr>"

definition sample_origin_request :: CreateOriginRequest where
  "sample_origin_request =
     \<lparr>coSiteID = 50, coAddress = ''origin.example'', coScheme = CDNOriginHTTPS, coWeight = 0,
      coHealthCheckPath = '''', coHealthCheckInterval = None\<rparr>"

definition cdn_db :: db where
  "cdn_db = empty_db\<lparr>dbTenants := [sample_tenant], dbNodes := [sample_node 1], dbGroups := [sample_group],
     dbMembers := [(3, 1)], dbSites := [sample_site]\<rparr>"

definition sample_cdn_lib :: cdn_lib where
  "sample_cdn_lib =
     \<lparr>cdnAllowPrivate = False, cdnLookup = (\<lambda>h. if h = ''origin.example'' then Some [''93.184.216.34''] else None),
      cdnRules = (\<lambda>_. None)\<rparr>"

lemma cdn_db_sel [simp]:
  "dbNodes cdn_db = [sample_node 1]" "dbGroups cdn_db = [sample_group]" "dbMembers cdn_db = [(3, 1)]"
  "dbSites cdn_db = [sample_site]" "dbOrigins cdn_db = []"
  by (simp_all add: cdn_db_def empty_db_def)

lemma cdn_db_config: "\<exists>s. GetNodeCDNConfig (ok_env 0) 1 cdn_db = Inr [\<lparr>swoSite = s, swoOrigins = []\<rparr>]"
  by (simp add: GetNodeCDNConfig_def GetNode_def sql_row_def ListNodeGroups_ByNode_def sql_query_def ok_env_def
      fk_conn_def sample_node_def sample_group_def ListCDNSites_def ListCDNOrigins_def sql_list_def page_def
      listLimit_def)
     (simp add: sample_site_def request_site_def loadCDNSiteDomains_def)

theorem GetNodeCDNConfig_exact_witness:
  "\<exists>cfg. GetNodeCDNConfig (ok_env 0) 1 cdn_db = Inr cfg \<and> (siteID \<circ> swoSite) ` set cfg = {50}"
proof -
  obtain s where cfg: "GetNodeCDNConfig (ok_env 0) 1 cdn_db = Inr [\<lparr>swoSite = s, swoOrigins = []\<rparr>]"
    using cdn_db_config by blast
  have "few_sites cdn_db" by (simp add: few_sites_def)
  from GetNodeCDNConfig_exact [OF cfg this]
  have "{siteID s} = {x. x = siteID sample_site \<and> groupID sample_group = 3 \<and>
      siteTenantID sample_site = groupTenantID sample_group \<and> site_assigned sample_group sample_site}" by simp
  moreover have "siteID sample_site = 50" by (simp add: sample_site_def request_site_def)
  ultimately have "siteID s = 50" by (auto dest!: equalityD1)
  then show ?thesis unfolding cfg by simp
qed

lemma sample_origin_created: "\<exists>a. fst (CreateOrigin (ok_env 60) sample_cdn_lib sample_origin_request cdn_db) = Inr a \<and>
   originAddress a = ''origin.example''"
proof -
  have "ParseIP ''93.184.216.34'' = Some (IP16 (v4_mapped 0x5DB8D822))"
    by (simp add: ParseIP_def ParseAddr_def parseIPv4_def parse_octet_def word_of_octets_def
        is_digit_def dec_val_def digit_val_def)
  moreover have "\<not> isBlockedIP (IP16 (v4_mapped 0x5DB8D822))"
    using blocked_v4 [OF To4_v4_mapped] by (simp add: internal_v4_def)
  moreover have "origin_host ''origin.example'' = ''origin.example''"
    by (simp add: origin_host_def SplitHostPort_def cut_last_def)
  moreover have "\<not> list_ex (\<lambda>b. ToLower ''origin.example'' = b \<or> HasSuffix (ToLower ''origin.example'') (''.'' @ b))
      blockedHosts" by code_simp
  moreover have "origin_ips sample_cdn_lib ''origin.example'' = Some [''93.184.216.34'']"
    by (simp add: origin_ips_def sample_cdn_lib_def)
  ultimately have "validateOriginAddress sample_cdn_lib ''origin.example'' = None"
    unfolding validateOriginAddress_def Let_def by simp
  then have valid: "validateOrigin sample_cdn_lib (request_origin 60 sample_origin_request) = None"
    by (simp add: validateOrigin_def request_origin_def sample_origin_request_def validateOriginScheme_def)
  have [simp]: "originSiteID (origin_defaults n x) = originSiteID x" "originAddress (origin_defaults n x) = originAddress x"
    for n x by (simp_all add: origin_defaults_def Let_def)
  have "siteID sample_site = 50" by (simp add: sample_site_def request_site_def)
  then have "\<exists>s. GetCDNSite (svDB (ok_env 60) ''get site'') (coSiteID sample_origin_request) cdn_db = Inr s"
    "row_mem siteID 50 (dbSites cdn_db)"
    by (simp_all add: GetCDNSite_def sql_row_def ok_env_def fk_conn_def row_find_def row_mem_def sample_origin_request_def)
  moreover have "originSiteID (request_origin 60 sample_origin_request) = 50"
    "originAddress (request_origin 60 sample_origin_request) = ''origin.example''"
    by (simp_all add: request_origin_def sample_origin_request_def)
  ultimately show ?thesis
    using valid
    by (auto simp: CreateOrigin_def CreateCDNOrigin_def sql_exec_def row_mem_def ok_env_def fk_conn_def Let_def
        simp del: cdn_db_sel(4))
qed


end
