(* ===== verification/EF_RateLimit.thy ===== *)
theory EF_RateLimit
  imports Complex_Main EF_Prelude
begin

text \<open>
  The token bucket of \<open>cdnserver/ratelimit.go\<close>, which limits the requests of a CDN site.

  Its counters are \<open>float64\<close>.  A finite floating-point number is the rational it stands
  for, and every operation rounds its exact result: \<open>f64\<close> is the rounding to the nearest
  double, ties to even, with the smallest exponent of the format.  Overflow is left out
  (the counters stay far below it), and no multiplication is fused with an addition, as
  on amd64.  Clock readings are monotonic, as those of \<open>time.Now\<close> are.
\<close>

section \<open>Rounding to a double\<close>

fun log2_nat :: "nat \<Rightarrow> nat" where
  "log2_nat n = (if n < 2 then 0 else Suc (log2_nat (n div 2)))"

declare log2_nat.simps [simp del]

text \<open>The exponent of a positive number, at least that of the smallest subnormal one.\<close>

definition f64_exp :: "rat \<Rightarrow> int" where
  "f64_exp x = int (log2_nat (nat \<lfloor>x * 2 ^ 1074\<rfloor>)) - 1074"

text \<open>The distance of the doubles around a number with that exponent.\<close>

definition f64_unit :: "rat \<Rightarrow> rat" where
  "f64_unit x = 2 powi (max (f64_exp x - 52) (-1074))"

definition round_even :: "rat \<Rightarrow> int" where
  "round_even y =
     (let n = \<lfloor>y\<rfloor>; r = y - of_int n
      in if r < 1 / 2 then n else if r > 1 / 2 then n + 1 else if even n then n else n + 1)"

definition f64 :: "rat \<Rightarrow> rat" where
  "f64 x =
     (if x = 0 then 0
      else sgn x * (of_int (round_even (\<bar>x\<bar> / f64_unit \<bar>x\<bar>)) * f64_unit \<bar>x\<bar>))"

section \<open>The token bucket\<close>

record RateLimiter =
  rlTokens :: rat
  rlMaxTokens :: rat
  rlRefillRate :: rat
  rlLastRefill :: Time

definition NewRateLimiter :: "Time \<Rightarrow> int \<Rightarrow> RateLimiter" where
  "NewRateLimiter now rps =
     \<lparr>rlTokens = f64 (of_int rps), rlMaxTokens = f64 (of_int rps), rlRefillRate = f64 (of_int rps),
      rlLastRefill = now\<rparr>"

text \<open>\<open>Duration.Seconds\<close>: whole seconds and the rest are converted apart.\<close>

definition Seconds :: "Duration \<Rightarrow> rat" where
  "Seconds d =
     (let sec = \<bar>d\<bar> div Second; nsec = \<bar>d\<bar> mod Second
      in of_int (sgn d) * f64 (f64 (of_int sec) + f64 (f64 (of_int nsec) / 1000000000)))"

definition refill :: "Time \<Rightarrow> RateLimiter \<Rightarrow> RateLimiter" where
  "refill now rl =
     (let elapsed = Seconds (now - rlLastRefill rl);
          rl = rl\<lparr>rlLastRefill := now\<rparr>;
          rl = rl\<lparr>rlTokens := f64 (rlTokens rl + f64 (elapsed * rlRefillRate rl))\<rparr>
      in if rlTokens rl > rlMaxTokens rl then rl\<lparr>rlTokens := rlMaxTokens rl\<rparr> else rl)"

definition Allow :: "Time \<Rightarrow> RateLimiter \<Rightarrow> bool \<times> RateLimiter" where
  "Allow now rl =
     (let rl = refill now rl
      in if rlTokens rl < 1 then (False, rl)
         else (True, rl\<lparr>rlTokens := f64 (rlTokens rl - 1)\<rparr>))"

text \<open>The answers to a sequence of calls at the given times.\<close>

fun allow_run :: "Time list \<Rightarrow> RateLimiter \<Rightarrow> bool list" where
  "allow_run [] rl = []"
| "allow_run (now # later) rl = (case Allow now rl of (ok, rl) \<Rightarrow> ok # allow_run later rl)"

section \<open>Facts on rounding\<close>

lemma log2_nat_double: "0 < n \<Longrightarrow> log2_nat (2 * n) = Suc (log2_nat n)"
  by (subst log2_nat.simps) simp

lemma log2_nat_shift: "0 < n \<Longrightarrow> log2_nat (n * 2 ^ k) = log2_nat n + k"
proof (induction k)
  case (Suc k)
  then show ?case using log2_nat_double [of "n * 2 ^ k"] by (simp add: mult.left_commute)
qed simp

lemma log2_nat_le: "0 < n \<Longrightarrow> 2 ^ log2_nat n \<le> n"
proof (induction n rule: log2_nat.induct)
  case (1 n)
  show ?case
  proof (cases "n < 2")
    case False
    then have "2 * 2 ^ log2_nat (n div 2) \<le> n" using 1 by linarith
    then show ?thesis using False by (subst log2_nat.simps) simp
  qed (use 1 in \<open>simp add: log2_nat.simps [of n]\<close>)
qed

lemma f64_unit_pos [simp]: "0 < f64_unit x"
  by (simp add: f64_unit_def)

lemma powi_le_one_52: "(2::rat) powi (-1074) \<le> 1 / 2 ^ 52"
proof -
  have "(2::rat) powi (-1074) \<le> 2 powi (-52)" by (rule power_int_increasing) simp_all
  then show ?thesis by (simp add: power_int_minus field_simps)
qed

lemma powi_exp_le: assumes "1 \<le> x * 2 ^ 1074" shows "2 powi f64_exp x \<le> x"
proof -
  let ?k = "nat \<lfloor>x * 2 ^ 1074\<rfloor>"
  have k: "0 < ?k" using assms by (simp only: zero_less_nat_eq zero_less_floor)
  then have "of_nat ?k \<le> x * 2 ^ 1074"
    by (metis nat_eq_iff2 of_int_floor_le of_int_of_nat_eq of_nat_nat order_less_irrefl zero_less_nat_eq less_imp_le)
  moreover have "(2::rat) ^ log2_nat ?k \<le> of_nat ?k"
    using log2_nat_le [OF k] by (metis of_nat_le_iff of_nat_numeral of_nat_power)
  ultimately have "(2::rat) ^ log2_nat ?k \<le> x * 2 ^ 1074" by order
  then have "(2::rat) ^ log2_nat ?k / 2 ^ 1074 \<le> x"
    by (simp only: pos_divide_le_eq zero_less_power zero_less_numeral)
  moreover have "(2::rat) powi f64_exp x = 2 ^ log2_nat ?k / 2 ^ 1074"
    unfolding f64_exp_def by (simp only: power_int_diff power_int_of_nat power_int_numeral zero_neq_numeral [symmetric] simp_thms)
  ultimately show ?thesis by simp
qed

lemma f64_unit_le: assumes "0 < x" shows "f64_unit x \<le> (x + 1) / 2 ^ 52"
proof (cases "f64_exp x - 52 \<le> -1074")
  case True
  then have "f64_unit x \<le> 1 / 2 ^ 52" using powi_le_one_52 by (simp add: f64_unit_def max_absorb2)
  then show ?thesis using assms by (simp add: field_simps)
next
  case False
  have "1 \<le> x * 2 ^ 1074"
  proof (rule ccontr)
    assume "\<not> 1 \<le> x * 2 ^ 1074"
    then have "nat \<lfloor>x * 2 ^ 1074\<rfloor> = 0"
      using floor_less_one [of "x * 2 ^ 1074"] by linarith
    then show False using False by (simp add: f64_exp_def log2_nat.simps [of 0])
  qed
  then have "2 powi f64_exp x \<le> x" by (rule powi_exp_le)
  moreover have "f64_unit x = 2 powi f64_exp x / 2 ^ 52"
    using False by (simp add: f64_unit_def max_absorb1 power_int_diff)
  ultimately show ?thesis by (simp add: divide_right_mono)
qed

lemma round_even_bounds: "of_int (round_even y) \<le> y + 1 / 2"
proof -
  have "y - of_int \<lfloor>y\<rfloor> < 1" "0 \<le> y - of_int \<lfloor>y\<rfloor>" by linarith+
  then show ?thesis unfolding round_even_def Let_def by (simp split: if_split; linarith)
qed

lemma round_even_nonneg: "0 \<le> y \<Longrightarrow> 0 \<le> round_even y"
  unfolding round_even_def Let_def by (simp split: if_split)

lemma round_even_int [simp]: "round_even (of_int n) = n"
  by (simp add: round_even_def)

lemma f64_nonneg: "0 \<le> x \<Longrightarrow> 0 \<le> f64 x"
  by (simp add: f64_def round_even_nonneg less_imp_le)

lemma f64_le: assumes "0 \<le> x" shows "f64 x \<le> x + (x + 1) / 2 ^ 53"
proof (cases "x = 0")
  case False
  then have x: "0 < x" using assms by simp
  let ?u = "f64_unit x"
  have "f64 x = of_int (round_even (x / ?u)) * ?u" using x by (simp add: f64_def)
  also have "\<dots> \<le> (x / ?u + 1 / 2) * ?u"
    by (rule mult_right_mono [OF round_even_bounds less_imp_le [OF f64_unit_pos]])
  also have "\<dots> = x + ?u / 2" using less_imp_neq [OF f64_unit_pos [of x]] by (simp add: field_simps)
  also have "\<dots> \<le> x + (x + 1) / 2 ^ 53" using f64_unit_le [OF x] by (simp add: field_simps)
  finally show ?thesis .
qed (simp add: f64_def)

lemma f64_nat: assumes "n < 2 ^ 53" shows "f64 (of_nat n) = of_nat n"
proof (cases "n = 0")
  case False
  have "\<lfloor>(of_nat n :: rat) * 2 ^ 1074\<rfloor> = int (n * 2 ^ 1074)"
    by (metis floor_of_nat of_nat_mult of_nat_numeral of_nat_power)
  then have k: "nat \<lfloor>(of_nat n :: rat) * 2 ^ 1074\<rfloor> = n * 2 ^ 1074" by (simp only: nat_int)
  have e: "f64_exp (of_nat n) = int (log2_nat n)"
    unfolding f64_exp_def k using False by (simp only: log2_nat_shift neq0_conv)
  have "2 ^ log2_nat n < (2 :: nat) ^ 53" using log2_nat_le [of n] False assms by simp
  then have "log2_nat n \<le> 52" using power_strict_increasing_iff [of "2::nat" "log2_nat n" 53] by linarith
  then have "f64_unit (of_nat n) = 2 powi - int (52 - log2_nat n)"
    by (simp add: f64_unit_def e max_absorb1)
  then have u: "f64_unit (of_nat n) = 1 / 2 ^ (52 - log2_nat n)"
    by (simp only: power_int_minus power_int_of_nat inverse_eq_divide)
  have "of_nat n / f64_unit (of_nat n) = (of_int (int (n * 2 ^ (52 - log2_nat n))) :: rat)"
    by (simp add: u)
  then have "round_even (of_nat n / f64_unit (of_nat n)) = int (n * 2 ^ (52 - log2_nat n))"
    by (simp only: round_even_int)
  then show ?thesis using False by (simp add: f64_def u)
qed (simp add: f64_def)

section \<open>The limit\<close>

lemma seconds_error:
  fixes S s n m f g :: rat
  assumes "S \<le> f + g + (f + g + 1) / 2 ^ 53" "f \<le> s + (s + 1) / 2 ^ 53" "g \<le> m + (m + 1) / 2 ^ 53"
    and "m \<le> (n + (n + 1) / 2 ^ 53) / 1000000000" "0 \<le> s" "0 \<le> n"
  shows "S \<le> s + n / 1000000000 + (s + n / 1000000000 + 1) / 2 ^ 50"
  using assms by (simp add: field_simps)

lemma refill_error:
  fixes R x a k t u v :: rat
  assumes "a \<le> x + (x + R) / 2 ^ 50 + (x + (x + R) / 2 ^ 50 + 1) / 2 ^ 53"
    and "t \<le> k + a + (k + a + 1) / 2 ^ 53" "u \<le> t" "v \<le> u + u / 2 ^ 53" "k \<le> R" "u \<le> R" "0 \<le> x" "1 \<le> R"
  shows "v \<le> k + x * (1 + 1 / 2 ^ 47) + R / 2 ^ 47"
  using assms by (simp add: field_simps)

lemma Seconds_bounds:
  assumes "0 \<le> d"
  shows "0 \<le> Seconds d" "Seconds d \<le> of_int d / 1000000000 + (of_int d / 1000000000 + 1) / 2 ^ 50"
proof -
  let ?s = "of_int (d div Second) :: rat" and ?n = "of_int (d mod Second) :: rat"
  have "(of_int d :: rat) = of_int (d div Second * Second + d mod Second)" by simp
  then have "(of_int d :: rat) = ?s * 1000000000 + ?n" by (simp only: of_int_add of_int_mult of_int_numeral)
  then have d: "(of_int d :: rat) / 1000000000 = ?s + ?n / 1000000000" by linarith
  have s: "0 \<le> ?s" and n: "0 \<le> ?n" using assms by (simp_all add: pos_imp_zdiv_nonneg_iff)
  have fs: "0 \<le> f64 ?s" "f64 ?s \<le> ?s + (?s + 1) / 2 ^ 53" using f64_nonneg [OF s] f64_le [OF s] .
  have fn: "0 \<le> f64 ?n" "f64 ?n \<le> ?n + (?n + 1) / 2 ^ 53" using f64_nonneg [OF n] f64_le [OF n] .
  define m where "m = f64 ?n / 1000000000"
  have m: "0 \<le> m" "m \<le> (?n + (?n + 1) / 2 ^ 53) / 1000000000"
    using fn unfolding m_def by (simp_all only: divide_nonneg_nonneg zero_le_numeral divide_right_mono)
  have fm: "0 \<le> f64 m" "f64 m \<le> m + (m + 1) / 2 ^ 53" using f64_nonneg [OF m(1)] f64_le [OF m(1)] .
  have sum: "0 \<le> f64 ?s + f64 m" using fs(1) fm(1) by simp
  have S: "Seconds d = f64 (f64 ?s + f64 m)"
    using assms by (cases "d = 0") (simp_all add: Seconds_def Let_def m_def f64_def)
  show "0 \<le> Seconds d" unfolding S by (rule f64_nonneg [OF sum])
  have "Seconds d \<le> f64 ?s + f64 m + (f64 ?s + f64 m + 1) / 2 ^ 53" unfolding S by (rule f64_le [OF sum])
  then show "Seconds d \<le> of_int d / 1000000000 + (of_int d / 1000000000 + 1) / 2 ^ 50"
    unfolding d by (rule seconds_error [OF _ fs(2) fm(2) m(2) s n])
qed

definition limiter_ok :: "rat \<Rightarrow> RateLimiter \<Rightarrow> bool" where
  "limiter_ok R rl \<longleftrightarrow> rlMaxTokens rl = R \<and> rlRefillRate rl = R \<and> 0 \<le> rlTokens rl \<and> rlTokens rl \<le> R"

text \<open>What one call can take out of the bucket.\<close>

lemma Allow_step:
  assumes "limiter_ok R rl" "1 \<le> R" "R \<le> 2 ^ 53" "rlLastRefill rl \<le> now" "Allow now rl = (ok, rl')"
  shows "limiter_ok R rl'" "rlLastRefill rl' = now"
    "of_bool ok + rlTokens rl' \<le>
       rlTokens rl + R * (of_int (now - rlLastRefill rl) / 1000000000) * (1 + 1 / 2 ^ 47) + R / 2 ^ 47"
    "of_bool ok + rlTokens rl' \<le> R + R / 2 ^ 47"
proof -
  let ?d = "now - rlLastRefill rl"
  define D where "D = (of_int ?d / 1000000000 :: rat)"
  define e where "e = Seconds ?d"
  define a where "a = f64 (e * R)"
  define t where "t = f64 (rlTokens rl + a)"
  define u where "u = (if t > R then R else t)"
  have tok: "0 \<le> rlTokens rl" "rlTokens rl \<le> R" "rlMaxTokens rl = R" "rlRefillRate rl = R"
    using assms(1) by (simp_all add: limiter_ok_def)
  have D: "0 \<le> D" and e: "0 \<le> e" "e \<le> D + (D + 1) / 2 ^ 50"
    using assms(4) Seconds_bounds [of ?d] unfolding D_def e_def by simp_all
  have "e * R \<le> (D + (D + 1) / 2 ^ 50) * R" using e(2) assms(2) by (intro mult_right_mono) simp_all
  then have eR: "0 \<le> e * R" "e * R \<le> R * D + (R * D + R) / 2 ^ 50"
    using e(1) assms(2) by (simp_all add: field_simps)
  then have a: "0 \<le> a" "a \<le> R * D + (R * D + R) / 2 ^ 50 + (R * D + (R * D + R) / 2 ^ 50 + 1) / 2 ^ 53"
    using f64_nonneg [of "e * R"] f64_le [of "e * R"] add_mono [OF eR(2) divide_right_mono [OF add_right_mono [OF eR(2)], of "2 ^ 53" 1]]
    unfolding a_def by simp_all
  have RD: "0 \<le> R * D" using D assms(2) by simp
  have t: "0 \<le> t" "t \<le> rlTokens rl + a + (rlTokens rl + a + 1) / 2 ^ 53"
    using f64_nonneg [of "rlTokens rl + a"] f64_le [of "rlTokens rl + a"] tok(1) a(1) unfolding t_def by simp_all
  have u: "0 \<le> u" "u \<le> R" "u \<le> t" using t(1) assms(2) unfolding u_def by simp_all
  have refill: "refill now rl = rl\<lparr>rlLastRefill := now, rlTokens := u\<rparr>"
    by (cases rl) (use tok in \<open>simp add: refill_def Let_def u_def t_def a_def e_def\<close>)
  have one: "0 \<le> f64 (u - 1)" "f64 (u - 1) \<le> u - 1 + u / 2 ^ 53" if "1 \<le> u"
    using that f64_nonneg [of "u - 1"] f64_le [of "u - 1"] by simp_all
  have cap: "f64 (u - 1) \<le> R" if "1 \<le> u" using one(2) [OF that] u(2) assms(3) by simp
  show "rlLastRefill rl' = now"
    using assms(5) by (auto simp: Allow_def refill Let_def split: if_splits)
  show "limiter_ok R rl'"
    using assms(5) u one cap tok by (auto simp: Allow_def refill Let_def limiter_ok_def split: if_splits)
  have taken: "of_bool ok + rlTokens rl' \<le> u + u / 2 ^ 53"
    using assms(5) u one by (auto simp: Allow_def refill Let_def split: if_splits)
  also have "\<dots> \<le> R + R / 2 ^ 47" using u assms(2) by (simp add: field_simps)
  finally show "of_bool ok + rlTokens rl' \<le> R + R / 2 ^ 47" .
  from taken show "of_bool ok + rlTokens rl' \<le> rlTokens rl + R * (of_int ?d / 1000000000) * (1 + 1 / 2 ^ 47) + R / 2 ^ 47"
    unfolding D_def [symmetric] using refill_error [OF a(2) t(2) u(3) _ tok(2) u(2) RD assms(2)] by blast
qed

lemma allow_run_bound:
  assumes "limiter_ok R rl" "1 \<le> R" "R \<le> 2 ^ 53" "sorted (rlLastRefill rl # ts)"
  shows "of_nat (length (filter id (allow_run ts rl))) \<le>
    rlTokens rl + R * (of_int (last (rlLastRefill rl # ts) - rlLastRefill rl) / 1000000000) * (1 + 1 / 2 ^ 47) +
    of_nat (length ts) * (R / 2 ^ 47)"
  using assms
proof (induction ts arbitrary: rl)
  case Nil
  then show ?case by (simp add: limiter_ok_def)
next
  case (Cons now ts)
  obtain ok rl' where step: "Allow now rl = (ok, rl')" by fastforce
  have le: "rlLastRefill rl \<le> now" using Cons.prems(4) by simp
  note st = Allow_step [OF Cons.prems(1-3) le step]
  define p q where "p = (of_int (now - rlLastRefill rl) / 1000000000 :: rat)"
    and "q = (of_int (last (now # ts) - now) / 1000000000 :: rat)"
  have pq: "of_int (last (rlLastRefill rl # now # ts) - rlLastRefill rl) / 1000000000 = p + q"
    unfolding p_def q_def by (simp add: diff_divide_distrib)
  have s': "sorted (rlLastRefill rl' # ts)" using Cons.prems(4) unfolding st(2) by simp
  have IH: "of_nat (length (filter id (allow_run ts rl'))) \<le>
      rlTokens rl' + R * q * (1 + 1 / 2 ^ 47) + of_nat (length ts) * (R / 2 ^ 47)"
    using Cons.IH [OF st(1) Cons.prems(2,3) s'] unfolding st(2) q_def .
  have "of_nat (length (filter id (allow_run (now # ts) rl))) =
      of_bool ok + (of_nat (length (filter id (allow_run ts rl'))) :: rat)"
    using step by simp
  also have "\<dots> \<le> of_bool ok + rlTokens rl' + R * q * (1 + 1 / 2 ^ 47) + of_nat (length ts) * (R / 2 ^ 47)"
    using IH by linarith
  also have "\<dots> \<le> rlTokens rl + R * p * (1 + 1 / 2 ^ 47) + R / 2 ^ 47 + R * q * (1 + 1 / 2 ^ 47)
      + of_nat (length ts) * (R / 2 ^ 47)"
    using st(3) unfolding p_def [symmetric] by linarith
  also have "\<dots> = rlTokens rl + R * (p + q) * (1 + 1 / 2 ^ 47) + of_nat (length (now # ts)) * (R / 2 ^ 47)"
    by (simp add: algebra_simps add_divide_distrib)
  finally show ?case unfolding pq .
qed

definition allow_state :: "Time list \<Rightarrow> RateLimiter \<Rightarrow> RateLimiter" where
  "allow_state ts rl = fold (\<lambda>now rl. snd (Allow now rl)) ts rl"

lemma allow_run_append: "allow_run (xs @ ys) rl = allow_run xs rl @ allow_run ys (allow_state xs rl)"
  by (induction xs arbitrary: rl) (simp_all add: allow_state_def split: prod.split)

lemma allow_run_length: "length (allow_run ts rl) = length ts"
  by (induction ts arbitrary: rl) (simp_all split: prod.split)

lemma allow_state_ok:
  assumes "limiter_ok R rl" "1 \<le> R" "R \<le> 2 ^ 53" "sorted (rlLastRefill rl # ts)"
  shows "limiter_ok R (allow_state ts rl)" "rlLastRefill (allow_state ts rl) = last (rlLastRefill rl # ts)"
proof -
  have "limiter_ok R (allow_state ts rl) \<and> rlLastRefill (allow_state ts rl) = last (rlLastRefill rl # ts)"
    using assms
  proof (induction ts arbitrary: rl)
    case (Cons now ts)
    obtain ok rl' where step: "Allow now rl = (ok, rl')" by fastforce
    have le: "rlLastRefill rl \<le> now" using Cons.prems(4) by simp
    note st = Allow_step [OF Cons.prems(1-3) le step]
    have "sorted (rlLastRefill rl' # ts)" using Cons.prems(4) unfolding st(2) by simp
    from Cons.IH [OF st(1) Cons.prems(2,3) this] show ?case
      using step st(2) by (simp add: allow_state_def)
  qed (simp add: allow_state_def)
  then show "limiter_ok R (allow_state ts rl)" "rlLastRefill (allow_state ts rl) = last (rlLastRefill rl # ts)"
    by simp_all
qed

text \<open>The bucket is never fuller than its capacity, so a window starts with at most that.\<close>

lemma allow_run_window:
  assumes "limiter_ok R rl" "1 \<le> R" "R \<le> 2 ^ 53" "sorted (rlLastRefill rl # first # ts)"
  shows "of_nat (length (filter id (allow_run (first # ts) rl))) \<le>
    R + R * (of_int (last (first # ts) - first) / 1000000000) * (1 + 1 / 2 ^ 47) + of_nat (length (first # ts)) * (R / 2 ^ 47)"
proof -
  obtain ok rl' where step: "Allow first rl = (ok, rl')" by fastforce
  have le: "rlLastRefill rl \<le> first" using assms(4) by simp
  note st = Allow_step [OF assms(1-3) le step]
  have "sorted (rlLastRefill rl' # ts)" using assms(4) unfolding st(2) by simp
  note rest = allow_run_bound [OF st(1) assms(2,3) this, unfolded st(2)]
  have "of_nat (length (filter id (allow_run (first # ts) rl))) =
      of_bool ok + (of_nat (length (filter id (allow_run ts rl'))) :: rat)"
    using step by simp
  also have "\<dots> \<le> R + R / 2 ^ 47 + R * (of_int (last (first # ts) - first) / 1000000000) * (1 + 1 / 2 ^ 47)
      + of_nat (length ts) * (R / 2 ^ 47)"
    using rest st(4) by linarith
  also have "\<dots> = R + R * (of_int (last (first # ts) - first) / 1000000000) * (1 + 1 / 2 ^ 47)
      + of_nat (length (first # ts)) * (R / 2 ^ 47)"
    by (simp add: algebra_simps add_divide_distrib del: last.simps)
  finally show ?thesis .
qed

lemma burst_run:
  assumes "k < 2 ^ 53" "rlTokens rl = of_nat k" "of_nat k \<le> rlMaxTokens rl" "rlLastRefill rl = t"
  shows "length (filter id (allow_run (replicate m t) rl)) = min m k"
  using assms
proof (induction m arbitrary: k rl)
  case (Suc m)
  have refill: "refill t rl = rl"
    using Suc.prems f64_nat [of k] f64_nat [of 0] by (cases rl) (simp add: refill_def Let_def Seconds_def)
  show ?case
  proof (cases k)
    case 0
    then have "Allow t rl = (False, rl)" using Suc.prems by (simp add: Allow_def refill)
    then show ?thesis using Suc.IH [OF Suc.prems] 0 by simp
  next
    case (Suc j)
    have "of_nat k - 1 = (of_nat j :: rat)" using Suc by simp
    then have "Allow t rl = (True, rl\<lparr>rlTokens := of_nat j\<rparr>)"
      using Suc Suc.prems f64_nat [of j] by (simp add: Allow_def refill)
    then show ?thesis using Suc.IH [of j "rl\<lparr>rlTokens := of_nat j\<rparr>"] Suc Suc.prems by simp
  qed
qed simp

text \<open>
  C19: a limiter for \<open>rps\<close> requests per second lets exactly the first \<open>rps\<close> requests of the
  instant of its creation through.  Whatever it was asked before, of the requests that
  arrive within any window of \<open>T\<close> seconds it allows no more than \<open>rps + rps * T\<close>, up to the
  rounding of the counters: one part in \<open>2 ^ 47\<close> of the refill, and of the capacity for
  every call.
\<close>

theorem rate_limit_bound:
  assumes "1 \<le> rps" "rps < 2 ^ 53" "sorted (t0 # earlier @ first # ts)"
  shows "length (filter id (allow_run (replicate m t0) (NewRateLimiter t0 rps))) = min m (nat rps) \<and>
    of_nat (length (filter id (drop (length earlier) (allow_run (earlier @ first # ts) (NewRateLimiter t0 rps))))) \<le>
      of_int rps + of_int rps * (of_int (last (first # ts) - first) / 1000000000) * (1 + 1 / 2 ^ 47) +
      of_nat (length (first # ts)) * (of_int rps / 2 ^ 47 :: rat)"
proof -
  have rps: "of_int rps = (of_nat (nat rps) :: rat)" "nat rps < 2 ^ 53" using assms(1,2) by simp_all
  have R: "1 \<le> (of_int rps :: rat)" "(of_int rps :: rat) \<le> 2 ^ 53" using assms(1,2) by simp_all
  have new: "NewRateLimiter t0 rps =
      \<lparr>rlTokens = of_int rps, rlMaxTokens = of_int rps, rlRefillRate = of_int rps, rlLastRefill = t0\<rparr>"
    unfolding NewRateLimiter_def rps(1) f64_nat [OF rps(2)] ..
  let ?rl = "allow_state earlier (NewRateLimiter t0 rps)"
  have "limiter_ok (of_int rps) (NewRateLimiter t0 rps)" using assms(1) by (simp add: new limiter_ok_def)
  moreover have "sorted (rlLastRefill (NewRateLimiter t0 rps) # earlier)"
    using assms(3) by (simp add: new sorted_append)
  ultimately have ok: "limiter_ok (of_int rps) ?rl" "rlLastRefill ?rl = last (t0 # earlier)"
    using allow_state_ok [OF _ R] by (simp_all add: new)
  have "sorted ((t0 # earlier) @ first # ts)" using assms(3) by simp
  then have "sorted (rlLastRefill ?rl # first # ts)"
    unfolding ok(2) sorted_append by (metis last_in_set list.distinct(1) sorted_wrt.simps(2))
  then show ?thesis
    using allow_run_window [OF ok(1) R] burst_run [OF rps(2), of "NewRateLimiter t0 rps" t0 m]
    unfolding allow_run_append by (simp add: allow_run_length new rps(1) [symmetric] del: allow_run.simps last.simps)
qed

theorem rate_limit_bound_witness:
  "length (filter id (allow_run (replicate 5 0) (NewRateLimiter 0 2))) = 2 \<and>
   of_nat (length (filter id (drop 1 (allow_run ([0] @ 5 * Second # [5 * Second, 6 * Second]) (NewRateLimiter 0 2))))) \<le>
     (2 + 2 * (1 + 1 / 2 ^ 47) + 3 * (2 / 2 ^ 47) :: rat)"
  using rate_limit_bound [of 2 0 "[0]" "5 * Second" "[5 * Second, 6 * Second]" 5] by (simp del: allow_run.simps)

end
