(* ===== verification/EF_Networking.thy ===== *)
theory EF_Networking
  imports EF_Crypto EF_Overlay EF_NodeConfig
begin

text \<open>
  \<open>internal/networking\<close>: BGP sessions, address allocations, the WireGuard configurations of
  the hub and of the nodes (hub and spoke, or mesh within a group), rotation of WireGuard
  keys and the bootstrap of the controller's own peer.

  \<open>net_env\<close> has what a call takes from outside besides the store: the settings of the hub,
  the secret store, random bytes in the order they are drawn, and Curve25519.
\<close>

section \<open>Configuration files\<close>

record WireGuardHub =
  hubListenPort :: int
  hubSubnet :: string
  hubAddress :: string
  hubTopology :: string
  hubIPv6Subnet :: string
  hubIPv6Address :: string

record WireGuardPeerConfig =
  wpcPublicKey :: string
  wpcPresharedKey :: string
  wpcAllowedIPs :: "string list"
  wpcEndpoint :: string
  wpcPersistentKeepalive :: int

record WireGuardConfig =
  wgcPrivateKey :: string
  wgcAddress :: string
  wgcListenPort :: int
  wgcDNS :: string
  wgcPeers :: "WireGuardPeerConfig list"

definition newline :: string where "newline = [CHR 0x0A]"

definition render_line :: "string \<Rightarrow> string \<Rightarrow> string" where
  "render_line key v = key @ '' = '' @ v @ newline"

definition render_peer :: "WireGuardPeerConfig \<Rightarrow> string" where
  "render_peer p =
     newline @ ''[Peer]'' @ newline @ render_line ''PublicKey'' (wpcPublicKey p) @
     (if wpcPresharedKey p \<noteq> '''' then render_line ''PresharedKey'' (wpcPresharedKey p) else '''') @
     (if wpcAllowedIPs p \<noteq> [] then render_line ''AllowedIPs'' (Join (wpcAllowedIPs p) '', '') else '''') @
     (if wpcEndpoint p \<noteq> '''' then render_line ''Endpoint'' (wpcEndpoint p) else '''') @
     (if wpcPersistentKeepalive p > 0 then render_line ''PersistentKeepalive'' (itoa (wpcPersistentKeepalive p)) else '''')"

definition Render :: "WireGuardConfig \<Rightarrow> string" where
  "Render c =
     ''[Interface]'' @ newline @ render_line ''PrivateKey'' (wgcPrivateKey c) @ render_line ''Address'' (wgcAddress c) @
     (if wgcListenPort c > 0 then render_line ''ListenPort'' (itoa (wgcListenPort c)) else '''') @
     (if wgcDNS c \<noteq> '''' then render_line ''DNS'' (wgcDNS c) else '''') @
     concat (map render_peer (wgcPeers c))"

section \<open>BGP sessions\<close>

record CreateBGPSessionRequest =
  cbNodeID :: ID
  cbPeerASN :: "32 word"
  cbPeerAddress :: string
  cbLocalASN :: "32 word"
  cbAnnouncedPrefixes :: "string list"
  cbImportPolicy :: string
  cbExportPolicy :: string

record UpdateBGPSessionRequest =
  ubPeerASN :: "32 word option"
  ubPeerAddress :: "string option"
  ubLocalASN :: "32 word option"
  ubStatus :: "BGPSessionStatus option"
  ubAnnouncedPrefixes :: "string list option"
  ubImportPolicy :: "string option"
  ubExportPolicy :: "string option"

definition request_bgp :: "ID \<Rightarrow> CreateBGPSessionRequest \<Rightarrow> BGPSession" where
  "request_bgp i req =
     \<lparr>bgpID = i, bgpNodeID = cbNodeID req, bgpPeerASN = cbPeerASN req, bgpPeerAddress = cbPeerAddress req,
      bgpLocalASN = cbLocalASN req, bgpStatus = BGPSessionConfigured,
      bgpAnnouncedPrefixes = cbAnnouncedPrefixes req, bgpImportPolicy = cbImportPolicy req,
      bgpExportPolicy = cbExportPolicy req, bgpMetadata = '''', bgpCreatedAt = 0, bgpUpdatedAt = 0\<rparr>"

definition Net_CreateBGPSession :: "svc_env \<Rightarrow> CreateBGPSessionRequest \<Rightarrow> db \<Rightarrow> BGPSession dbres" where
  "Net_CreateBGPSession env req d =
     (case GetNode (svDB env ''get node'') (cbNodeID req) d of
        Inl e \<Rightarrow> (Inl (Wrapf ''node not found'' e), d)
      | Inr _ \<Rightarrow>
          if cbPeerASN req = 0 then (Inl (Errorf ''peer_asn is required''), d)
          else if cbPeerAddress req = '''' then (Inl (Errorf ''peer_address is required''), d)
          else if ParseIP (cbPeerAddress req) = None then (Inl (Errorf ''invalid peer_address''), d)
          else if cbLocalASN req = 0 then (Inl (Errorf ''local_asn is required''), d)
          else wrap ''create bgp session''
                 (CreateBGPSession (svDB env ''create'') (svNow env) (request_bgp (svNewID env) req) d))"

definition Net_GetBGPSession :: "svc_env \<Rightarrow> ID \<Rightarrow> db \<Rightarrow> BGPSession result" where
  "Net_GetBGPSession env i d = GetBGPSession (svDB env ''get'') i d"

definition Net_ListBGPSessions :: "svc_env \<Rightarrow> ID \<Rightarrow> ListParams \<Rightarrow> db \<Rightarrow> (BGPSession list \<times> int) result" where
  "Net_ListBGPSessions env nid p d = ListBGPSessions (svDB env ''list'') nid p d"

definition update_bgp_fields :: "UpdateBGPSessionRequest \<Rightarrow> BGPSession \<Rightarrow> BGPSession result" where
  "update_bgp_fields req s =
     (let s = (case ubPeerASN req of None \<Rightarrow> s | Some x \<Rightarrow> s\<lparr>bgpPeerASN := x\<rparr>)
      in if (case ubPeerAddress req of None \<Rightarrow> False | Some x \<Rightarrow> ParseIP x = None)
         then Inl (Errorf ''invalid peer_address'')
         else
           (let s = (case ubPeerAddress req of None \<Rightarrow> s | Some x \<Rightarrow> s\<lparr>bgpPeerAddress := x\<rparr>);
                s = (case ubLocalASN req of None \<Rightarrow> s | Some x \<Rightarrow> s\<lparr>bgpLocalASN := x\<rparr>);
                s = (case ubStatus req of None \<Rightarrow> s | Some x \<Rightarrow> s\<lparr>bgpStatus := x\<rparr>);
                s = (case ubAnnouncedPrefixes req of None \<Rightarrow> s | Some x \<Rightarrow> s\<lparr>bgpAnnouncedPrefixes := x\<rparr>);
                s = (case ubImportPolicy req of None \<Rightarrow> s | Some x \<Rightarrow> s\<lparr>bgpImportPolicy := x\<rparr>)
            in Inr (case ubExportPolicy req of None \<Rightarrow> s | Some x \<Rightarrow> s\<lparr>bgpExportPolicy := x\<rparr>)))"

definition Net_UpdateBGPSession :: "svc_env \<Rightarrow> ID \<Rightarrow> UpdateBGPSessionRequest \<Rightarrow> db \<Rightarrow> BGPSession dbres" where
  "Net_UpdateBGPSession env i req d =
     (case GetBGPSession (svDB env ''get'') i d of
        Inl e \<Rightarrow> (Inl e, d)
      | Inr s \<Rightarrow>
          (case update_bgp_fields req s of
             Inl e \<Rightarrow> (Inl e, d)
           | Inr s \<Rightarrow> wrap ''update bgp session'' (UpdateBGPSession (svDB env ''update'') (svNow env) s d)))"

definition Net_DeleteBGPSession :: "svc_env \<Rightarrow> ID \<Rightarrow> db \<Rightarrow> unit dbres" where
  "Net_DeleteBGPSession env i d = DeleteBGPSession (svDB env ''delete'') i d"

section \<open>Address allocations\<close>

record CreateIPAllocationRequest =
  ciTenantID :: ID
  ciPrefix :: string
  ciType :: IPAllocationType
  ciPurpose :: IPAllocationPurpose

definition Net_CreateIPAllocation :: "svc_env \<Rightarrow> CreateIPAllocationRequest \<Rightarrow> db \<Rightarrow> IPAllocation dbres" where
  "Net_CreateIPAllocation env req d =
     (if ciPrefix req = '''' then (Inl (Errorf ''prefix is required''), d)
      else if ParseCIDR (ciPrefix req) = None then (Inl (Errorf ''invalid CIDR prefix''), d)
      else if ciType req = IPAllocationTypeOther '''' then (Inl (Errorf ''type is required''), d)
      else if ciPurpose req = IPAllocationPurposeOther '''' then (Inl (Errorf ''purpose is required''), d)
      else wrap ''create ip allocation''
             (CreateIPAllocation (svDB env ''create'') (svNow env)
                \<lparr>ipID = svNewID env, ipTenantID = ciTenantID req, ipPrefix = ciPrefix req, ipType = ciType req,
                 ipPurpose = ciPurpose req, ipStatus = IPAllocationPending, ipCreatedAt = 0, ipUpdatedAt = 0\<rparr> d))"

definition Net_GetIPAllocation :: "svc_env \<Rightarrow> ID \<Rightarrow> db \<Rightarrow> IPAllocation result" where
  "Net_GetIPAllocation env i d = GetIPAllocation (svDB env ''get'') i d"

definition Net_ListIPAllocations :: "svc_env \<Rightarrow> ID \<Rightarrow> ListParams \<Rightarrow> db \<Rightarrow> (IPAllocation list \<times> int) result" where
  "Net_ListIPAllocations env tenant p d = ListIPAllocations (svDB env ''list'') tenant p d"

definition Net_UpdateIPAllocation :: "svc_env \<Rightarrow> ID \<Rightarrow> IPAllocationStatus option \<Rightarrow> db \<Rightarrow> IPAllocation dbres" where
  "Net_UpdateIPAllocation env i st d =
     (case GetIPAllocation (svDB env ''get'') i d of
        Inl e \<Rightarrow> (Inl e, d)
      | Inr a \<Rightarrow>
          (let a = (case st of None \<Rightarrow> a | Some x \<Rightarrow> a\<lparr>ipStatus := x\<rparr>)
           in wrap ''update ip allocation'' (UpdateIPAllocation (svDB env ''update'') (svNow env) a d)))"

definition Net_DeleteIPAllocation :: "svc_env \<Rightarrow> ID \<Rightarrow> db \<Rightarrow> unit dbres" where
  "Net_DeleteIPAllocation env i d = DeleteIPAllocation (svDB env ''delete'') i d"

section \<open>WireGuard\<close>

record net_env =
  neHub :: WireGuardHub
  neStore :: SecretStore
  neRandKey :: "8 word list result"
  neRandPSK :: "8 word list result"
  neNonce :: "nat \<Rightarrow> string result"
  neX25519 :: "8 word list \<Rightarrow> 8 word list result"

text \<open>\<open>base64.StdEncoding\<close> of the key bytes.\<close>

definition encode_key :: "8 word list \<Rightarrow> string" where
  "encode_key k = StdEncode (map (\<lambda>b. char_of (unat b)) k)"

definition Net_ListWireGuardPeers :: "svc_env \<Rightarrow> ListParams \<Rightarrow> db \<Rightarrow> (WireGuardPeer list \<times> int) result" where
  "Net_ListWireGuardPeers env p d = ListWireGuardPeers (svDB env ''list'') p d"

text \<open>The preshared key of a peer, decrypted if it has one.\<close>

definition peer_psk :: "SecretStore \<Rightarrow> WireGuardPeer \<Rightarrow> string result" where
  "peer_psk st p = (if peerPresharedKey p \<noteq> '''' then Decrypt st (peerPresharedKey p) else Inr '''')"

definition hub_side_peer :: "WireGuardPeer \<Rightarrow> string \<Rightarrow> WireGuardPeerConfig" where
  "hub_side_peer p psk =
     \<lparr>wpcPublicKey = peerPublicKey p, wpcPresharedKey = psk, wpcAllowedIPs = peerAllowedIPs p,
      wpcEndpoint = peerEndpoint p, wpcPersistentKeepalive = 0\<rparr>"

fun hub_peer_configs :: "SecretStore \<Rightarrow> WireGuardPeer list \<Rightarrow> WireGuardPeerConfig list result" where
  "hub_peer_configs st [] = Inr []"
| "hub_peer_configs st (p # ps) =
     (if peerOwnerType p = PeerOwnerController then hub_peer_configs st ps
      else (case peer_psk st p of
              Inl e \<Rightarrow> Inl (Wrapf ''decrypt preshared key for peer'' e)
            | Inr psk \<Rightarrow>
                (case hub_peer_configs st ps of
                   Inl e \<Rightarrow> Inl e
                 | Inr pcs \<Rightarrow> Inr (hub_side_peer p psk # pcs))))"

definition hub_config :: "svc_env \<Rightarrow> net_env \<Rightarrow> db \<Rightarrow> WireGuardConfig result" where
  "hub_config env ne d =
     (case GetWireGuardPeerByOwner (svDB env ''get controller peer'') PeerOwnerController ControllerPeerID d of
        Inl e \<Rightarrow> Inl (Wrapf ''get controller peer'' e)
      | Inr ctrlPeer \<Rightarrow>
     (case Decrypt (neStore ne) (peerPrivateKey ctrlPeer) of
        Inl e \<Rightarrow> Inl (Wrapf ''decrypt controller private key'' e)
      | Inr privKey \<Rightarrow>
     (case ListWireGuardPeers (svDB env ''list peers'') listLimit d of
        Inl e \<Rightarrow> Inl (Wrapf ''list peers'' e)
      | Inr (allPeers, _) \<Rightarrow>
     (case hub_peer_configs (neStore ne) allPeers of
        Inl e \<Rightarrow> Inl e
      | Inr peerConfigs \<Rightarrow>
          Inr \<lparr>wgcPrivateKey = privKey,
               wgcAddress = (if hubIPv6Address (neHub ne) \<noteq> ''''
                             then hubAddress (neHub ne) @ '', '' @ hubIPv6Address (neHub ne)
                             else hubAddress (neHub ne)),
               wgcListenPort = hubListenPort (neHub ne), wgcDNS = '''', wgcPeers = peerConfigs\<rparr>))))"

definition GenerateHubConfig :: "svc_env \<Rightarrow> net_env \<Rightarrow> db \<Rightarrow> string result" where
  "GenerateHubConfig env ne d = (case hub_config env ne d of Inl e \<Rightarrow> Inl e | Inr c \<Rightarrow> Inr (Render c))"

text \<open>The loops of \<open>generateMeshPeers\<close>: the other members of the groups, each once, then a peer for each.\<close>

definition new_members :: "ID list \<Rightarrow> Node list \<Rightarrow> Node list" where
  "new_members seen members =
     fold (\<lambda>m acc. if nodeID m \<in> set seen \<union> nodeID ` set acc then acc else acc @ [m]) members []"

fun mesh_members ::
    "svc_env \<Rightarrow> nat \<Rightarrow> ID list \<Rightarrow> NodeGroup list \<Rightarrow> db \<Rightarrow> Node list result" where
  "mesh_members env k seen [] d = Inr []"
| "mesh_members env k seen (g # gs) d =
     (case ListGroupNodes (svDB env (round_label ''list group nodes'' k)) (groupID g) d of
        Inl e \<Rightarrow> Inl (Wrapf ''list group nodes'' e)
      | Inr members \<Rightarrow>
          (let new = new_members seen members
           in case mesh_members env (k + 1) (map nodeID new @ seen) gs d of
                Inl e \<Rightarrow> Inl e
              | Inr rest \<Rightarrow> Inr (new @ rest)))"

definition node_allowed_ips :: "Node \<Rightarrow> string list" where
  "node_allowed_ips n =
     (nodeWireGuardIP n @ ''/32'') # (if nodeWireGuardIPv6 n \<noteq> '''' then [nodeWireGuardIPv6 n @ ''/128''] else [])"

definition mesh_peer :: "WireGuardHub \<Rightarrow> Node \<Rightarrow> WireGuardPeer \<Rightarrow> WireGuardPeerConfig" where
  "mesh_peer hub n p =
     \<lparr>wpcPublicKey = peerPublicKey p, wpcPresharedKey = '''', wpcAllowedIPs = node_allowed_ips n,
      wpcEndpoint = (if nodePublicIP n \<noteq> '''' \<and> hubListenPort hub > 0
                     then nodePublicIP n @ '':'' @ itoa (hubListenPort hub) else ''''),
      wpcPersistentKeepalive = 25\<rparr>"

fun mesh_peer_configs :: "svc_env \<Rightarrow> nat \<Rightarrow> WireGuardHub \<Rightarrow> Node list \<Rightarrow> db \<Rightarrow> WireGuardPeerConfig list" where
  "mesh_peer_configs env k hub [] d = []"
| "mesh_peer_configs env k hub (n # ns) d =
     (if nodeWireGuardIP n = '''' then mesh_peer_configs env (k + 1) hub ns d
      else (case GetWireGuardPeerByOwner (svDB env (round_label ''get peer'' k)) PeerOwnerNode (nodeID n) d of
              Inl _ \<Rightarrow> mesh_peer_configs env (k + 1) hub ns d
            | Inr p \<Rightarrow> mesh_peer hub n p # mesh_peer_configs env (k + 1) hub ns d))"

definition generateMeshPeers ::
    "svc_env \<Rightarrow> net_env \<Rightarrow> Node \<Rightarrow> db \<Rightarrow> (WireGuardPeerConfig list \<times> int) result" where
  "generateMeshPeers env ne n d =
     (case ListNodeGroups_ByNode (svDB env ''list node groups'') (nodeID n) d of
        Inl e \<Rightarrow> Inl (Wrapf ''list node groups for node'' e)
      | Inr groups \<Rightarrow>
          if groups = [] then Inr ([], 0)
          else (case mesh_members env 0 [nodeID n] groups d of
                  Inl e \<Rightarrow> Inl e
                | Inr peerNodes \<Rightarrow>
                    Inr (mesh_peer_configs env 0 (neHub ne) peerNodes d, hubListenPort (neHub ne))))"

definition hub_peer :: "WireGuardHub \<Rightarrow> WireGuardPeer \<Rightarrow> string \<Rightarrow> WireGuardPeerConfig" where
  "hub_peer hub ctrlPeer psk =
     \<lparr>wpcPublicKey = peerPublicKey ctrlPeer, wpcPresharedKey = psk,
      wpcAllowedIPs = hubSubnet hub # (if hubIPv6Subnet hub \<noteq> '''' then [hubIPv6Subnet hub] else []),
      wpcEndpoint = peerEndpoint ctrlPeer, wpcPersistentKeepalive = 25\<rparr>"

definition spoke_config :: "svc_env \<Rightarrow> net_env \<Rightarrow> ID \<Rightarrow> db \<Rightarrow> WireGuardConfig result" where
  "spoke_config env ne nid d =
     (case GetNode (svDB env ''get node'') nid d of
        Inl e \<Rightarrow> Inl (Wrapf ''get node'' e)
      | Inr n \<Rightarrow>
     (case GetWireGuardPeerByOwner (svDB env ''get node peer'') PeerOwnerNode nid d of
        Inl e \<Rightarrow> Inl (Wrapf ''get node peer'' e)
      | Inr nodePeer \<Rightarrow>
     (case Decrypt (neStore ne) (peerPrivateKey nodePeer) of
        Inl e \<Rightarrow> Inl (Wrapf ''decrypt node private key'' e)
      | Inr nodePrivKey \<Rightarrow>
     (case GetWireGuardPeerByOwner (svDB env ''get controller peer'') PeerOwnerController ControllerPeerID d of
        Inl e \<Rightarrow> Inl (Wrapf ''get controller peer'' e)
      | Inr ctrlPeer \<Rightarrow>
     (case peer_psk (neStore ne) nodePeer of
        Inl e \<Rightarrow> Inl (Wrapf ''decrypt node preshared key'' e)
      | Inr psk \<Rightarrow>
          if nodeWireGuardIP n = '''' then Inl (Errorf ''node has no WireGuard IP assigned'')
          else
            (case (if hubTopology (neHub ne) = ''mesh'' then generateMeshPeers env ne n d else Inr ([], 0)) of
               Inl e \<Rightarrow> Inl (Wrapf ''generate mesh peers'' e)
             | Inr (meshPeers, listenPort) \<Rightarrow>
                 Inr \<lparr>wgcPrivateKey = nodePrivKey,
                      wgcAddress = (if nodeWireGuardIPv6 n \<noteq> ''''
                                    then nodeWireGuardIP n @ ''/32, '' @ nodeWireGuardIPv6 n @ ''/128''
                                    else nodeWireGuardIP n @ ''/32''),
                      wgcListenPort = listenPort, wgcDNS = '''',
                      wgcPeers = hub_peer (neHub ne) ctrlPeer psk # meshPeers\<rparr>))))))"

definition Net_GenerateNodeConfig :: "svc_env \<Rightarrow> net_env \<Rightarrow> ID \<Rightarrow> db \<Rightarrow> string result" where
  "Net_GenerateNodeConfig env ne nid d =
     (case spoke_config env ne nid d of Inl e \<Rightarrow> Inl e | Inr c \<Rightarrow> Inr (Render c))"

definition RotateWireGuardKeys :: "svc_env \<Rightarrow> net_env \<Rightarrow> ID \<Rightarrow> db \<Rightarrow> WireGuardPeer dbres" where
  "RotateWireGuardKeys env ne i d =
     (case GetWireGuardPeer (svDB env ''get peer'') i d of
        Inl e \<Rightarrow> (Inl (Wrapf ''get wireguard peer'' e), d)
      | Inr peer \<Rightarrow>
     (case GenerateWireGuardKeyPair (neRandKey ne) (neX25519 ne) encode_key of
        Inl e \<Rightarrow> (Inl (Wrapf ''generate new wireguard keypair'' e), d)
      | Inr kp \<Rightarrow>
     (case Encrypt (neStore ne) (neNonce ne 0) (kpPrivateKey kp) of
        Inl e \<Rightarrow> (Inl (Wrapf ''encrypt new private key'' e), d)
      | Inr encPriv \<Rightarrow>
     (case GeneratePresharedKey (neRandPSK ne) encode_key of
        Inl e \<Rightarrow> (Inl (Wrapf ''generate new preshared key'' e), d)
      | Inr psk \<Rightarrow>
     (case Encrypt (neStore ne) (neNonce ne 1) psk of
        Inl e \<Rightarrow> (Inl (Wrapf ''encrypt new preshared key'' e), d)
      | Inr encPSK \<Rightarrow>
          (case wrap ''update wireguard peer''
                  (UpdateWireGuardPeer (svDB env ''update'') (svNow env)
                     (peer\<lparr>peerPublicKey := kpPublicKey kp, peerPrivateKey := encPriv, peerPresharedKey := encPSK,
                           peerLastRotatedAt := svNow env, peerUpdatedAt := svNow env\<rparr>) d) of
             (Inl e, d') \<Rightarrow> (Inl e, d')
           | (Inr p, d') \<Rightarrow> (Inr (p\<lparr>peerPrivateKey := '''', peerPresharedKey := ''''\<rparr>), d')))))))"

record NodeNetworkingState =
  nnsNodeID :: ID
  nnsWireGuardIP :: string
  nnsWireGuardPeer :: "WireGuardPeer option"
  nnsBGPSessions :: "BGPSession list"

definition GetNodeNetworkingState :: "svc_env \<Rightarrow> ID \<Rightarrow> db \<Rightarrow> NodeNetworkingState result" where
  "GetNodeNetworkingState env nid d =
     (case GetNode (svDB env ''get node'') nid d of
        Inl e \<Rightarrow> Inl (Wrapf ''get node'' e)
      | Inr n \<Rightarrow>
          (case ListBGPSessions (svDB env ''list sessions'') nid \<lparr>lpOffset = 0, lpLimit = 1000\<rparr> d of
             Inl e \<Rightarrow> Inl (Wrapf ''list bgp sessions'' e)
           | Inr (sessions, _) \<Rightarrow>
               Inr \<lparr>nnsNodeID = nid, nnsWireGuardIP = nodeWireGuardIP n,
                    nnsWireGuardPeer = (case GetWireGuardPeerByOwner (svDB env ''get peer'') PeerOwnerNode nid d of
                                          Inl _ \<Rightarrow> None | Inr p \<Rightarrow> Some p),
                    nnsBGPSessions = sessions\<rparr>))"

section \<open>The controller's peer\<close>

definition BootstrapControllerPeer :: "svc_env \<Rightarrow> net_env \<Rightarrow> ID \<Rightarrow> db \<Rightarrow> WireGuardPeer dbres" where
  "BootstrapControllerPeer env ne controllerID d =
     (case GetWireGuardPeerByOwner (svDB env ''get peer'') PeerOwnerController controllerID d of
        Inr existing \<Rightarrow> (Inr existing, d)
      | Inl e \<Rightarrow>
          if e \<noteq> ErrNotFound then (Inl (Wrapf ''check controller peer'' e), d)
          else
     (case GenerateWireGuardKeyPair (neRandKey ne) (neX25519 ne) encode_key of
        Inl e \<Rightarrow> (Inl (Wrapf ''generate wireguard keys'' e), d)
      | Inr kp \<Rightarrow>
     (case GeneratePresharedKey (neRandPSK ne) encode_key of
        Inl e \<Rightarrow> (Inl (Wrapf ''generate preshared key'' e), d)
      | Inr psk \<Rightarrow>
     (case Encrypt (neStore ne) (neNonce ne 0) (kpPrivateKey kp) of
        Inl e \<Rightarrow> (Inl (Wrapf ''encrypt private key'' e), d)
      | Inr encPriv \<Rightarrow>
     (case Encrypt (neStore ne) (neNonce ne 1) psk of
        Inl e \<Rightarrow> (Inl (Wrapf ''encrypt preshared key'' e), d)
      | Inr encPSK \<Rightarrow>
          wrap ''create controller peer''
            (CreateWireGuardPeer (svDB env ''create'') (svNow env)
               \<lparr>peerID = svNewID env, peerOwnerType = PeerOwnerController, peerOwnerID = controllerID,
                peerPublicKey = kpPublicKey kp, peerPrivateKey = encPriv, peerPresharedKey = encPSK,
                peerAllowedIPs = [hubSubnet (neHub ne)],
                peerEndpoint = (if hubListenPort (neHub ne) > 0 then '':'' @ itoa (hubListenPort (neHub ne)) else ''''),
                peerLastRotatedAt = 0, peerCreatedAt = 0, peerUpdatedAt = 0\<rparr> d))))))"

section \<open>The two ends of a tunnel\<close>

lemma hub_peer_configs_mem:
  assumes "hub_peer_configs st ps = Inr pcs" "p \<in> set ps" "peerOwnerType p \<noteq> PeerOwnerController"
  shows "\<exists>psk. peer_psk st p = Inr psk \<and> hub_side_peer p psk \<in> set pcs"
  using assms
  by (induction st ps arbitrary: pcs rule: hub_peer_configs.induct)
     (fastforce split: if_splits sum.splits)+

lemma hub_config_parts:
  assumes "hub_config env ne d = Inr hub"
  obtains cp where
    "find (\<lambda>p. peerOwnerType p = PeerOwnerController \<and> peerOwnerID p = ControllerPeerID) (dbPeers d) = Some cp"
    "Decrypt (neStore ne) (peerPrivateKey cp) = Inr (wgcPrivateKey hub)"
    "hub_peer_configs (neStore ne) (page listLimit (newest_first peerCreatedAt (dbPeers d))) = Inr (wgcPeers hub)"
  using assms
  by (auto simp: hub_config_def GetWireGuardPeerByOwner_def ListWireGuardPeers_def sql_list_def sql_query_def
      split: sum.splits option.splits)

lemma spoke_config_parts:
  assumes "spoke_config env ne nid d = Inr cfg"
  obtains np cp psk rest where
    "find (\<lambda>p. peerOwnerType p = PeerOwnerNode \<and> peerOwnerID p = nid) (dbPeers d) = Some np"
    "find (\<lambda>p. peerOwnerType p = PeerOwnerController \<and> peerOwnerID p = ControllerPeerID) (dbPeers d) = Some cp"
    "Decrypt (neStore ne) (peerPrivateKey np) = Inr (wgcPrivateKey cfg)"
    "peer_psk (neStore ne) np = Inr psk"
    "wgcPeers cfg = hub_peer (neHub ne) cp psk # rest"
proof -
  from assms obtain n where n: "GetNode (svDB env ''get node'') nid d = Inr n"
    by (auto simp: spoke_config_def split: sum.splits)
  from assms n obtain np where np: "GetWireGuardPeerByOwner (svDB env ''get node peer'') PeerOwnerNode nid d = Inr np"
    by (auto simp: spoke_config_def split: sum.splits)
  from assms n np obtain k where k: "Decrypt (neStore ne) (peerPrivateKey np) = Inr k"
    by (auto simp: spoke_config_def split: sum.splits)
  from assms n np k obtain cp where
    cp: "GetWireGuardPeerByOwner (svDB env ''get controller peer'') PeerOwnerController ControllerPeerID d = Inr cp"
    by (auto simp: spoke_config_def split: sum.splits)
  from assms n np k cp obtain psk where
    psk: "peer_psk (neStore ne) np = Inr psk"
    by (auto simp: spoke_config_def split: sum.splits if_splits)
  from assms obtain rest where "wgcPeers cfg = hub_peer (neHub ne) cp psk # rest" "wgcPrivateKey cfg = k"
    unfolding spoke_config_def n np k cp psk sum.case by (auto split: if_splits sum.splits)
  moreover have "find (\<lambda>p. peerOwnerType p = PeerOwnerNode \<and> peerOwnerID p = nid) (dbPeers d) = Some np"
    "find (\<lambda>p. peerOwnerType p = PeerOwnerController \<and> peerOwnerID p = ControllerPeerID) (dbPeers d) = Some cp"
    using np cp by (simp_all add: GetWireGuardPeerByOwner_def)
  ultimately show thesis using that k psk by blast
qed

text \<open>
  C16: the configurations of the hub and of a node describe the same tunnel.  The hub lists
  the node under the public key stored with the private key that the node is given, and
  the node lists the hub under the public key stored with the hub's private key; both
  use the same preshared key.
\<close>

theorem tunnel_ends_match:
  assumes "hub_config env ne d = Inr hub" "spoke_config env' ne nid d = Inr spoke" "length (dbPeers d) \<le> 10000"
  shows "\<exists>np cp hubSide. np \<in> set (dbPeers d) \<and> cp \<in> set (dbPeers d) \<and> hubSide \<in> set (wgcPeers hub) \<and>
     Decrypt (neStore ne) (peerPrivateKey np) = Inr (wgcPrivateKey spoke) \<and>
     Decrypt (neStore ne) (peerPrivateKey cp) = Inr (wgcPrivateKey hub) \<and>
     wpcPublicKey hubSide = peerPublicKey np \<and> wpcPublicKey (hd (wgcPeers spoke)) = peerPublicKey cp \<and>
     wpcPresharedKey hubSide = wpcPresharedKey (hd (wgcPeers spoke)) \<and>
     peerOwnerType np = PeerOwnerNode \<and> peerOwnerID np = nid"
proof -
  from hub_config_parts [OF assms(1)] obtain cp where
    cp: "find (\<lambda>p. peerOwnerType p = PeerOwnerController \<and> peerOwnerID p = ControllerPeerID) (dbPeers d) = Some cp"
    "Decrypt (neStore ne) (peerPrivateKey cp) = Inr (wgcPrivateKey hub)"
    and all: "hub_peer_configs (neStore ne) (page listLimit (newest_first peerCreatedAt (dbPeers d))) = Inr (wgcPeers hub)" .
  from spoke_config_parts [OF assms(2)] obtain np cp' psk rest where
    cp': "find (\<lambda>p. peerOwnerType p = PeerOwnerController \<and> peerOwnerID p = ControllerPeerID) (dbPeers d) = Some cp'"
    and np: "find (\<lambda>p. peerOwnerType p = PeerOwnerNode \<and> peerOwnerID p = nid) (dbPeers d) = Some np"
    "Decrypt (neStore ne) (peerPrivateKey np) = Inr (wgcPrivateKey spoke)"
    "peer_psk (neStore ne) np = Inr psk"
    "wgcPeers spoke = hub_peer (neHub ne) cp' psk # rest" .
  have "cp' = cp" using cp(1) cp' by simp
  note np = np [unfolded this]
  have mem: "np \<in> set (dbPeers d)" "peerOwnerType np = PeerOwnerNode" "peerOwnerID np = nid" "cp \<in> set (dbPeers d)"
    using np(1) cp(1) by (auto dest: find_SomeD)
  have "page listLimit (newest_first peerCreatedAt (dbPeers d)) = newest_first peerCreatedAt (dbPeers d)"
    using assms(3) by (simp add: page_def listLimit_def newest_first_def)
  then have "np \<in> set (page listLimit (newest_first peerCreatedAt (dbPeers d)))"
    using mem(1) by (simp add: newest_first_def)
  from hub_peer_configs_mem [OF all this] mem(2) np(3) obtain hubSide where
    "hubSide \<in> set (wgcPeers hub)" "wpcPublicKey hubSide = peerPublicKey np" "wpcPresharedKey hubSide = psk"
    by (fastforce simp: hub_side_peer_def)
  then show ?thesis using mem cp(2) np(2,4) by (auto simp: hub_peer_def hub_side_peer_def)
qed

section \<open>The hub's endpoint\<close>


section \<open>Mesh peers\<close>

lemma fold_new_members:
  assumes "inj_on nodeID (set members \<union> set acc)"
  shows "set (fold (\<lambda>m acc. if nodeID m \<in> set seen \<union> nodeID ` set acc then acc else acc @ [m]) members acc) =
     set acc \<union> {m \<in> set members. nodeID m \<notin> set seen}"
  using assms
proof (induction members arbitrary: acc)
  case (Cons m members)
  have same: "m \<in> set acc" if "nodeID m \<in> nodeID ` set acc"
    using that Cons.prems by (auto dest: inj_onD)
  have "inj_on nodeID (set members \<union> set acc)" "inj_on nodeID (set members \<union> set (acc @ [m]))"
    using Cons.prems by (auto simp: inj_on_def)
  note IH = Cons.IH [OF this(1)] Cons.IH [OF this(2)]
  show ?case
  proof (cases "nodeID m \<in> set seen \<union> nodeID ` set acc")
    case True
    then show ?thesis using IH(1) same by auto
  next
    case False
    then show ?thesis using IH(2) by auto
  qed
qed simp

definition bare :: "Node \<Rightarrow> Node" where "bare m = m\<lparr>nodeCapabilities := []\<rparr>"

lemma bare_sel [simp]:
  "nodeID (bare m) = nodeID m" "nodeWireGuardIP (bare m) = nodeWireGuardIP m" "mesh_peer hub (bare m) p = mesh_peer hub m p"
  by (simp_all add: bare_def mesh_peer_def node_allowed_ips_def)

lemma mesh_members_set:
  assumes "mesh_members env k seen gs d = Inr ms" "distinct (map nodeID (dbNodes d))"
  shows "set ms = bare ` {m \<in> set (dbNodes d). nodeID m \<notin> set seen \<and>
     (\<exists>g\<in>set gs. (groupID g, nodeID m) \<in> set (dbMembers d))}"
  using assms
proof (induction gs arbitrary: k seen ms)
  case (Cons g gs)
  obtain members rest where
    list: "ListGroupNodes (svDB env (round_label ''list group nodes'' k)) (groupID g) d = Inr members"
    and rest: "mesh_members env (k + 1)
      (map nodeID (new_members seen members) @ seen)
      gs d = Inr rest"
    and ms: "ms = new_members seen members @ rest"
    using Cons.prems(1) by (auto simp: Let_def split: sum.splits)
  have members: "set members = bare ` {m \<in> set (dbNodes d). (groupID g, nodeID m) \<in> set (dbMembers d)}"
    using list by (auto simp: ListGroupNodes_def sql_query_def bare_def split: option.splits)
  have inj: "inj_on nodeID (set (dbNodes d))" using Cons.prems(2) by (simp add: distinct_map)
  then have "inj_on nodeID (set members \<union> set [])" unfolding members by (auto simp: inj_on_def)
  then have new: "set (new_members seen members) = {m \<in> set members. nodeID m \<notin> set seen}"
    using fold_new_members [of members "[]" seen] by (simp add: new_members_def)
  have ids: "set (map nodeID (new_members seen members) @ seen) =
      set seen \<union> {nodeID m |m. m \<in> set (dbNodes d) \<and> (groupID g, nodeID m) \<in> set (dbMembers d)}"
  proof -
    have "nodeID ` {m \<in> bare ` A. nodeID m \<notin> set seen} = {nodeID m |m. m \<in> A \<and> nodeID m \<notin> set seen}" for A
      by (force simp: image_iff)
    then show ?thesis by (auto simp: new members)
  qed
  have rest_set: "set rest = bare ` {m \<in> set (dbNodes d). nodeID m \<notin> set seen \<union>
      {nodeID m |m. m \<in> set (dbNodes d) \<and> (groupID g, nodeID m) \<in> set (dbMembers d)} \<and>
      (\<exists>g\<in>set gs. (groupID g, nodeID m) \<in> set (dbMembers d))}"
    using Cons.IH [OF rest Cons.prems(2)] unfolding ids .
  have first_set: "set (new_members seen members) =
      bare ` {m \<in> set (dbNodes d). nodeID m \<notin> set seen \<and> (groupID g, nodeID m) \<in> set (dbMembers d)}"
    unfolding new members by auto
  show ?case
    unfolding ms set_append first_set rest_set image_Un [symmetric] by (rule arg_cong [where f = "image bare"]) auto
qed simp

lemma mesh_peer_configs_set:
  assumes "\<And>l. connErr (svDB env l) = None"
  shows "set (mesh_peer_configs env k hub ms d) =
     {mesh_peer hub m p |m p. m \<in> set ms \<and> nodeWireGuardIP m \<noteq> '''' \<and>
        find (\<lambda>p. peerOwnerType p = PeerOwnerNode \<and> peerOwnerID p = nodeID m) (dbPeers d) = Some p}"
  using assms
  by (induction env k hub ms d rule: mesh_peer_configs.induct)
     (auto simp: GetWireGuardPeerByOwner_def sql_row_def split: option.splits)

text \<open>
  C24: in a mesh, a node's direct peers are exactly the other nodes that share a group with
  it, have an overlay address and a registered peer, each with its own address as the
  only route; so two such nodes always list each other.
\<close>

theorem mesh_peers_exact:
  assumes "generateMeshPeers env ne n d = Inr (peers, port)" "distinct (map nodeID (dbNodes d))"
    and "\<And>l. connErr (svDB env l) = None"
  shows "set peers = {mesh_peer (neHub ne) m p |m p g.
     m \<in> set (dbNodes d) \<and> nodeID m \<noteq> nodeID n \<and> nodeWireGuardIP m \<noteq> '''' \<and>
     g \<in> set (dbGroups d) \<and> (groupID g, nodeID n) \<in> set (dbMembers d) \<and> (groupID g, nodeID m) \<in> set (dbMembers d) \<and>
     find (\<lambda>p. peerOwnerType p = PeerOwnerNode \<and> peerOwnerID p = nodeID m) (dbPeers d) = Some p}"
proof -
  obtain gs where "ListNodeGroups_ByNode (svDB env ''list node groups'') (nodeID n) d = Inr gs"
    and gs: "if gs = [] then peers = [] else
      \<exists>ms. mesh_members env 0 [nodeID n] gs d = Inr ms \<and> peers = mesh_peer_configs env 0 (neHub ne) ms d"
    using assms(1) by (auto simp: generateMeshPeers_def split: sum.splits if_splits)
  then have mem: "g \<in> set gs \<longleftrightarrow> g \<in> set (dbGroups d) \<and> (groupID g, nodeID n) \<in> set (dbMembers d)" for g
    by (auto simp: ListNodeGroups_ByNode_def sql_query_def split: option.splits)
  obtain ms where ms: "set ms = bare ` {m \<in> set (dbNodes d). nodeID m \<notin> set [nodeID n] \<and>
      (\<exists>g\<in>set gs. (groupID g, nodeID m) \<in> set (dbMembers d))}"
    and peers: "peers = mesh_peer_configs env 0 (neHub ne) ms d"
  proof (cases "gs = []")
    case True
    then show thesis using gs that [of "[]"] by simp
  next
    case False
    then obtain ms where "mesh_members env 0 [nodeID n] gs d = Inr ms" "peers = mesh_peer_configs env 0 (neHub ne) ms d"
      using gs by auto
    then show thesis using that mesh_members_set [OF _ assms(2)] by blast
  qed
  have bare: "{mesh_peer hub m p |m p. m \<in> bare ` S \<and> nodeWireGuardIP m \<noteq> '''' \<and> F (nodeID m) p} =
      {mesh_peer hub m p |m p. m \<in> S \<and> nodeWireGuardIP m \<noteq> '''' \<and> F (nodeID m) p}" for hub S F
    by (auto simp: image_iff) (metis bare_sel)+
  show ?thesis
    unfolding peers mesh_peer_configs_set [OF assms(3)] ms
    by (subst bare [where F = "\<lambda>i p. find (\<lambda>p. peerOwnerType p = PeerOwnerNode \<and> peerOwnerID p = i) (dbPeers d) = Some p"])
       (use mem in auto)
qed

section \<open>Sample calls\<close>

definition store_ok :: "SecretStore \<Rightarrow> bool" where
  "store_ok st \<longleftrightarrow> (\<exists>keys. NewVersionedStore keys = Inr st)"

lemma Decrypt_Encrypt:
  assumes "store_ok st" "length nonce = NonceSize"
  shows "\<exists>c. Encrypt st (Inr nonce) p = Inr c \<and> Decrypt st c = Inr p"
proof -
  obtain keys where keys: "NewVersionedStore keys = Inr st" using assms(1) by (auto simp: store_ok_def)
  then have "find (\<lambda>k'. vkVersion k' = vkVersion (hd keys)) keys = Some (hd keys)"
    by (cases keys) (auto simp: NewVersionedStore_ok)
  from Decrypt_sealed [OF keys this assms(2)] Encrypt_versioned [OF keys] show ?thesis by blast
qed

definition sample_store :: SecretStore where
  "sample_store = \<lparr>stKey = vkKey (sample_key 1), stVersion = 1, stRing = [sample_key 1]\<rparr>"

definition sample_sealed :: "string \<Rightarrow> string" where
  "sample_sealed p = (case Encrypt sample_store (Inr (replicate 12 CHR ''n'')) p of Inr c \<Rightarrow> c | Inl _ \<Rightarrow> '''')"

lemma sample_store_ok: "store_ok sample_store"
  unfolding store_ok_def
  by (rule exI [of _ "[sample_key 1]"]) (simp add: NewVersionedStore_ok sample_store_def sample_key_def)

lemma Decrypt_sample [simp]: "Decrypt sample_store (sample_sealed p) = Inr p"
  using Decrypt_Encrypt [OF sample_store_ok, of "replicate 12 CHR ''n''" p]
  by (auto simp: sample_sealed_def NonceSize_def)

definition sample_peer :: "ID \<Rightarrow> PeerOwnerType \<Rightarrow> ID \<Rightarrow> string \<Rightarrow> WireGuardPeer" where
  "sample_peer i ty own key =
     \<lparr>peerID = i, peerOwnerType = ty, peerOwnerID = own, peerPublicKey = key @ '' public'',
      peerPrivateKey = sample_sealed key, peerPresharedKey = '''', peerAllowedIPs = [], peerEndpoint = '''',
      peerLastRotatedAt = 0, peerCreatedAt = 0, peerUpdatedAt = 0\<rparr>"

definition sample_net :: net_env where
  "sample_net =
     \<lparr>neHub = \<lparr>hubListenPort = 51820, hubSubnet = ''10.100.0.0/16'', hubAddress = ''10.100.0.1/16'', hubTopology = ''mesh'',
                hubIPv6Subnet = '''', hubIPv6Address = ''''\<rparr>,
      neStore = sample_store, neRandKey = Inr (replicate 32 7), neRandPSK = Inr (replicate 32 8),
      neNonce = (\<lambda>_. Inr (replicate 12 CHR ''n'')), neX25519 = Inr\<rparr>"

definition mesh_node :: "ID \<Rightarrow> Node" where
  "mesh_node i = (sample_node i)\<lparr>nodeWireGuardIP := ''10.100.0.'' @ itoa (uint i), nodePublicIP := ''203.0.113.7''\<rparr>"

definition mesh_db :: "WireGuardPeer list \<Rightarrow> db" where
  "mesh_db peers = empty_db\<lparr>dbTenants := [sample_tenant], dbNodes := [mesh_node 1, mesh_node 2],
     dbGroups := [sample_group], dbMembers := [(3, 1), (3, 2)], dbPeers := peers\<rparr>"

definition mesh_peers :: "WireGuardPeer list" where
  "mesh_peers = [sample_peer 11 PeerOwnerNode 1 ''a'', sample_peer 12 PeerOwnerNode 2 ''b'']"

lemma mesh_db_sel [simp]:
  "dbNodes (mesh_db ps) = [mesh_node 1, mesh_node 2]" "dbGroups (mesh_db ps) = [sample_group]"
  "dbMembers (mesh_db ps) = [(3, 1), (3, 2)]" "dbPeers (mesh_db ps) = ps"
  by (simp_all add: mesh_db_def empty_db_def)

lemma sample_net_sel [simp]: "neStore sample_net = sample_store" "hubTopology (neHub sample_net) = ''mesh''"
  "hubListenPort (neHub sample_net) = 51820"
  by (simp_all add: sample_net_def)

lemma mesh_node_sel [simp]: "nodeID (mesh_node i) = i" "nodeWireGuardIP (mesh_node i) \<noteq> ''''"
  by (simp_all add: mesh_node_def sample_node_def)

lemma sample_peer_sel [simp]:
  "peerOwnerType (sample_peer i ty own k) = ty" "peerOwnerID (sample_peer i ty own k) = own"
  "peerPrivateKey (sample_peer i ty own k) = sample_sealed k" "peer_psk st (sample_peer i ty own k) = Inr ''''"
  by (simp_all add: sample_peer_def peer_psk_def)

lemma ok_env_conn [simp]: "svDB (ok_env i) l = fk_conn" "connErr fk_conn = None"
  by (simp_all add: ok_env_def fk_conn_def)

lemma sample_mesh: "\<exists>peers port. generateMeshPeers (ok_env 0) sample_net (mesh_node n) (mesh_db ps) = Inr (peers, port)"
proof -
  have "mesh_members (ok_env 0) k seen gs (mesh_db ps) \<noteq> Inl e" for k seen gs e
    by (induction gs arbitrary: k seen e)
       (auto simp: ListGroupNodes_def sql_query_def Let_def split: sum.splits)
  then show ?thesis
    by (auto simp: generateMeshPeers_def ListNodeGroups_ByNode_def sql_query_def simp del: mesh_members.simps
        split: sum.split)
qed

theorem mesh_peers_exact_witness:
  "\<exists>peers port. generateMeshPeers (ok_env 0) sample_net (mesh_node 1) (mesh_db mesh_peers) = Inr (peers, port) \<and>
     mesh_peer (neHub sample_net) (mesh_node 2) (sample_peer 12 PeerOwnerNode 2 ''b'') \<in> set peers"
proof -
  obtain peers port where run: "generateMeshPeers (ok_env 0) sample_net (mesh_node 1) (mesh_db mesh_peers) = Inr (peers, port)"
    using sample_mesh by blast
  have "distinct (map nodeID (dbNodes (mesh_db mesh_peers)))" by simp
  from mesh_peers_exact [OF run this] run show ?thesis
    by (auto simp: mesh_peers_def sample_group_def)
qed

definition hub_peers :: "WireGuardPeer list" where
  "hub_peers = [sample_peer 10 PeerOwnerController 1 ''hub'', sample_peer 11 PeerOwnerNode 1 ''a'']"

lemma spoke_config_sample:
  assumes "find (\<lambda>p. peerOwnerType p = PeerOwnerNode \<and> peerOwnerID p = 1) ps = Some (sample_peer 11 PeerOwnerNode 1 ''a'')"
    and "find (\<lambda>p. peerOwnerType p = PeerOwnerController \<and> peerOwnerID p = ControllerPeerID) ps = Some cp"
  shows "\<exists>spoke. spoke_config (ok_env 0) sample_net 1 (mesh_db ps) = Inr spoke"
proof -
  obtain peers port where "generateMeshPeers (ok_env 0) sample_net (mesh_node 1) (mesh_db ps) = Inr (peers, port)"
    using sample_mesh by blast
  then show ?thesis
    using assms by (simp add: spoke_config_def GetNode_def GetWireGuardPeerByOwner_def sql_row_def row_find_def)
qed

theorem tunnel_ends_match_witness:
  "\<exists>hub spoke. hub_config (ok_env 0) sample_net (mesh_db hub_peers) = Inr hub \<and>
     spoke_config (ok_env 0) sample_net 1 (mesh_db hub_peers) = Inr spoke \<and>
     (\<exists>p\<in>set (wgcPeers hub). wpcPresharedKey p = wpcPresharedKey (hd (wgcPeers spoke)))"
proof -
  obtain spoke where spoke: "spoke_config (ok_env 0) sample_net 1 (mesh_db hub_peers) = Inr spoke"
    using spoke_config_sample [of hub_peers] by (auto simp: hub_peers_def ControllerPeerID_def)
  obtain hub where hub: "hub_config (ok_env 0) sample_net (mesh_db hub_peers) = Inr hub"
    by (simp add: hub_config_def GetWireGuardPeerByOwner_def ListWireGuardPeers_def sql_row_def sql_list_def sql_query_def
        hub_peers_def ControllerPeerID_def newest_first_def page_def listLimit_def)
  have "length (dbPeers (mesh_db hub_peers)) \<le> 10000" by (simp add: hub_peers_def)
  from tunnel_ends_match [OF hub spoke this] hub spoke show ?thesis by blast
qed


end
