(* ===== verification/Spec2Isabelle.thy ===== *)
theory Spec2Isabelle
  imports EF_Health EF_DiskCache EF_Enrollment EF_DNSServer EF_Fleet EF_Leader EF_Route EF_CDN EF_RateLimit
    EF_Networking
begin

text \<open>
  EdgeFabric: a controller that manages edge nodes and gateways for several tenants, and
  the servers that run on the nodes.

  \<^bold>\<open>The program.\<close>  Controllers share a database.  They keep tenants, users, nodes, DNS zones,
  CDN sites, routes and keys in it, install nodes over SSH, connect them by a WireGuard
  overlay, and elect a leader among themselves.  A node enrolls with a one-time token, is
  given an overlay address, and then polls the controller for what it has to serve.  It
  runs an authoritative DNS server and a caching CDN proxy, and probes the origins, peers
  and routes it depends on.

  \<^bold>\<open>Conventions.\<close>  A Go struct is a record, a string enumeration a datatype with a constructor
  for other strings, an \<open>error\<close> result a value of \<open>'a result\<close>, and a Go string a list of
  bytes.  Clock readings, random bytes, the order in which a map is iterated and the
  outcome of every file, network and database operation are arguments, so the theorems
  hold for all of them.  Third-party code and network peers (the SQL driver, the SSH
  client, bcrypt, X25519, UUID texts, one-time passwords, name resolution, the lock manager
  of PostgreSQL) are parameters; where a theorem needs something of them, it is a hypothesis
  and a witness shows it can hold.  Machine integers are words where they can wrap.

  \<^bold>\<open>Foundations.\<close>
  \<^item> \<open>EF_Prelude\<close>: identifiers, times, errors, the string functions of the Go library, and
    list lemmas.  \<open>EF_Net\<close>: parsing and printing of addresses and prefixes of the \<open>net\<close> package.
  \<^item> \<open>EF_Domain\<close>: the types of \<open>domain/\<close>.  \<open>EF_Events\<close>: the event bus of \<open>events/\<close>.
  \<^item> \<open>EF_Storage\<close>: the tables and all operations of \<open>storage/sqlite/\<close>, one definition per
    method; \<open>conn\<close> says how the connection of a call behaves.  \<open>EF_Schema\<close>: the constraints of
    the schema as the invariant \<open>db_ok\<close>, kept by every operation; the refinement of the row
    operations to finite maps (locale \<open>keyed_store\<close>); cursor paging; migrations.
  \<^item> \<open>EF_Service\<close>: the environment \<open>svc_env\<close> of a service call, which names the connection of
    each of its statements.

  \<^bold>\<open>Controller.\<close>
  \<^item> \<open>EF_Overlay\<close>: key pairs and the search for a free overlay address (\<open>provisioning/wireguard.go\<close>);
    the search returns the first free host address and fails only if there is none.
  \<^item> \<open>EF_Provisioning\<close>: \<open>provisioner.go\<close>, \<open>steps.go\<close> and the pipelines; every pipeline ends with a job
    that tells what happened.  \<open>EF_Enrollment\<close>: \<open>enrollment.go\<close> and \<open>rotation.go\<close>; a token enrolls
    once and addresses stay distinct.
  \<^item> \<open>EF_DNS\<close>, \<open>EF_CDN\<close>, \<open>EF_Route\<close>: the services \<open>dns/\<close>, \<open>cdn/\<close> and \<open>route/\<close> with their
    validation.  \<open>EF_NodeConfig\<close>: the locale \<open>node_config\<close> of the three snapshots that nodes
    poll, interpreted by each of them.
  \<^item> \<open>EF_Networking\<close>: \<open>networking/\<close> without its health checker: BGP sessions, allocations, the
    configurations of hub, node and mesh and their text, key rotation.
  \<^item> \<open>EF_Crypto\<close>: \<open>crypto/\<close> and \<open>secrets/\<close>, with base64, SHA-256, HMAC and AES-GCM written out.
    \<open>EF_Auth\<close>: \<open>auth/\<close>, \<open>rbac/\<close> and the middleware of \<open>api/middleware/\<close>.  \<open>EF_Fleet\<close>: \<open>tenant/\<close>,
    \<open>user/\<close>, \<open>fleet/\<close>, \<open>audit/\<close> and \<open>app/seed.go\<close>.
  \<^item> \<open>EF_Leader\<close>: \<open>ha/leader.go\<close>; a cluster of electors is a transition system whose steps are
    turns, failed statements, shutdowns and lost sessions.

  \<^bold>\<open>Nodes.\<close>
  \<^item> \<open>EF_DNSServer\<close>: \<open>dnsserver/\<close>: configuration, answers and zone transfers.
  \<^item> \<open>EF_Cache\<close>, \<open>EF_DiskCache\<close>: \<open>cdnserver/cache.go\<close> and \<open>diskcache.go\<close>.  The linked list lives
    on an explicit heap and refines an LRU list; the locale \<open>response_cache\<close> is the Go interface
    \<open>CacheBackend\<close>, with the memory, disk and two-level caches as interpretations.
  \<^item> \<open>EF_RateLimit\<close>: \<open>cdnserver/ratelimit.go\<close> with the rounding of its floating-point counters.
  \<^item> \<open>EF_Health\<close>: \<open>cdnserver/healthcheck.go\<close>, \<open>networking/health.go\<close> and \<open>routeserver/health.go\<close>,
    three interpretations of the locale \<open>health_machine\<close>.

  \<^bold>\<open>Loops and bounds.\<close>  Loops that are not structural are total by a \<open>measure\<close>, or
  \<open>partial_function (option)\<close> where they may not end (cache eviction, address search);
  the theorems on those state that they return.  No definition uses fuel.  Listings in the
  services carry the limit of 10000 rows that the code passes; theorems that need all rows
  assume that many fit.

  \<^bold>\<open>Not modelled.\<close>
  \<^item> The PostgreSQL store repeats the SQLite one in another SQL dialect.
  \<^item> The REST handlers decode a request, call a service that is modelled, and encode the
    result; their checks of permissions are modelled in \<open>EF_Auth\<close>.
  \<^item> The CDN proxy's request handler is glue around the reverse proxy, the compressors and
    the regular expressions of the standard library.
  \<^item> The forwarders copy packets between sockets, the BGP service drives the GoBGP library,
    and the event handlers send mail and HTTP requests.
  \<^item> Start-up, configuration files, HTTP clients, metrics, the Kubernetes operator and the
    web console.
\<close>

end
